theory Spec2Isabelle
  imports Complex_Main "HOL-Library.Monad_Syntax"
begin

section \<open>Numbers, vectors and quaternions\<close>

text \<open>
  JavaScript numbers are modelled as real numbers: the controller's thresholds, clamps and
  comparisons are read as exact arithmetic (no rounding, no NaN, no infinities).
  The vector and quaternion operations below are those of the three.js classes
  \<^verbatim>\<open>Vector3\<close>, \<^verbatim>\<open>Quaternion\<close> and \<^verbatim>\<open>MathUtils\<close> that
  \<^verbatim>\<open>game_core.js\<close> calls (a library the game imports), written out componentwise.
\<close>

datatype Vector3 = Vector3 (vecx: real) (vecy: real) (vecz: real)

datatype Quaternion = Quaternion (quatx: real) (quaty: real) (quatz: real) (quatw: real)

definition lengthSq :: "Vector3 \<Rightarrow> real" where
  "lengthSq v = vecx v * vecx v + vecy v * vecy v + vecz v * vecz v"

definition vlength :: "Vector3 \<Rightarrow> real" where
  "vlength v = sqrt (vecx v * vecx v + vecy v * vecy v + vecz v * vecz v)"

definition dot :: "Vector3 \<Rightarrow> Vector3 \<Rightarrow> real" where
  "dot v w = vecx v * vecx w + vecy v * vecy w + vecz v * vecz w"

definition multiplyScalar :: "Vector3 \<Rightarrow> real \<Rightarrow> Vector3" where
  "multiplyScalar v k = Vector3 (vecx v * k) (vecy v * k) (vecz v * k)"

definition addv :: "Vector3 \<Rightarrow> Vector3 \<Rightarrow> Vector3" where
  "addv v w = Vector3 (vecx v + vecx w) (vecy v + vecy w) (vecz v + vecz w)"

definition subv :: "Vector3 \<Rightarrow> Vector3 \<Rightarrow> Vector3" where
  "subv v w = Vector3 (vecx v - vecx w) (vecy v - vecy w) (vecz v - vecz w)"

definition addScaledVector :: "Vector3 \<Rightarrow> Vector3 \<Rightarrow> real \<Rightarrow> Vector3" where
  "addScaledVector v w k = Vector3 (vecx v + vecx w * k) (vecy v + vecy w * k) (vecz v + vecz w * k)"

definition setY :: "Vector3 \<Rightarrow> real \<Rightarrow> Vector3" where
  "setY v k = Vector3 (vecx v) k (vecz v)"

text \<open>\<^verbatim>\<open>normalize()\<close> is \<^verbatim>\<open>divideScalar(length() || 1)\<close>, and
  \<^verbatim>\<open>divideScalar(k)\<close> is \<^verbatim>\<open>multiplyScalar(1 / k)\<close>.\<close>

definition normalize3 :: "Vector3 \<Rightarrow> Vector3" where
  "normalize3 v = multiplyScalar v (1 / (if vlength v = 0 then 1 else vlength v))"

definition lerp :: "Vector3 \<Rightarrow> Vector3 \<Rightarrow> real \<Rightarrow> Vector3" where
  "lerp v w alpha =
     Vector3 (vecx v + (vecx w - vecx v) * alpha)
             (vecy v + (vecy w - vecy v) * alpha)
             (vecz v + (vecz w - vecz v) * alpha)"

definition applyQuaternion :: "Vector3 \<Rightarrow> Quaternion \<Rightarrow> Vector3" where
  "applyQuaternion v q =
     (let tx = 2 * (quaty q * vecz v - quatz q * vecy v);
          ty = 2 * (quatz q * vecx v - quatx q * vecz v);
          tz = 2 * (quatx q * vecy v - quaty q * vecx v)
      in Vector3 (vecx v + quatw q * tx + quaty q * tz - quatz q * ty)
                 (vecy v + quatw q * ty + quatz q * tx - quatx q * tz)
                 (vecz v + quatw q * tz + quatx q * ty - quaty q * tx))"

definition multiplyQuaternions :: "Quaternion \<Rightarrow> Quaternion \<Rightarrow> Quaternion" where
  "multiplyQuaternions a b =
     Quaternion
       (quatx a * quatw b + quatw a * quatx b + quaty a * quatz b - quatz a * quaty b)
       (quaty a * quatw b + quatw a * quaty b + quatz a * quatx b - quatx a * quatz b)
       (quatz a * quatw b + quatw a * quatz b + quatx a * quaty b - quaty a * quatx b)
       (quatw a * quatw b - quatx a * quatx b - quaty a * quaty b - quatz a * quatz b)"

definition setFromAxisAngle :: "Vector3 \<Rightarrow> real \<Rightarrow> Quaternion" where
  "setFromAxisAngle axis angle =
     (let halfAngle = angle / 2; k = sin halfAngle
      in Quaternion (vecx axis * k) (vecy axis * k) (vecz axis * k) (cos halfAngle))"

text \<open>\<^verbatim>\<open>THREE.MathUtils.clamp(value, min, max)\<close> is
  \<^verbatim>\<open>Math.max(min, Math.min(max, value))\<close>.\<close>

definition clamp :: "real \<Rightarrow> real \<Rightarrow> real \<Rightarrow> real" where
  "clamp v lo hi = max lo (min hi v)"

text \<open>\<^verbatim>\<open>Math.atan2(y, x)\<close>.\<close>

definition atan2 :: "real \<Rightarrow> real \<Rightarrow> real" where
  "atan2 b a =
     (if 0 < a then arctan (b / a)
      else if a < 0 then (if 0 \<le> b then arctan (b / a) + pi else arctan (b / a) - pi)
      else if 0 < b then pi / 2
      else if b < 0 then - (pi / 2)
      else 0)"

section \<open>Configuration, rigid body and game state\<close>

text \<open>The fields of \<^verbatim>\<open>CONFIG\<close> that the per-frame code reads.\<close>

record Config =
  GROUND_PLANE_Y :: real
  PLAYER_RADIUS :: real
  PLAYER_HEIGHT :: real
  PLAYER_MOVE_MIDAIR :: bool
  PLAYER_MID_AIR_DAMPEN :: real
  PLAYER_JUMP_IMPULSE :: real
  PLAYER_MAX_SPEED :: real
  PLAYER_ACCEL :: real
  PLAYER_BRAKE :: real
  PLAYER_AIR_ACCEL :: real
  PLAYER_AIR_BRAKE :: real
  PLAYER_SIDE_DAMP_GROUND :: real
  PLAYER_SIDE_DAMP_AIR :: real
  PLAYER_USE_STRAFE_DAMP :: bool
  PLAYER_DEFAULT_FRICTION :: real
  TURN_SPEED :: real
  WALL_SLIDE_FRICTION :: real
  WALL_SLIDE_MAX_FALL_SPEED :: real
  WALL_NORMAL_MAX_Y :: real
  GROUND_NORMAL_MIN_Y :: real
  GROUND_BAND_FRACTION :: real
  WALL_CLIMB_SPEED :: real
  WALL_CLIMB_STICK_SPEED :: real
  WALL_CLIMB_MIN_NORMAL :: real
  WALL_CLIMB_EXIT_COOLDOWN :: real
  CLIMB_ANIM_GRACE_SECONDS :: real
  ANIM_AIR_MIN_TIME :: real
  MOVE_SPEED_THRESHOLD :: real
  CAMERA_MIN_DISTANCE :: real
  CAMERA_MAX_DISTANCE :: real
  CAMERA_VERTICAL_OFFSET :: real
  CAMERA_MIN_PITCH :: real
  CAMERA_MAX_PITCH :: real
  CAMERA_BELOW_PLAYER_ENABLE_HEIGHT :: real
  CAMERA_MIN_PITCH_BELOW :: real
  MOUSE_YAW_SENSITIVITY :: real
  MOUSE_PITCH_SENSITIVITY :: real

text \<open>
  The Ammo rigid body of the player, as far as the controller reads and writes it: the
  body's world transform, the transform held by its motion state (absent when
  \<^verbatim>\<open>getMotionState()\<close> gives nothing), its linear velocity, friction and
  activation flag.
\<close>

record Transform =
  origin :: Vector3
  rotation :: Quaternion

record Body =
  worldTransform :: Transform
  motionState :: "Transform option"
  linearVelocity :: Vector3
  friction :: real
  active :: bool

text \<open>
  A contact manifold of the dispatcher: the pointers of its two bodies and its contact
  points.
\<close>

record ContactPoint =
  distance :: real
  normalWorldOnB :: Vector3
  positionWorldOnA :: Vector3
  positionWorldOnB :: Vector3

record Manifold =
  body0 :: nat
  body1 :: nat
  contactPoints :: "ContactPoint list"

text \<open>
  The physics world as one frame meets it: what \<^verbatim>\<open>stepSimulation(dt, 1)\<close> does to
  the player's body, the manifolds the dispatcher holds after the step, and the answer
  of \<^verbatim>\<open>rayTest\<close> for a ray from a start to an end point. The engine is outside the
  program, so the theorems quantify over all of it.
\<close>

record World =
  stepSimulation :: "real \<Rightarrow> Body \<Rightarrow> Body"
  manifolds :: "Manifold list"
  rayTest :: "Vector3 \<Rightarrow> Vector3 \<Rightarrow> bool"

datatype AnimName = idle | move | in_air | climb

text \<open>
  The move clip's action, as \<^verbatim>\<open>applyMoveAnimDirection\<close> reads and writes it:
  the duration of its clip (absent when \<^verbatim>\<open>getClip\<close> gives none), its time scale and time.
\<close>

record MoveAction =
  clipDuration :: "real option"
  timeScale :: real
  actionTime :: real

text \<open>
  The calls a frame makes on the engines around it, and the impulses it gives, in order.
  The trace is a ghost field of the state: no function reads it.
\<close>

datatype Call =
    StepSimulation real
  | SyncObject nat
  | SyncPlayer
  | MixerUpdate real
  | Render
  | JumpImpulse
  | WallJumpImpulse
  | PlayAction AnimName bool

text \<open>
  The state object of \<^verbatim>\<open>createGameState\<close>. A field that holds an engine object is
  a flag (present or null) when only its presence is read: \<^verbatim>\<open>physicsWorld\<close>,
  \<^verbatim>\<open>renderer\<close>, \<^verbatim>\<open>dispatcher\<close>, \<^verbatim>\<open>tmpTransform\<close>, \<^verbatim>\<open>playerMixer\<close>.
  \<^verbatim>\<open>camera\<close> is the camera's position when there is a camera. \<^verbatim>\<open>keys\<close> is the
  dictionary of key codes; a code never pressed is undefined. \<^verbatim>\<open>gameObjects\<close>
  lists, for each object, whether its body has a motion state. \<^verbatim>\<open>playerActions\<close>
  tells which of the four clips has an action, and \<^verbatim>\<open>playerCurrentAction\<close> names the
  current one.
\<close>

record GameState =
  camera :: "Vector3 option"
  renderer :: bool
  physicsWorld :: bool
  tmpTransform :: bool
  dispatcher :: bool
  keys :: "string \<Rightarrow> bool option"
  spaceWasDown :: bool
  gameObjects :: "bool list"
  Player :: "Body option"
  playerPtr :: nat
  playerMixer :: bool
  playerActions :: "AnimName \<Rightarrow> bool"
  moveAction :: MoveAction
  playerCurrentAction :: "AnimName option"
  playerCurrentState :: AnimName
  playerGrounded :: bool
  playerOnWall :: bool
  playerWallNormal :: Vector3
  playerClimbing :: bool
  climbExitTimer :: real
  climbAnimGrace :: real
  animInAir :: bool
  animAirTimer :: real
  pointerLocked :: bool
  cameraYawInitialized :: bool
  cameraYaw :: real
  cameraPitch :: real
  cameraDistance :: real
  playerHeightAboveGround :: real
  lastMoveAxis :: real
  moveAnimDir :: real
  calls :: "Call list"

section \<open>Contacts (grounded / wall)\<close>

text \<open>
  The three contact fields of the state that the loops of
  \<^verbatim>\<open>updatePlayerContacts\<close> write: \<^verbatim>\<open>playerGrounded\<close>, \<^verbatim>\<open>playerOnWall\<close> and
  \<^verbatim>\<open>playerWallNormal\<close>. The loops are folds over these three.
\<close>

record Contacts =
  cGrounded :: bool
  cOnWall :: bool
  cWallNormal :: Vector3

text \<open>One contact point of a manifold of the player: the body of the inner loop.\<close>

definition contactStep :: "Config \<Rightarrow> real \<Rightarrow> bool \<Rightarrow> bool \<Rightarrow> ContactPoint \<Rightarrow> Contacts \<Rightarrow> Contacts" where
  "contactStep cfg groundBandTopY isPlayer0 isPlayer1 pt c =
     (if distance pt \<ge> 0 then c
      else
        let nB = normalWorldOnB pt;
            nx = (if isPlayer1 then - vecx nB else vecx nB);
            ny = (if isPlayer1 then - vecy nB else vecy nB);
            nz = (if isPlayer1 then - vecz nB else vecz nB);
            pPlayer = (if isPlayer0 then positionWorldOnA pt else positionWorldOnB pt);
            py = vecy pPlayer;
            c1 = (if py \<le> groundBandTopY + 0.05 \<and> ny > GROUND_NORMAL_MIN_Y cfg
                  then c\<lparr>cGrounded := True\<rparr> else c);
            horizLenSq = nx * nx + nz * nz
        in if horizLenSq > 0.00001 \<and> \<bar>ny\<bar> \<le> WALL_NORMAL_MAX_Y cfg
           then
             let len = sqrt horizLenSq
             in c1\<lparr>cOnWall := True,
                   cWallNormal :=
                     Vector3 (vecx (cWallNormal c1) + nx / len)
                             (vecy (cWallNormal c1))
                             (vecz (cWallNormal c1) + nz / len)\<rparr>
           else c1)"

text \<open>One manifold: the body of the outer loop.\<close>

definition manifoldStep :: "Config \<Rightarrow> real \<Rightarrow> nat \<Rightarrow> Manifold \<Rightarrow> Contacts \<Rightarrow> Contacts" where
  "manifoldStep cfg groundBandTopY ptr m c =
     (let isPlayer0 = (body0 m = ptr);
          isPlayer1 = (body1 m = ptr)
      in if \<not> isPlayer0 \<and> \<not> isPlayer1 then c
         else fold (contactStep cfg groundBandTopY isPlayer0 isPlayer1) (contactPoints m) c)"

text \<open>
  \<^verbatim>\<open>updatePlayerContacts\<close>, in its steps: the reset of the three fields, the two nested
  loops over the manifolds (\<open>accumulateContacts\<close>), the renormalization of the accumulated
  wall normal (\<open>renormalizeWallNormal\<close>), and the landing override.
\<close>

definition accumulateContacts :: "Config \<Rightarrow> World \<Rightarrow> Body \<Rightarrow> nat \<Rightarrow> Contacts" where
  "accumulateContacts cfg w p ptr =
     (let centerY = vecy (origin (worldTransform p));
          bottomY = centerY - PLAYER_HEIGHT cfg / 2;
          groundBandTopY = bottomY + PLAYER_HEIGHT cfg * GROUND_BAND_FRACTION cfg
      in fold (manifoldStep cfg groundBandTopY ptr) (manifolds w)
           \<lparr>cGrounded = False, cOnWall = False, cWallNormal = Vector3 0 0 0\<rparr>)"

definition renormalizeWallNormal :: "Contacts \<Rightarrow> Contacts" where
  "renormalizeWallNormal c =
     (if cOnWall c
      then
        let n = setY (cWallNormal c) 0;
            l = vlength n
        in c\<lparr>cWallNormal := (if l > 0.000001 then multiplyScalar n (1 / l) else n)\<rparr>
      else c)"

definition updatePlayerContacts :: "GameState \<Rightarrow> Config \<Rightarrow> World \<Rightarrow> GameState" where
  "updatePlayerContacts s cfg w =
     (let s0 = s\<lparr>playerGrounded := False, playerOnWall := False,
                  playerWallNormal := Vector3 0 0 0\<rparr>
      in case Player s0 of
           None \<Rightarrow> s0
         | Some p \<Rightarrow>
             if \<not> dispatcher s0 \<or> playerPtr s0 = 0 then s0
             else
               let c = renormalizeWallNormal (accumulateContacts cfg w p (playerPtr s0));
                   s2 = s0\<lparr>playerGrounded := cGrounded c, playerOnWall := cOnWall c,
                            playerWallNormal := cWallNormal c\<rparr>
               in if playerGrounded s2
                  then s2\<lparr>playerClimbing := False, climbAnimGrace := 0\<rparr>
                  else s2)"

section \<open>Input and movement\<close>

text \<open>
  A function that dereferences \<^verbatim>\<open>state.Player\<close> (or another nullable field) without
  a guard throws a TypeError when the field is null; the model returns \<open>None\<close> there.
\<close>

definition isDown :: "GameState \<Rightarrow> string \<Rightarrow> bool" where
  "isDown s code = (keys s code = Some True)"

definition isGroundedRay :: "GameState \<Rightarrow> Config \<Rightarrow> real \<Rightarrow> World \<Rightarrow> bool option" where
  "isGroundedRay s cfg threshold w =
     (case Player s of
        None \<Rightarrow> None
      | Some p \<Rightarrow>
          (case motionState p of
             None \<Rightarrow> None
           | Some tr \<Rightarrow>
               let rayStart = Vector3 (vecx (origin tr))
                                (vecy (origin tr) - PLAYER_HEIGHT cfg / 2 + PLAYER_RADIUS cfg - 0.1)
                                (vecz (origin tr));
                   rayEnd = addv rayStart (Vector3 0 (- threshold) 0)
               in if physicsWorld s then Some (rayTest w rayStart rayEnd) else None))"

definition isGrounded :: "GameState \<Rightarrow> Config \<Rightarrow> World \<Rightarrow> bool option" where
  "isGrounded s cfg w = (if playerGrounded s then Some True else isGroundedRay s cfg 2 w)"

definition jump :: "GameState \<Rightarrow> Config \<Rightarrow> GameState option" where
  "jump s cfg =
     (case Player s of
        None \<Rightarrow> None
      | Some p \<Rightarrow>
          let lv = linearVelocity p
          in Some (s\<lparr>Player := Some (p\<lparr>linearVelocity :=
                                            Vector3 (vecx lv) (PLAYER_JUMP_IMPULSE cfg) (vecz lv),
                                          active := True\<rparr>),
                      calls := calls s @ [JumpImpulse]\<rparr>))"

definition applyWallClimb :: "GameState \<Rightarrow> Config \<Rightarrow> GameState option" where
  "applyWallClimb s cfg =
     (case Player s of
        None \<Rightarrow> None
      | Some p \<Rightarrow>
          let stick = multiplyScalar (playerWallNormal s) (- WALL_CLIMB_STICK_SPEED cfg)
          in Some (s\<lparr>Player := Some (p\<lparr>friction := WALL_SLIDE_FRICTION cfg,
                                          linearVelocity :=
                                            Vector3 (vecx stick) (WALL_CLIMB_SPEED cfg) (vecz stick),
                                          active := True\<rparr>)\<rparr>))"

definition wallJumpOff :: "GameState \<Rightarrow> Config \<Rightarrow> GameState option" where
  "wallJumpOff s cfg =
     (case Player s of
        None \<Rightarrow> None
      | Some p \<Rightarrow>
          let away = multiplyScalar (playerWallNormal s) 8
          in Some (s\<lparr>Player := Some (p\<lparr>linearVelocity :=
                                            Vector3 (vecx away) (PLAYER_JUMP_IMPULSE cfg) (vecz away),
                                          active := True\<rparr>),
                      playerClimbing := False,
                      climbAnimGrace := 0,
                      climbExitTimer := WALL_CLIMB_EXIT_COOLDOWN cfg,
                      calls := calls s @ [WallJumpImpulse]\<rparr>))"

definition bodyBasis :: "Body \<Rightarrow> Vector3 \<times> Vector3" where
  "bodyBasis p =
     (let quat = rotation (worldTransform p)
      in (normalize3 (applyQuaternion (Vector3 0 0 1) quat),
          normalize3 (applyQuaternion (Vector3 1 0 0) quat)))"

definition getPlayerBasis :: "GameState \<Rightarrow> (Vector3 \<times> Vector3) option" where
  "getPlayerBasis s = (case Player s of None \<Rightarrow> None | Some p \<Rightarrow> Some (bodyBasis p))"

text \<open>The blocks of \<^verbatim>\<open>applyCharacterMovement\<close>, in the order of the source.\<close>

text \<open>Wall slide constraint: remove the part of a velocity that points into the wall.\<close>

definition stripIntoWall :: "Vector3 \<Rightarrow> Vector3 \<Rightarrow> Vector3" where
  "stripIntoWall v wallNormal =
     (let into = dot v wallNormal
      in if into > 0 then addScaledVector v wallNormal (- into) else v)"

text \<open>The step of the current velocity toward the target, its length limited to
  \<open>maxDelta\<close>.\<close>

definition limitedDelta :: "Vector3 \<Rightarrow> Vector3 \<Rightarrow> real \<Rightarrow> Vector3" where
  "limitedDelta target current maxDelta =
     (let delta = subv target current;
          deltaLen = vlength delta
      in if deltaLen > maxDelta \<and> deltaLen > 0.000001
         then multiplyScalar delta (maxDelta / deltaLen) else delta)"

definition strafeDamp :: "Vector3 \<Rightarrow> Vector3 \<Rightarrow> Vector3 \<Rightarrow> real \<Rightarrow> real \<Rightarrow> Vector3" where
  "strafeDamp forward right newVel sideDamp dt =
     (let f = normalize3 (setY forward 0);
          r = normalize3 (setY right 0);
          fSpd = dot newVel f;
          rSpd = dot newVel r;
          rKeep = exp (- sideDamp * dt);
          rSpdDamped = rSpd * rKeep
      in addv (multiplyScalar f fSpd) (multiplyScalar r rSpdDamped))"

definition clampSpeed :: "Vector3 \<Rightarrow> real \<Rightarrow> Vector3" where
  "clampSpeed newVel maxSpeed =
     (let spd = vlength newVel
      in if spd > maxSpeed then multiplyScalar newVel (maxSpeed / spd) else newVel)"

text \<open>
  \<^verbatim>\<open>applyCharacterMovement\<close> reads the state (the move axis after the mid-air
  switch, the body's velocity, the basis, \<^verbatim>\<open>grounded\<close>, the wall flags) and then
  computes the body's new velocity and friction from these values alone; that
  computation is \<open>integrateMovement\<close>, in the order of the source. Its first part, up to
  \<^verbatim>\<open>const newVel = current.clone().add(delta)\<close>, is \<open>approachVelocity\<close>, and
  \<open>desiredVelocity\<close> is the desired velocity after the wall slide constraint.
\<close>

definition desiredVelocity :: "Config \<Rightarrow> bool \<Rightarrow> Vector3 \<Rightarrow> Vector3 \<Rightarrow> real \<Rightarrow> Vector3" where
  "desiredVelocity cfg sliding wallNormal forward moveAxis =
     (let desired0 = multiplyScalar forward (PLAYER_MAX_SPEED cfg * moveAxis)
      in if sliding then stripIntoWall desired0 wallNormal else desired0)"

definition approachVelocity :: "Config \<Rightarrow> bool \<Rightarrow> bool \<Rightarrow> Vector3 \<Rightarrow> Vector3 \<Rightarrow> real \<Rightarrow> real \<Rightarrow> Vector3 \<Rightarrow> Vector3" where
  "approachVelocity cfg grounded sliding wallNormal forward moveAxis dt lv =
     (let current = Vector3 (vecx lv) 0 (vecz lv);
          desired = desiredVelocity cfg sliding wallNormal forward moveAxis;
          accel = (if grounded then PLAYER_ACCEL cfg
                   else PLAYER_AIR_ACCEL cfg * PLAYER_MID_AIR_DAMPEN cfg);
          brake = (if grounded then PLAYER_BRAKE cfg else PLAYER_AIR_BRAKE cfg);
          target = (if moveAxis \<noteq> 0 then desired else Vector3 0 0 0);
          rate = (if moveAxis \<noteq> 0 then accel else brake);
          maxDelta = rate * dt
      in addv current (limitedDelta target current maxDelta))"

definition integrateMovement :: "Config \<Rightarrow> bool \<Rightarrow> bool \<Rightarrow> Vector3 \<Rightarrow> Vector3 \<Rightarrow> Vector3 \<Rightarrow> real \<Rightarrow> real \<Rightarrow> Body \<Rightarrow> Body" where
  "integrateMovement cfg grounded onWall wallNormal forward right moveAxis dt p =
     (let lv = linearVelocity p;
          wallSliding = (\<not> grounded \<and> onWall \<and> moveAxis \<noteq> 0);
          sliding = (wallSliding \<and> lengthSq wallNormal > 0.000001);
          newVel1 = approachVelocity cfg grounded sliding wallNormal forward moveAxis dt lv;
          newVel2 = (if PLAYER_USE_STRAFE_DAMP cfg
                     then strafeDamp forward right newVel1
                            (if grounded then PLAYER_SIDE_DAMP_GROUND cfg
                             else PLAYER_SIDE_DAMP_AIR cfg) dt
                     else newVel1);
          newVel3 = clampSpeed newVel2 (PLAYER_MAX_SPEED cfg);
          vy = (if sliding \<and> vecy lv < WALL_SLIDE_MAX_FALL_SPEED cfg
                then WALL_SLIDE_MAX_FALL_SPEED cfg else vecy lv);
          newVel = (if sliding then stripIntoWall newVel3 wallNormal else newVel3);
          fr = (if sliding then WALL_SLIDE_FRICTION cfg else PLAYER_DEFAULT_FRICTION cfg)
      in p\<lparr>friction := fr,
            linearVelocity := Vector3 (vecx newVel) vy (vecz newVel),
            active := True\<rparr>)"

definition applyCharacterMovement :: "GameState \<Rightarrow> Config \<Rightarrow> World \<Rightarrow> real \<Rightarrow> real \<Rightarrow> GameState option" where
  "applyCharacterMovement s cfg w moveAxis0 dt =
     do {
       moveAxis \<leftarrow> (if \<not> PLAYER_MOVE_MIDAIR cfg
                    then do { g \<leftarrow> isGrounded s cfg w; Some (if \<not> g then 0 else moveAxis0) }
                    else Some moveAxis0);
       p \<leftarrow> Player s;
       (forward, right) \<leftarrow> getPlayerBasis s;
       grounded \<leftarrow> isGrounded s cfg w;
       Some (s\<lparr>Player := Some (integrateMovement cfg grounded (playerOnWall s)
                                  (playerWallNormal s) forward right moveAxis dt p)\<rparr>)
     }"

definition turn :: "GameState \<Rightarrow> Config \<Rightarrow> real \<Rightarrow> real \<Rightarrow> GameState option" where
  "turn s cfg delta dt =
     (case Player s of
        None \<Rightarrow> None
      | Some p \<Rightarrow>
          let t = worldTransform p;
              dq = setFromAxisAngle (Vector3 0 1 0) (delta * dt);
              q = multiplyQuaternions (rotation t) dq
          in Some (s\<lparr>Player := Some (p\<lparr>worldTransform := t\<lparr>rotation := q\<rparr>,
                                          active := True\<rparr>)\<rparr>))"

text \<open>
  \<^verbatim>\<open>handleInput\<close>, in two halves. The first (\<open>climbPhase\<close>) runs the two timers
  (\<open>tickClimbTimers\<close>), the turn keys (\<open>steer\<close>), the move axis and the climb gate
  (\<open>climbGate\<close>), up to the end of the \<^verbatim>\<open>if (state.playerClimbing) ... else ...\<close>
  block; it returns the state together with the value of the local \<^verbatim>\<open>grounded\<close>.
  The second moves the body and then handles the jump key (\<open>jumpPhase\<close>, the last
  six lines).
\<close>

definition moveAxisOf :: "GameState \<Rightarrow> real" where
  "moveAxisOf s =
     (let forwardKey = (isDown s ''ArrowUp'' \<or> isDown s ''KeyW'');
          backKey = (isDown s ''ArrowDown'' \<or> isDown s ''KeyS'')
      in (if forwardKey then 1 else 0) - (if backKey then 1 else 0))"

definition climbGate :: "GameState \<Rightarrow> Config \<Rightarrow> bool \<Rightarrow> real \<Rightarrow> GameState" where
  "climbGate s cfg grounded moveAxis =
     (let wallOkPhysics = (playerOnWall s \<and>
                           vlength (playerWallNormal s) \<ge> WALL_CLIMB_MIN_NORMAL cfg);
          canAttemptClimb = (\<not> grounded \<and> moveAxis > 0 \<and> climbExitTimer s \<le> 0)
      in if playerClimbing s
         then
           if grounded \<or> moveAxis \<le> 0
           then s\<lparr>playerClimbing := False, climbAnimGrace := 0\<rparr>
           else if canAttemptClimb \<and> wallOkPhysics
           then s\<lparr>playerClimbing := True, climbAnimGrace := CLIMB_ANIM_GRACE_SECONDS cfg\<rparr>
           else if climbAnimGrace s \<le> 0 then s\<lparr>playerClimbing := False\<rparr> else s
         else
           if canAttemptClimb \<and> wallOkPhysics
           then s\<lparr>playerClimbing := True, climbAnimGrace := CLIMB_ANIM_GRACE_SECONDS cfg\<rparr>
           else s)"

definition tickClimbTimers :: "GameState \<Rightarrow> real \<Rightarrow> GameState" where
  "tickClimbTimers s dt =
     (let s1 = (if climbExitTimer s > 0
                then s\<lparr>climbExitTimer := max 0 (climbExitTimer s - dt)\<rparr> else s)
      in if climbAnimGrace s1 > 0
         then s1\<lparr>climbAnimGrace := max 0 (climbAnimGrace s1 - dt)\<rparr> else s1)"

definition steer :: "GameState \<Rightarrow> Config \<Rightarrow> real \<Rightarrow> GameState option" where
  "steer s cfg dt =
     do {
       let leftKey = (isDown s ''ArrowLeft'' \<or> isDown s ''KeyA'');
       let rightKey = (isDown s ''ArrowRight'' \<or> isDown s ''KeyD'');
       s1 \<leftarrow> (if leftKey then turn s cfg (TURN_SPEED cfg) dt else Some s);
       (if rightKey then turn s1 cfg (- TURN_SPEED cfg) dt else Some s1)
     }"

definition climbPhase :: "GameState \<Rightarrow> Config \<Rightarrow> World \<Rightarrow> real \<Rightarrow> (GameState \<times> bool) option" where
  "climbPhase s cfg w dt =
     do {
       s4 \<leftarrow> steer (tickClimbTimers s dt) cfg dt;
       let moveAxis = moveAxisOf s4;
       let s5 = s4\<lparr>lastMoveAxis := moveAxis\<rparr>;
       grounded \<leftarrow> isGrounded s5 cfg w;
       Some (climbGate s5 cfg grounded moveAxis, grounded)
     }"

definition jumpPhase :: "GameState \<Rightarrow> Config \<Rightarrow> bool \<Rightarrow> GameState option" where
  "jumpPhase s cfg grounded =
     do {
       let spaceDown = isDown s ''Space'';
       s8 \<leftarrow> (if spaceDown \<and> \<not> spaceWasDown s
              then (if playerClimbing s then wallJumpOff s cfg
                    else if grounded then jump s cfg
                    else Some s)
              else Some s);
       Some (s8\<lparr>spaceWasDown := spaceDown\<rparr>)
     }"

definition handleInput :: "GameState \<Rightarrow> Config \<Rightarrow> World \<Rightarrow> real \<Rightarrow> GameState option" where
  "handleInput s cfg w dt =
     (case Player s of
        None \<Rightarrow> Some s
      | Some _ \<Rightarrow>
          do {
            (s6, grounded) \<leftarrow> climbPhase s cfg w dt;
            s7 \<leftarrow> (if \<not> playerClimbing s6
                   then applyCharacterMovement s6 cfg w (lastMoveAxis s6) dt
                   else applyWallClimb s6 cfg);
            jumpPhase s7 cfg grounded
          })"

section \<open>Animation state switching\<close>

definition playPlayerAction :: "GameState \<Rightarrow> Config \<Rightarrow> AnimName \<Rightarrow> bool \<Rightarrow> GameState" where
  "playPlayerAction s cfg name immediate =
     (if \<not> playerActions s name then s
      else if playerCurrentAction s = Some name then s
      else s\<lparr>playerCurrentAction := Some name,
              playerCurrentState := name,
              calls := calls s @ [PlayAction name immediate]\<rparr>)"

definition applyMoveAnimDirection :: "GameState \<Rightarrow> real \<Rightarrow> bool \<Rightarrow> GameState" where
  "applyMoveAnimDirection s dir force =
     (if \<not> playerActions s move then s
      else
        let clampedDir = (if dir < 0 then - 1 else 1)
        in if \<not> force \<and> clampedDir = moveAnimDir s then s
           else
             let action = moveAction s;
                 dur = (case clipDuration action of None \<Rightarrow> 0 | Some d \<Rightarrow> d);
                 action1 = action\<lparr>timeScale := clampedDir\<rparr>;
                 action2 = (if dur > 0
                            then action1\<lparr>actionTime :=
                                   (if clampedDir < 0 then max (dur - 0.0001) 0 else 0.0001)\<rparr>
                            else action1)
             in s\<lparr>moveAction := action2, moveAnimDir := clampedDir\<rparr>)"

text \<open>
  The three steps of the non-climbing branch of \<^verbatim>\<open>updatePlayerAnimationState\<close>: the
  air latch (\<open>updateAirLatch\<close>, the \<^verbatim>\<open>if (isGrounded(...)) ... else ...\<close> block),
  the choice of the clip (\<open>desiredAnimation\<close>) and the switch to it with the direction of
  the move clip (\<open>switchAnimation\<close>).
\<close>

definition updateAirLatch :: "GameState \<Rightarrow> Config \<Rightarrow> bool \<Rightarrow> real \<Rightarrow> GameState" where
  "updateAirLatch s cfg g dt =
     (if g then s\<lparr>animInAir := False, animAirTimer := 0\<rparr>
      else
        let s' = s\<lparr>animAirTimer := animAirTimer s + dt\<rparr>
        in if \<not> animInAir s' \<and> animAirTimer s' \<ge> ANIM_AIR_MIN_TIME cfg
           then s'\<lparr>animInAir := True\<rparr> else s')"

definition desiredAnimation :: "GameState \<Rightarrow> Config \<Rightarrow> Body \<Rightarrow> AnimName" where
  "desiredAnimation s cfg p =
     (let lv = linearVelocity p;
          horizSpeed = sqrt (vecx lv * vecx lv + vecz lv * vecz lv)
      in if animInAir s then in_air
         else if horizSpeed > MOVE_SPEED_THRESHOLD cfg then move
         else idle)"

definition switchAnimation :: "GameState \<Rightarrow> Config \<Rightarrow> AnimName \<Rightarrow> GameState" where
  "switchAnimation s cfg desired =
     (let s2 = (if desired \<noteq> playerCurrentState s
                then playPlayerAction s cfg desired False else s)
      in if desired = move
         then applyMoveAnimDirection s2 (if lastMoveAxis s2 < 0 then - 1 else 1) False
         else if moveAnimDir s2 \<noteq> 1 then applyMoveAnimDirection s2 1 False
         else s2)"

definition updatePlayerAnimationState :: "GameState \<Rightarrow> Config \<Rightarrow> World \<Rightarrow> real \<Rightarrow> GameState option" where
  "updatePlayerAnimationState s cfg w dt =
     (case Player s of
        None \<Rightarrow> Some s
      | Some p \<Rightarrow>
          if \<not> playerMixer s then Some s
          else if playerClimbing s \<or> climbAnimGrace s > 0
          then
            let s1 = s\<lparr>animInAir := False, animAirTimer := 0\<rparr>
            in Some (if playerCurrentState s1 \<noteq> climb
                     then playPlayerAction s1 cfg climb False else s1)
          else
            do {
              g \<leftarrow> isGrounded s cfg w;
              let s1 = updateAirLatch s cfg g dt;
              Some (switchAnimation s1 cfg (desiredAnimation s1 cfg p))
            })"

section \<open>Sync visuals from physics\<close>

text \<open>
  The loop over \<^verbatim>\<open>state.gameObjects\<close>, from index \<open>i\<close>: an object whose body has no
  motion state is skipped; for the others the transform is read through
  \<^verbatim>\<open>state.tmpTransform\<close> (a TypeError when it is null) and the meshes are placed.
\<close>

fun syncObjects :: "nat \<Rightarrow> bool list \<Rightarrow> GameState \<Rightarrow> GameState option" where
  "syncObjects i [] s = Some s"
| "syncObjects i (ms # objs) s =
     (if \<not> ms then syncObjects (Suc i) objs s
      else if \<not> tmpTransform s then None
      else syncObjects (Suc i) objs (s\<lparr>calls := calls s @ [SyncObject i]\<rparr>))"

definition syncVisualsFromPhysics :: "GameState \<Rightarrow> Config \<Rightarrow> GameState option" where
  "syncVisualsFromPhysics s cfg =
     do {
       s1 \<leftarrow> syncObjects 0 (gameObjects s) s;
       (case Player s1 of
          None \<Rightarrow> Some s1
        | Some p \<Rightarrow>
            (case motionState p of
               None \<Rightarrow> None
             | Some tr \<Rightarrow>
                 if \<not> tmpTransform s1 then None
                 else Some (s1\<lparr>calls := calls s1 @ [SyncPlayer]\<rparr>)))
     }"

section \<open>Camera follow\<close>

definition getDynamicMinPitch :: "GameState \<Rightarrow> Config \<Rightarrow> real" where
  "getDynamicMinPitch s cfg =
     (if playerHeightAboveGround s > CAMERA_BELOW_PLAYER_ENABLE_HEIGHT cfg
      then CAMERA_MIN_PITCH_BELOW cfg
      else CAMERA_MIN_PITCH cfg)"

definition updateCamera :: "GameState \<Rightarrow> Config \<Rightarrow> GameState option" where
  "updateCamera s cfg =
     (case Player s of
        None \<Rightarrow> Some s
      | Some p \<Rightarrow>
          (case motionState p of
             None \<Rightarrow> Some s
           | Some tr \<Rightarrow>
               if \<not> tmpTransform s then None
               else
                 let targetPos = origin tr;
                     s1 = s\<lparr>playerHeightAboveGround := vecy targetPos - GROUND_PLANE_Y cfg\<rparr>
                 in (case camera s1 of
                      None \<Rightarrow> None
                    | Some camPos \<Rightarrow>
                        let s2 = (if \<not> cameraYawInitialized s1
                                  then
                                    let toCam = subv camPos targetPos;
                                        h = sqrt (vecx toCam * vecx toCam + vecz toCam * vecz toCam);
                                        horizLen = (if h = 0 then 0.000001 else h);
                                        s1a = s1\<lparr>cameraDistance :=
                                                   clamp (vlength toCam) (CAMERA_MIN_DISTANCE cfg)
                                                     (CAMERA_MAX_DISTANCE cfg),
                                                 cameraYaw := atan2 (vecx toCam) (vecz toCam),
                                                 cameraPitch := atan2 (vecy toCam) horizLen\<rparr>
                                    in s1a\<lparr>cameraPitch :=
                                              clamp (cameraPitch s1a) (getDynamicMinPitch s1a cfg)
                                                (CAMERA_MAX_PITCH cfg),
                                            cameraYawInitialized := True\<rparr>
                                  else s1);
                            s3 = s2\<lparr>cameraPitch :=
                                      clamp (cameraPitch s2) (getDynamicMinPitch s2 cfg)
                                        (CAMERA_MAX_PITCH cfg)\<rparr>;
                            horiz = cameraDistance s3 * cos (cameraPitch s3);
                            yOff = cameraDistance s3 * sin (cameraPitch s3);
                            xOff = horiz * sin (cameraYaw s3);
                            zOff = horiz * cos (cameraYaw s3);
                            desiredPos = Vector3 (vecx targetPos + xOff)
                                           (vecy targetPos + yOff + CAMERA_VERTICAL_OFFSET cfg * 0.15)
                                           (vecz targetPos + zOff)
                        in Some (s3\<lparr>camera := Some (lerp camPos desiredPos 0.15)\<rparr>))))"

section \<open>The frame and the input events\<close>

definition stepCore :: "GameState \<Rightarrow> Config \<Rightarrow> real \<Rightarrow> World \<Rightarrow> GameState option" where
  "stepCore s cfg dt w =
     (if \<not> physicsWorld s \<or> \<not> renderer s then Some s
      else
        do {
          let s1 = s\<lparr>Player := map_option (stepSimulation w dt) (Player s),
                      calls := calls s @ [StepSimulation dt]\<rparr>;
          let s2 = updatePlayerContacts s1 cfg w;
          s3 \<leftarrow> handleInput s2 cfg w dt;
          s4 \<leftarrow> syncVisualsFromPhysics s3 cfg;
          s5 \<leftarrow> updatePlayerAnimationState s4 cfg w dt;
          let s6 = (if playerMixer s5 then s5\<lparr>calls := calls s5 @ [MixerUpdate dt]\<rparr> else s5);
          s7 \<leftarrow> updateCamera s6 cfg;
          Some (s7\<lparr>calls := calls s7 @ [Render]\<rparr>)
        })"

text \<open>The listeners of \<^verbatim>\<open>initThree\<close> and \<^verbatim>\<open>bindKeys\<close> that write the state.\<close>

definition onMouseMove :: "GameState \<Rightarrow> Config \<Rightarrow> real \<Rightarrow> real \<Rightarrow> GameState" where
  "onMouseMove s cfg movementX movementY =
     (if \<not> pointerLocked s then s
      else
        let s1 = s\<lparr>cameraYaw := cameraYaw s - movementX * MOUSE_YAW_SENSITIVITY cfg\<rparr>;
            s2 = s1\<lparr>cameraPitch := cameraPitch s1 - movementY * MOUSE_PITCH_SENSITIVITY cfg\<rparr>
        in s2\<lparr>cameraPitch :=
                 clamp (cameraPitch s2) (getDynamicMinPitch s2 cfg) (CAMERA_MAX_PITCH cfg)\<rparr>)"

definition onWheel :: "GameState \<Rightarrow> Config \<Rightarrow> real \<Rightarrow> GameState" where
  "onWheel s cfg deltaY =
     s\<lparr>cameraDistance :=
         clamp (cameraDistance s + sgn deltaY * 2.0) (CAMERA_MIN_DISTANCE cfg)
           (CAMERA_MAX_DISTANCE cfg)\<rparr>"

definition onKeyDown :: "GameState \<Rightarrow> string \<Rightarrow> GameState" where
  "onKeyDown s code = s\<lparr>keys := (keys s)(code \<mapsto> True)\<rparr>"

definition onKeyUp :: "GameState \<Rightarrow> string \<Rightarrow> GameState" where
  "onKeyUp s code = s\<lparr>keys := (keys s)(code \<mapsto> False)\<rparr>"

datatype Event =
    KeyDown string
  | KeyUp string
  | MouseMove real real
  | Wheel real
  | PointerLockChange bool
  | Frame real World

fun dispatch :: "Config \<Rightarrow> Event \<Rightarrow> GameState \<Rightarrow> GameState option" where
  "dispatch cfg (KeyDown code) s = Some (onKeyDown s code)"
| "dispatch cfg (KeyUp code) s = Some (onKeyUp s code)"
| "dispatch cfg (MouseMove movementX movementY) s = Some (onMouseMove s cfg movementX movementY)"
| "dispatch cfg (Wheel deltaY) s = Some (onWheel s cfg deltaY)"
| "dispatch cfg (PointerLockChange locked) s = Some (s\<lparr>pointerLocked := locked\<rparr>)"
| "dispatch cfg (Frame dt w) s = stepCore s cfg dt w"

text \<open>A run of the game: the events in order, followed up to the first frame that throws
  (the result is \<open>None\<close> then).\<close>

fun run :: "Config \<Rightarrow> Event list \<Rightarrow> GameState \<Rightarrow> GameState option" where
  "run cfg [] s = Some s"
| "run cfg (e # es) s = (case dispatch cfg e s of None \<Rightarrow> None | Some s' \<Rightarrow> run cfg es s')"

section \<open>Example configuration and states\<close>

text \<open>The default values of \<^verbatim>\<open>CONFIG\<close>, as the configuration guide lists them.\<close>

definition defaultConfig :: Config where
  "defaultConfig =
     \<lparr>GROUND_PLANE_Y = 0, PLAYER_RADIUS = 2, PLAYER_HEIGHT = 8, PLAYER_MOVE_MIDAIR = True,
      PLAYER_MID_AIR_DAMPEN = 0.5, PLAYER_JUMP_IMPULSE = 25, PLAYER_MAX_SPEED = 15,
      PLAYER_ACCEL = 55, PLAYER_BRAKE = 75, PLAYER_AIR_ACCEL = 18, PLAYER_AIR_BRAKE = 8,
      PLAYER_SIDE_DAMP_GROUND = 18, PLAYER_SIDE_DAMP_AIR = 2, PLAYER_USE_STRAFE_DAMP = True,
      PLAYER_DEFAULT_FRICTION = 2.5, TURN_SPEED = 3, WALL_SLIDE_FRICTION = 0.15,
      WALL_SLIDE_MAX_FALL_SPEED = - 8, WALL_NORMAL_MAX_Y = 0.3, GROUND_NORMAL_MIN_Y = 0.1,
      GROUND_BAND_FRACTION = 0.1, WALL_CLIMB_SPEED = 9.5, WALL_CLIMB_STICK_SPEED = 3,
      WALL_CLIMB_MIN_NORMAL = 0.5, WALL_CLIMB_EXIT_COOLDOWN = 0.3,
      CLIMB_ANIM_GRACE_SECONDS = 1, ANIM_AIR_MIN_TIME = 0.1, MOVE_SPEED_THRESHOLD = 0.6,
      CAMERA_MIN_DISTANCE = 20, CAMERA_MAX_DISTANCE = 40, CAMERA_VERTICAL_OFFSET = 20,
      CAMERA_MIN_PITCH = 0.15, CAMERA_MAX_PITCH = 1.2, CAMERA_BELOW_PLAYER_ENABLE_HEIGHT = 18,
      CAMERA_MIN_PITCH_BELOW = - 0.65, MOUSE_YAW_SENSITIVITY = 0.0025,
      MOUSE_PITCH_SENSITIVITY = 0.002\<rparr>"

text \<open>
  A state as \<^verbatim>\<open>startCore\<close> leaves it: the player's capsule of height 8 standing on
  the plane \<open>y = 0\<close>, unrotated and at rest, no key pressed, every engine object created.
\<close>

definition startTransform :: Transform where
  "startTransform = \<lparr>origin = Vector3 0 4 0, rotation = Quaternion 0 0 0 1\<rparr>"

definition startBody :: Body where
  "startBody = \<lparr>worldTransform = startTransform, motionState = Some startTransform,
                 linearVelocity = Vector3 0 0 0, friction = 2.5, active = True\<rparr>"

definition startState :: GameState where
  "startState =
     \<lparr>camera = Some (Vector3 0 55 100), renderer = True, physicsWorld = True,
      tmpTransform = True, dispatcher = True, keys = Map.empty, spaceWasDown = False,
      gameObjects = [], Player = Some startBody, playerPtr = 1, playerMixer = True,
      playerActions = (\<lambda>a. True),
      moveAction = \<lparr>clipDuration = Some 1, timeScale = 1, actionTime = 0.0001\<rparr>,
      playerCurrentAction = Some idle, playerCurrentState = idle,
      playerGrounded = False, playerOnWall = False, playerWallNormal = Vector3 0 0 0,
      playerClimbing = False, climbExitTimer = 0, climbAnimGrace = 0,
      animInAir = False, animAirTimer = 0, pointerLocked = False,
      cameraYawInitialized = False, cameraYaw = 0, cameraPitch = 0.55, cameraDistance = 30,
      playerHeightAboveGround = 0, lastMoveAxis = 0, moveAnimDir = 1, calls = []\<rparr>"

text \<open>A world with nothing in it: the step leaves the body alone, nothing touches the
  player and no ray hits.\<close>

definition emptyWorld :: World where
  "emptyWorld = \<lparr>stepSimulation = (\<lambda>dt b. b), manifolds = [], rayTest = (\<lambda>a b. False)\<rparr>"

text \<open>The player in the air at a wall whose normal is \<open>(1, 0, 0)\<close>, forward key held.\<close>

definition atWallState :: GameState where
  "atWallState = startState\<lparr>keys := [''KeyW'' \<mapsto> True], playerOnWall := True,
                              playerWallNormal := Vector3 1 0 0\<rparr>"

text \<open>The player ten units above the plane, forward key held.\<close>

definition airTransform :: Transform where
  "airTransform = \<lparr>origin = Vector3 0 14 0, rotation = Quaternion 0 0 0 1\<rparr>"

definition airBody :: Body where
  "airBody = \<lparr>worldTransform = airTransform, motionState = Some airTransform,
               linearVelocity = Vector3 0 0 0, friction = 2.5, active = True\<rparr>"

definition airForwardState :: GameState where
  "airForwardState = startState\<lparr>Player := Some airBody, keys := [''KeyW'' \<mapsto> True]\<rparr>"

text \<open>
  A corner: the player (body 1) touches two walls at once, with the unit normals
  \<open>(40/41, 0, 9/41)\<close> and \<open>(-40/41, 0, 9/41)\<close>; no ground below.
\<close>

definition wallContact :: "Vector3 \<Rightarrow> ContactPoint" where
  "wallContact n = \<lparr>distance = - 0.01, normalWorldOnB = n,
                     positionWorldOnA = Vector3 0 14 0, positionWorldOnB = Vector3 0 14 0\<rparr>"

definition cornerWorld :: World where
  "cornerWorld =
     \<lparr>stepSimulation = (\<lambda>dt b. b),
      manifolds = [\<lparr>body0 = 1, body1 = 2,
                    contactPoints = [wallContact (Vector3 (40 / 41) 0 (9 / 41)),
                                     wallContact (Vector3 (- (40 / 41)) 0 (9 / 41))]\<rparr>],
      rayTest = (\<lambda>a b. False)\<rparr>"

text \<open>Flat ground: the player (body 1) touches the plane at the bottom of the capsule,
  with the normal \<open>(0, 1, 0)\<close>, and the downward ray hits.\<close>

definition groundWorld :: World where
  "groundWorld =
     \<lparr>stepSimulation = (\<lambda>dt b. b),
      manifolds = [\<lparr>body0 = 1, body1 = 2,
                    contactPoints = [\<lparr>distance = - 0.01, normalWorldOnB = Vector3 0 1 0,
                                      positionWorldOnA = Vector3 0 0 0,
                                      positionWorldOnB = Vector3 0 0 0\<rparr>]\<rparr>],
      rayTest = (\<lambda>a b. True)\<rparr>"

text \<open>A state left over from a climb: the flag and the grace timer are still set.\<close>

definition stillClimbingState :: GameState where
  "stillClimbingState = startState\<lparr>playerClimbing := True, climbAnimGrace := 0.5\<rparr>"



text \<open>Standing on the ground at rest, forward key held.\<close>

definition standingState :: GameState where
  "standingState = startState\<lparr>playerGrounded := True, keys := [''KeyW'' \<mapsto> True]\<rparr>"

text \<open>The player ten units above the plane, no key pressed.\<close>

definition airState :: GameState where
  "airState = startState\<lparr>Player := Some airBody\<rparr>"

text \<open>The start state with the pointer locked to the canvas.\<close>

definition lockedState :: GameState where
  "lockedState = startState\<lparr>pointerLocked := True\<rparr>"

text \<open>The engine as \<^verbatim>\<open>startCore\<close> has it just before \<^verbatim>\<open>createPlayer\<close>: world,
  renderer and the ground object are there, the player and its mixer are not.\<close>

definition noPlayerState :: GameState where
  "noPlayerState = startState\<lparr>Player := None, playerPtr := 0, playerMixer := False,
                                gameObjects := [True]\<rparr>"

text \<open>Just landed: grounded, with the air latch still on and the in-air clip playing.\<close>

definition landingState :: GameState where
  "landingState = startState\<lparr>playerGrounded := True, animInAir := True, animAirTimer := 0.25,
                               playerCurrentAction := Some in_air, playerCurrentState := in_air\<rparr>"

text \<open>The jump key is down and the last input handling saw it down.\<close>

definition heldState :: GameState where
  "heldState = startState\<lparr>keys := [''Space'' \<mapsto> True], spaceWasDown := True\<rparr>"

text \<open>The player thirty units above the plane, higher than the height from which the camera
  may look from below; the pointer is locked and the last camera update stored that
  height.\<close>

definition highTransform :: Transform where
  "highTransform = \<lparr>origin = Vector3 0 30 0, rotation = Quaternion 0 0 0 1\<rparr>"

definition highBody :: Body where
  "highBody = \<lparr>worldTransform = highTransform, motionState = Some highTransform,
                linearVelocity = Vector3 0 0 0, friction = 2.5, active = True\<rparr>"

definition highState :: GameState where
  "highState = startState\<lparr>Player := Some highBody, pointerLocked := True,
                            cameraYawInitialized := True, playerHeightAboveGround := 30\<rparr>"

text \<open>Back on the ground after a fall from up there: the stored height is still 30 and the
  pitch is still at the lower limit that holds up there.\<close>

definition droppedState :: GameState where
  "droppedState = startState\<lparr>cameraYawInitialized := True, playerHeightAboveGround := 30,
                               cameraPitch := - 0.65\<rparr>"

section \<open>Notions used in the statements and proofs\<close>

text \<open>\<open>steered s s'\<close>: \<open>s'\<close> is \<open>s\<close> with the player's body turned (its rotation and
  activation flag may differ, nothing else).\<close>

definition steered :: "GameState \<Rightarrow> GameState \<Rightarrow> bool" where
  "steered s s' \<longleftrightarrow>
     (\<exists>p p'. Player s = Some p \<and> Player s' = Some p' \<and> motionState p' = motionState p \<and>
        linearVelocity p' = linearVelocity p \<and> friction p' = friction p \<and>
        origin (worldTransform p') = origin (worldTransform p) \<and>
        s' = s\<lparr>Player := Some p'\<rparr>)"

text \<open>The two climb timers after the first two lines of \<^verbatim>\<open>handleInput\<close>.\<close>

definition tickedExit :: "GameState \<Rightarrow> real \<Rightarrow> real" where
  "tickedExit s dt =
     (if climbExitTimer s > 0 then max 0 (climbExitTimer s - dt) else climbExitTimer s)"

definition tickedGrace :: "GameState \<Rightarrow> real \<Rightarrow> real" where
  "tickedGrace s dt =
     (if climbAnimGrace s > 0 then max 0 (climbAnimGrace s - dt) else climbAnimGrace s)"

text \<open>\<open>rebodied s s'\<close>: \<open>s'\<close> is \<open>s\<close> with another value of the player's body, whose
  motion state is the same.\<close>

definition rebodied :: "GameState \<Rightarrow> GameState \<Rightarrow> bool" where
  "rebodied s s' \<longleftrightarrow>
     (\<exists>p p'. Player s = Some p \<and> motionState p' = motionState p \<and> s' = s\<lparr>Player := Some p'\<rparr>)"

text \<open>The invariant of the accumulator of the contact loops: the wall normal stays
  horizontal, and it is zero as long as no wall contact was seen.\<close>

definition accInv :: "Contacts \<Rightarrow> bool" where
  "accInv c \<longleftrightarrow> vecy (cWallNormal c) = 0 \<and> (\<not> cOnWall c \<longrightarrow> cWallNormal c = Vector3 0 0 0)"

text \<open>The jump key went down since the last call of \<^verbatim>\<open>handleInput\<close>.\<close>

definition jumpEdge :: "GameState \<Rightarrow> bool" where
  "jumpEdge s \<longleftrightarrow> isDown s ''Space'' \<and> \<not> spaceWasDown s"

text \<open>The number of jumps and wall jumps in a trace.\<close>

definition impulses :: "Call list \<Rightarrow> nat" where
  "impulses cs = length (filter (\<lambda>c. c = JumpImpulse \<or> c = WallJumpImpulse) cs)"

text \<open>The state after the physics step of \<^verbatim>\<open>stepCore\<close>.\<close>

definition stepped :: "GameState \<Rightarrow> real \<Rightarrow> World \<Rightarrow> GameState" where
  "stepped s dt w = s\<lparr>Player := map_option (stepSimulation w dt) (Player s),
                       calls := calls s @ [StepSimulation dt]\<rparr>"

text \<open>\<open>sameControl s s'\<close>: the fields that the input handling reads and writes agree,
  and no impulse was given in between.\<close>

definition sameControl :: "GameState \<Rightarrow> GameState \<Rightarrow> bool" where
  "sameControl s s' \<longleftrightarrow>
     keys s' = keys s \<and> spaceWasDown s' = spaceWasDown s \<and> Player s' = Player s \<and>
     physicsWorld s' = physicsWorld s \<and> renderer s' = renderer s \<and>
     playerGrounded s' = playerGrounded s \<and> playerClimbing s' = playerClimbing s \<and>
     climbAnimGrace s' = climbAnimGrace s \<and> climbExitTimer s' = climbExitTimer s \<and>
     impulses (calls s') = impulses (calls s)"

text \<open>The horizontal speed of a velocity.\<close>

definition horizontalSpeed :: "Vector3 \<Rightarrow> real" where
  "horizontalSpeed v = sqrt (vecx v * vecx v + vecz v * vecz v)"

text \<open>What \<^verbatim>\<open>updatePlayerContacts\<close> guarantees of the wall normal it stores: it is
  horizontal, and when its squared length passes the integrator's test
  \<^verbatim>\<open>lengthSq() > 1e-6\<close> it is a unit vector.\<close>

definition wallNormalClassified :: "Vector3 \<Rightarrow> bool" where
  "wallNormalClassified n \<longleftrightarrow> vecy n = 0 \<and> (lengthSq n > 0.000001 \<longrightarrow> lengthSq n = 1)"


text \<open>Wall-sliding, as \<^verbatim>\<open>applyCharacterMovement\<close> tests it: airborne, on a wall, a
  nonzero move axis, and a wall normal that passes \<^verbatim>\<open>lengthSq() > 1e-6\<close>.\<close>

definition wallSliding :: "GameState \<Rightarrow> bool \<Rightarrow> real \<Rightarrow> bool" where
  "wallSliding s g a \<longleftrightarrow>
     \<not> g \<and> playerOnWall s \<and> a \<noteq> 0 \<and> lengthSq (playerWallNormal s) > 0.000001"

text \<open>A rotation about the vertical axis only, by a unit quaternion (what createPlayer
  sets and \<^verbatim>\<open>turn\<close> keeps).\<close>

definition yawOnly :: "Quaternion \<Rightarrow> bool" where
  "yawOnly q \<longleftrightarrow> quatx q = 0 \<and> quatz q = 0 \<and> quaty q * quaty q + quatw q * quatw q = 1"

text \<open>Two horizontal unit vectors at a right angle.\<close>

definition orthoBasis :: "Vector3 \<Rightarrow> Vector3 \<Rightarrow> bool" where
  "orthoBasis f r \<longleftrightarrow>
     vecy f = 0 \<and> vecy r = 0 \<and> vecx f * vecx f + vecz f * vecz f = 1 \<and>
     vecx r * vecx r + vecz r * vecz r = 1 \<and> vecx f * vecx r + vecz f * vecz r = 0"

text \<open>The claim's words: the rate is the acceleration constant when the move axis is
  nonzero and the brake constant otherwise, grounded or airborne selecting the constants.\<close>

definition specRate :: "Config \<Rightarrow> bool \<Rightarrow> real \<Rightarrow> real" where
  "specRate cfg grounded moveAxis =
     (if moveAxis \<noteq> 0
      then (if grounded then PLAYER_ACCEL cfg
            else PLAYER_AIR_ACCEL cfg * PLAYER_MID_AIR_DAMPEN cfg)
      else (if grounded then PLAYER_BRAKE cfg else PLAYER_AIR_BRAKE cfg))"

text \<open>The claim's words: the target is the desired velocity when the move axis is nonzero
  and the zero vector otherwise.\<close>

definition specTarget :: "Vector3 \<Rightarrow> real \<Rightarrow> Vector3" where
  "specTarget desired moveAxis = (if moveAxis \<noteq> 0 then desired else Vector3 0 0 0)"

text \<open>The claim's words: \<open>delta = target - current\<close>, with its length clamped to
  \<open>maxDelta\<close>.\<close>

definition specClampedStep :: "Vector3 \<Rightarrow> Vector3 \<Rightarrow> real \<Rightarrow> Vector3" where
  "specClampedStep target current maxDelta =
     (let delta = subv target current
      in if vlength delta > maxDelta then multiplyScalar delta (maxDelta / vlength delta)
         else delta)"

text \<open>The claim's words: the clamped step, for that target and \<open>rate * dt\<close>, added to the
  current velocity.\<close>

definition specApproach :: "Config \<Rightarrow> bool \<Rightarrow> Vector3 \<Rightarrow> real \<Rightarrow> real \<Rightarrow> Vector3 \<Rightarrow> Vector3" where
  "specApproach cfg grounded desired moveAxis dt current =
     addv current
       (specClampedStep (specTarget desired moveAxis) current (specRate cfg grounded moveAxis * dt))"

text \<open>The integrator run \<open>k\<close> times in a row with the same move axis and time step.\<close>

fun moveFrames :: "nat \<Rightarrow> GameState \<Rightarrow> Config \<Rightarrow> World \<Rightarrow> real \<Rightarrow> real \<Rightarrow> GameState option" where
  "moveFrames 0 s cfg w moveAxis dt = Some s"
| "moveFrames (Suc k) s cfg w moveAxis dt =
     (case applyCharacterMovement s cfg w moveAxis dt of
        None \<Rightarrow> None
      | Some s' \<Rightarrow> moveFrames k s' cfg w moveAxis dt)"

text \<open>The velocity with horizontal part \<open>k\<close> times the horizontal vector \<open>f\<close> and
  vertical part \<open>y\<close>.\<close>

definition along :: "Vector3 \<Rightarrow> real \<Rightarrow> real \<Rightarrow> Vector3" where
  "along f k y = Vector3 (k * vecx f) y (k * vecz f)"

text \<open>The speed after one grounded frame with forward held, from speed \<open>v\<close> along the
  forward vector: \<open>mx\<close> is the maximum speed and \<open>m\<close> the step \<open>accel * dt\<close>.\<close>

definition rampStep :: "real \<Rightarrow> real \<Rightarrow> real \<Rightarrow> real" where
  "rampStep mx m v = (if mx - v > m \<and> mx - v > 0.000001 then v + m else mx)"

text \<open>\<open>sameScene s s'\<close>: the fields that no stage of the frame before the camera update
  writes agree, and the player's body, if any, kept its motion state.\<close>

definition sameScene :: "GameState \<Rightarrow> GameState \<Rightarrow> bool" where
  "sameScene s s' \<longleftrightarrow>
     keys s' = keys s \<and> physicsWorld s' = physicsWorld s \<and> renderer s' = renderer s \<and>
     tmpTransform s' = tmpTransform s \<and> camera s' = camera s \<and>
     gameObjects s' = gameObjects s \<and> playerMixer s' = playerMixer s \<and>
     pointerLocked s' = pointerLocked s \<and> cameraPitch s' = cameraPitch s \<and>
     playerHeightAboveGround s' = playerHeightAboveGround s \<and>
     cameraYawInitialized s' = cameraYawInitialized s \<and>
     map_option motionState (Player s') = map_option motionState (Player s)"

text \<open>The engine objects that a frame dereferences are in place, and the player's body
  has a motion state.\<close>

definition ready :: "GameState \<Rightarrow> bool" where
  "ready s \<longleftrightarrow>
     physicsWorld s \<and> renderer s \<and> tmpTransform s \<and> camera s \<noteq> None \<and>
     (case Player s of None \<Rightarrow> False | Some p \<Rightarrow> motionState p \<noteq> None)"

text \<open>The jump key is down and the last \<^verbatim>\<open>handleInput\<close> saw it down.\<close>

definition held :: "GameState \<Rightarrow> bool" where
  "held s \<longleftrightarrow> isDown s ''Space'' \<and> spaceWasDown s"

text \<open>The camera pitch lies in the interval of the specification, written out with the
  configuration values and not through \<^verbatim>\<open>getDynamicMinPitch\<close>: its lower end is
  \<^verbatim>\<open>CAMERA_MIN_PITCH_BELOW\<close> when the stored height of the player above the ground plane
  exceeds \<^verbatim>\<open>CAMERA_BELOW_PLAYER_ENABLE_HEIGHT\<close> and \<^verbatim>\<open>CAMERA_MIN_PITCH\<close> otherwise, its
  upper end is \<^verbatim>\<open>CAMERA_MAX_PITCH\<close>.\<close>

definition pitchClamped :: "Config \<Rightarrow> GameState \<Rightarrow> bool" where
  "pitchClamped cfg s \<longleftrightarrow>
     (if playerHeightAboveGround s > CAMERA_BELOW_PLAYER_ENABLE_HEIGHT cfg
      then CAMERA_MIN_PITCH_BELOW cfg else CAMERA_MIN_PITCH cfg) \<le> cameraPitch s \<and>
     cameraPitch s \<le> CAMERA_MAX_PITCH cfg"

text \<open>The pitch limits of the configuration are in order: neither minimum lies above the
  maximum.\<close>

definition pitchRangeOk :: "Config \<Rightarrow> bool" where
  "pitchRangeOk cfg \<longleftrightarrow>
     CAMERA_MIN_PITCH cfg \<le> CAMERA_MAX_PITCH cfg \<and> CAMERA_MIN_PITCH_BELOW cfg \<le> CAMERA_MAX_PITCH cfg"

text \<open>The entries that the loop of \<^verbatim>\<open>syncVisualsFromPhysics\<close> adds to the trace, from
  index \<open>i\<close>: one for each game object whose body has a motion state.\<close>

fun syncCalls :: "nat \<Rightarrow> bool list \<Rightarrow> Call list" where
  "syncCalls i [] = []"
| "syncCalls i (ms # objs) = (if ms then [SyncObject i] else []) @ syncCalls (Suc i) objs"

section \<open>Lemmas\<close>

subsection \<open>Turning and the first half of handleInput\<close>

lemma turn_Some:
  "Player s = Some p \<Longrightarrow>
   turn s cfg d dt =
     Some (s\<lparr>Player := Some (p\<lparr>worldTransform := (worldTransform p)\<lparr>rotation :=
             multiplyQuaternions (rotation (worldTransform p))
               (setFromAxisAngle (Vector3 0 1 0) (d * dt))\<rparr>,
             active := True\<rparr>)\<rparr>)"
  by (simp add: turn_def Let_def)

lemma steered_refl: "Player s = Some p \<Longrightarrow> steered s s"
  by (simp add: steered_def)

lemma steered_turn: "steered s s1 \<Longrightarrow> \<exists>s2. turn s1 cfg d dt = Some s2 \<and> steered s s2"
  by (auto simp: steered_def turn_Some)

lemma steered_opt_turn:
  "steered s s1 \<Longrightarrow> \<exists>s2. (if b then turn s1 cfg d dt else Some s1) = Some s2 \<and> steered s s2"
  using steered_turn by (cases b) auto

lemma steer_Some:
  assumes "Player s = Some p"
  shows "\<exists>s4. steer s cfg dt = Some s4 \<and> steered s s4"
proof -
  obtain s1 where s1: "(if isDown s ''ArrowLeft'' \<or> isDown s ''KeyA''
                        then turn s cfg (TURN_SPEED cfg) dt else Some s) = Some s1"
    and st1: "steered s s1"
    using steered_opt_turn[OF steered_refl[OF assms]] by blast
  obtain s4 where s4: "(if isDown s ''ArrowRight'' \<or> isDown s ''KeyD''
                        then turn s1 cfg (- TURN_SPEED cfg) dt else Some s1) = Some s4"
    and st4: "steered s s4"
    using steered_opt_turn[OF st1] by blast
  show ?thesis using s1 s4 st4 by (simp add: steer_def Let_def)
qed

lemma tickClimbTimers_eq:
  "tickClimbTimers s dt =
     s\<lparr>climbExitTimer := tickedExit s dt, climbAnimGrace := tickedGrace s dt\<rparr>"
  by (simp add: tickClimbTimers_def tickedExit_def tickedGrace_def Let_def)

lemma isGrounded_cong:
  "Player s' = Some p' \<Longrightarrow> Player s = Some p \<Longrightarrow> motionState p' = motionState p \<Longrightarrow>
   playerGrounded s' = playerGrounded s \<Longrightarrow> physicsWorld s' = physicsWorld s \<Longrightarrow>
   isGrounded s' cfg w = isGrounded s cfg w"
  by (simp add: isGrounded_def isGroundedRay_def split: option.splits)

lemma steered_isGrounded: "steered s s' \<Longrightarrow> isGrounded s' cfg w = isGrounded s cfg w"
  unfolding steered_def by (auto intro: isGrounded_cong)

lemma steered_moveAxisOf: "steered s s' \<Longrightarrow> moveAxisOf s' = moveAxisOf s"
  by (auto simp: steered_def moveAxisOf_def isDown_def)

lemma isGrounded_Some:
  "Player s = Some p \<Longrightarrow> motionState p = Some tr \<Longrightarrow> physicsWorld s \<Longrightarrow>
   \<exists>g. isGrounded s cfg w = Some g"
  by (auto simp: isGrounded_def isGroundedRay_def Let_def)

lemma climbPhase_eq:
  assumes P: "Player s = Some p"
  shows "\<exists>s5. steered (s\<lparr>climbExitTimer := tickedExit s dt, climbAnimGrace := tickedGrace s dt,
                          lastMoveAxis := moveAxisOf s\<rparr>) s5 \<and>
              climbPhase s cfg w dt =
                map_option (\<lambda>g. (climbGate s5 cfg g (moveAxisOf s), g)) (isGrounded s cfg w)"
proof -
  let ?s2 = "s\<lparr>climbExitTimer := tickedExit s dt, climbAnimGrace := tickedGrace s dt\<rparr>"
  have P2: "Player ?s2 = Some p" using P by simp
  obtain s4 where s4: "steer ?s2 cfg dt = Some s4" and st4: "steered ?s2 s4"
    using steer_Some[OF P2] by blast
  have m4: "moveAxisOf s4 = moveAxisOf s"
    using steered_moveAxisOf[OF st4] by (simp add: moveAxisOf_def isDown_def)
  define s5 where "s5 = s4\<lparr>lastMoveAxis := moveAxisOf s\<rparr>"
  have st5: "steered (?s2\<lparr>lastMoveAxis := moveAxisOf s\<rparr>) s5"
    using st4 by (auto simp: steered_def s5_def)
  have "isGrounded s5 cfg w = isGrounded (?s2\<lparr>lastMoveAxis := moveAxisOf s\<rparr>) cfg w"
    by (rule steered_isGrounded[OF st5])
  also have "\<dots> = isGrounded s cfg w"
    using P by (intro isGrounded_cong[where p=p and p'=p]) simp_all
  finally have g5: "isGrounded s5 cfg w = isGrounded s cfg w" .
  have "climbPhase s cfg w dt =
          map_option (\<lambda>g. (climbGate s5 cfg g (moveAxisOf s), g)) (isGrounded s cfg w)"
    using s4 g5
    by (cases "isGrounded s cfg w")
       (simp_all add: climbPhase_def tickClimbTimers_eq Let_def m4 s5_def[symmetric])
  with st5 show ?thesis by auto
qed

lemma climbPhase_Some:
  assumes P: "Player s = Some p" and G: "isGrounded s cfg w = Some g"
  shows "\<exists>s5. steered (s\<lparr>climbExitTimer := tickedExit s dt, climbAnimGrace := tickedGrace s dt,
                          lastMoveAxis := moveAxisOf s\<rparr>) s5 \<and>
              climbPhase s cfg w dt = Some (climbGate s5 cfg g (moveAxisOf s), g)"
  using climbPhase_eq[OF P, of dt cfg w] G by simp

lemma climbGate_enter:
  "\<not> playerClimbing s \<Longrightarrow>
   playerClimbing (climbGate s cfg g a) \<longleftrightarrow>
     (\<not> g \<and> a > 0 \<and> climbExitTimer s \<le> 0 \<and>
      playerOnWall s \<and> vlength (playerWallNormal s) \<ge> WALL_CLIMB_MIN_NORMAL cfg)"
  by (simp add: climbGate_def Let_def)

lemma climbGate_exitTimer: "climbExitTimer (climbGate s cfg g a) = climbExitTimer s"
  by (simp add: climbGate_def Let_def)

lemma climbGate_others:
  "Player (climbGate s cfg g a) = Player s"
  "playerGrounded (climbGate s cfg g a) = playerGrounded s"
  "physicsWorld (climbGate s cfg g a) = physicsWorld s"
  "renderer (climbGate s cfg g a) = renderer s"
  "keys (climbGate s cfg g a) = keys s"
  "spaceWasDown (climbGate s cfg g a) = spaceWasDown s"
  "calls (climbGate s cfg g a) = calls s"
  "lastMoveAxis (climbGate s cfg g a) = lastMoveAxis s"
  "playerOnWall (climbGate s cfg g a) = playerOnWall s"
  "playerWallNormal (climbGate s cfg g a) = playerWallNormal s"
  by (simp_all add: climbGate_def Let_def)

lemma climbGate_grounded:
  "\<not> playerClimbing s \<Longrightarrow> climbGate s cfg True a = s"
  by (simp add: climbGate_def Let_def)

subsection \<open>The second half of handleInput\<close>

lemma acm_Some:
  assumes "Player s = Some p" and "isGrounded s cfg w = Some g"
  shows "applyCharacterMovement s cfg w a dt =
           Some (s\<lparr>Player := Some (integrateMovement cfg g (playerOnWall s) (playerWallNormal s)
                    (fst (bodyBasis p)) (snd (bodyBasis p))
                    (if \<not> PLAYER_MOVE_MIDAIR cfg \<and> \<not> g then 0 else a) dt p)\<rparr>)"
  using assms
  by (simp add: applyCharacterMovement_def getPlayerBasis_def split_beta)

lemma integrateMovement_motionState:
  "motionState (integrateMovement cfg g ow n f r a dt p) = motionState p"
  by (simp add: integrateMovement_def Let_def)

lemma acm_rebodied:
  assumes "Player s = Some p" and "isGrounded s cfg w = Some g"
  shows "\<exists>s'. applyCharacterMovement s cfg w a dt = Some s' \<and> rebodied s s'"
  unfolding acm_Some[OF assms] rebodied_def
  using assms(1) integrateMovement_motionState by blast

lemma applyWallClimb_rebodied:
  assumes "Player s = Some p"
  shows "\<exists>s'. applyWallClimb s cfg = Some s' \<and> rebodied s s'"
  using assms unfolding rebodied_def applyWallClimb_def Let_def
  by (simp, intro exI[of _ "p\<lparr>friction := WALL_SLIDE_FRICTION cfg,
        linearVelocity :=
          Vector3 (vecx (multiplyScalar (playerWallNormal s) (- WALL_CLIMB_STICK_SPEED cfg)))
            (WALL_CLIMB_SPEED cfg)
            (vecz (multiplyScalar (playerWallNormal s) (- WALL_CLIMB_STICK_SPEED cfg))),
        active := True\<rparr>"]) simp

lemma jumpPhase_Some:
  assumes "Player s = Some p"
  shows "\<exists>s'. jumpPhase s cfg g = Some s'"
  using assms by (simp add: jumpPhase_def jump_def wallJumpOff_def Let_def)

lemma jumpPhase_fields:
  assumes "jumpPhase s cfg g = Some s'"
  shows "spaceWasDown s' = isDown s ''Space''"
    and "keys s' = keys s"
    and "playerClimbing s' = (playerClimbing s \<and> \<not> jumpEdge s)"
    and "climbAnimGrace s' = (if jumpEdge s \<and> playerClimbing s then 0 else climbAnimGrace s)"
    and "playerGrounded s' = playerGrounded s"
    and "calls s' = calls s @ (if jumpEdge s \<and> playerClimbing s then [WallJumpImpulse]
                              else if jumpEdge s \<and> g then [JumpImpulse] else [])"
    and "physicsWorld s' = physicsWorld s" and "renderer s' = renderer s"
    and "(Player s' = None) = (Player s = None)"
  using assms
  by (auto simp: jumpPhase_def jump_def wallJumpOff_def Let_def jumpEdge_def
      split: if_splits option.splits)

lemma handleInput_chain:
  assumes P: "Player s = Some p" and G: "isGrounded s cfg w = Some g"
  shows "\<exists>s5 s7. steered (s\<lparr>climbExitTimer := tickedExit s dt, climbAnimGrace := tickedGrace s dt,
                          lastMoveAxis := moveAxisOf s\<rparr>) s5 \<and>
           rebodied (climbGate s5 cfg g (moveAxisOf s)) s7 \<and>
           handleInput s cfg w dt = jumpPhase s7 cfg g"
proof -
  obtain s5 where st: "steered (s\<lparr>climbExitTimer := tickedExit s dt,
                                   climbAnimGrace := tickedGrace s dt,
                                   lastMoveAxis := moveAxisOf s\<rparr>) s5"
    and cp: "climbPhase s cfg w dt = Some (climbGate s5 cfg g (moveAxisOf s), g)"
    using climbPhase_Some[OF P G] by blast
  let ?s6 = "climbGate s5 cfg g (moveAxisOf s)"
  obtain p5 where p5: "Player s5 = Some p5" "motionState p5 = motionState p"
    and f5: "playerGrounded s5 = playerGrounded s" "physicsWorld s5 = physicsWorld s"
    using st P by (auto simp: steered_def)
  have P6: "Player ?s6 = Some p5" by (simp add: climbGate_others p5)
  have "isGrounded ?s6 cfg w = isGrounded s cfg w"
    by (rule isGrounded_cong[OF P6 P p5(2)]) (simp_all add: climbGate_others f5)
  then have G6: "isGrounded ?s6 cfg w = Some g" using G by simp
  have "\<exists>s7. (if \<not> playerClimbing ?s6
              then applyCharacterMovement ?s6 cfg w (lastMoveAxis ?s6) dt
              else applyWallClimb ?s6 cfg) = Some s7 \<and> rebodied ?s6 s7"
  proof (cases "playerClimbing ?s6")
    case True
    then show ?thesis using applyWallClimb_rebodied[OF P6, of cfg] by simp
  next
    case False
    then show ?thesis using acm_rebodied[OF P6 G6, of "lastMoveAxis ?s6" dt] by simp
  qed
  then obtain s7 where s7: "(if \<not> playerClimbing ?s6
                             then applyCharacterMovement ?s6 cfg w (lastMoveAxis ?s6) dt
                             else applyWallClimb ?s6 cfg) = Some s7"
    and rb: "rebodied ?s6 s7"
    by blast
  have "handleInput s cfg w dt = jumpPhase s7 cfg g"
    using s7 by (simp add: handleInput_def P cp)
  with st rb show ?thesis by blast
qed

lemma handleInput_isGrounded:
  assumes P: "Player s = Some p" and H: "handleInput s cfg w dt = Some s'"
  shows "\<exists>g. isGrounded s cfg w = Some g"
proof (cases "isGrounded s cfg w")
  case None
  have "climbPhase s cfg w dt = None"
    using climbPhase_eq[OF P, of dt cfg w] None by auto
  then show ?thesis using H P by (simp add: handleInput_def)
next
  case (Some g)
  then show ?thesis by blast
qed

lemma handleInput_grounded:
  assumes P: "Player s = Some p" and G: "playerGrounded s" and C: "\<not> playerClimbing s"
    and Z: "climbAnimGrace s = 0"
  shows "\<exists>s'. handleInput s cfg w dt = Some s' \<and> playerGrounded s' \<and> \<not> playerClimbing s' \<and>
           climbAnimGrace s' = 0"
proof -
  have g: "isGrounded s cfg w = Some True" using G by (simp add: isGrounded_def)
  obtain s5 s7 where st: "steered (s\<lparr>climbExitTimer := tickedExit s dt,
                                   climbAnimGrace := tickedGrace s dt,
                                   lastMoveAxis := moveAxisOf s\<rparr>) s5"
    and rb: "rebodied (climbGate s5 cfg True (moveAxisOf s)) s7"
    and hi: "handleInput s cfg w dt = jumpPhase s7 cfg True"
    using handleInput_chain[OF P g] by blast
  have f5: "\<not> playerClimbing s5" "playerGrounded s5" "climbAnimGrace s5 = 0"
    using st G C Z by (auto simp: steered_def tickedGrace_def)
  have e: "climbGate s5 cfg True (moveAxisOf s) = s5" by (rule climbGate_grounded[OF f5(1)])
  have f7: "\<not> playerClimbing s7" "playerGrounded s7" "climbAnimGrace s7 = 0" "Player s7 \<noteq> None"
    using rb f5 unfolding e by (auto simp: rebodied_def)
  obtain p7 where "Player s7 = Some p7" using f7(4) by auto
  then obtain s' where s': "jumpPhase s7 cfg True = Some s'"
    using jumpPhase_Some by blast
  show ?thesis
    using hi s' jumpPhase_fields(3,4,5)[OF s'] f7 by simp
qed

lemma handleInput_playerGrounded:
  assumes H: "handleInput s cfg w dt = Some s'"
  shows "playerGrounded s' = playerGrounded s"
proof (cases "Player s")
  case None
  then show ?thesis using H by (simp add: handleInput_def)
next
  case (Some p)
  obtain g where g: "isGrounded s cfg w = Some g"
    using handleInput_isGrounded[OF Some H] by blast
  obtain s5 s7 where st: "steered (s\<lparr>climbExitTimer := tickedExit s dt,
                                   climbAnimGrace := tickedGrace s dt,
                                   lastMoveAxis := moveAxisOf s\<rparr>) s5"
    and rb: "rebodied (climbGate s5 cfg g (moveAxisOf s)) s7"
    and hi: "handleInput s cfg w dt = jumpPhase s7 cfg g"
    using handleInput_chain[OF Some g] by blast
  have "playerGrounded s7 = playerGrounded s"
    using st rb by (auto simp: steered_def rebodied_def climbGate_others)
  then show ?thesis using jumpPhase_fields(5)[of s7 cfg g s'] hi H by simp
qed

subsection \<open>Vectors\<close>

lemma vlength_nonneg: "0 \<le> vlength v"
  by (simp add: vlength_def)

lemma vlength_multiplyScalar: "vlength (multiplyScalar v k) = \<bar>k\<bar> * vlength v"
proof -
  have "vecx v * k * (vecx v * k) + vecy v * k * (vecy v * k) + vecz v * k * (vecz v * k)
        = k\<^sup>2 * (vecx v * vecx v + vecy v * vecy v + vecz v * vecz v)"
    by (simp add: power2_eq_square algebra_simps)
  then show ?thesis
    by (simp add: vlength_def multiplyScalar_def real_sqrt_mult)
qed

lemma lengthSq_vlength: "lengthSq v = (vlength v)\<^sup>2"
  by (simp add: lengthSq_def vlength_def)

lemma sqrt_324_1681: "sqrt (324 / 1681) = 18 / 41"
  by (rule real_sqrt_unique) (simp_all add: power2_eq_square)

subsection \<open>The default configuration\<close>

lemma defaultConfig_fields:
  "WALL_CLIMB_MIN_NORMAL defaultConfig = 1 / 2"
  "PLAYER_MAX_SPEED defaultConfig = 15"
  "PLAYER_HEIGHT defaultConfig = 8"
  "PLAYER_RADIUS defaultConfig = 2"
  "GROUND_BAND_FRACTION defaultConfig = 1 / 10"
  "GROUND_NORMAL_MIN_Y defaultConfig = 1 / 10"
  "WALL_NORMAL_MAX_Y defaultConfig = 3 / 10"
  "ANIM_AIR_MIN_TIME defaultConfig = 1 / 10"
  "WALL_SLIDE_MAX_FALL_SPEED defaultConfig = - 8"
  "CAMERA_MIN_PITCH defaultConfig = 3 / 20"
  "CAMERA_MAX_PITCH defaultConfig = 6 / 5"
  "CAMERA_MIN_PITCH_BELOW defaultConfig = - (13 / 20)"
  "CAMERA_BELOW_PLAYER_ENABLE_HEIGHT defaultConfig = 18"
  "PLAYER_MOVE_MIDAIR defaultConfig"
  "PLAYER_USE_STRAFE_DAMP defaultConfig"
  "PLAYER_ACCEL defaultConfig = 55"
  "MOUSE_PITCH_SENSITIVITY defaultConfig = 1 / 500"
  "MOVE_SPEED_THRESHOLD defaultConfig = 3 / 5"
  "GROUND_PLANE_Y defaultConfig = 0"
  by (simp_all add: defaultConfig_def)

subsection \<open>The contact classifier\<close>

lemma contactStep_accInv: "accInv c \<Longrightarrow> accInv (contactStep cfg y i0 i1 pt c)"
  by (simp add: accInv_def contactStep_def Let_def)

lemma fold_contactStep_accInv:
  "accInv c \<Longrightarrow> accInv (fold (contactStep cfg y i0 i1) pts c)"
  by (induction pts arbitrary: c) (simp_all add: contactStep_accInv)

lemma manifoldStep_accInv: "accInv c \<Longrightarrow> accInv (manifoldStep cfg y ptr m c)"
  by (simp add: manifoldStep_def Let_def fold_contactStep_accInv)

lemma fold_manifoldStep_accInv:
  "accInv c \<Longrightarrow> accInv (fold (manifoldStep cfg y ptr) ms c)"
  by (induction ms arbitrary: c) (simp_all add: manifoldStep_accInv)

lemma accumulateContacts_accInv: "accInv (accumulateContacts cfg w p ptr)"
  unfolding accumulateContacts_def Let_def
  by (rule fold_manifoldStep_accInv) (simp add: accInv_def)

lemma renormalize_length:
  assumes "cOnWall c" "vecy (cWallNormal c) = 0"
  shows "vlength (cWallNormal (renormalizeWallNormal c)) =
           (if vlength (cWallNormal c) > 0.000001 then 1 else vlength (cWallNormal c))"
proof -
  have e: "setY (cWallNormal c) 0 = cWallNormal c"
    using assms(2) by (cases "cWallNormal c") (simp add: setY_def)
  show ?thesis
    using assms(1) by (simp add: renormalizeWallNormal_def Let_def e vlength_multiplyScalar)
qed

lemma upc_fields:
  assumes "Player s = Some p" "dispatcher s" "playerPtr s \<noteq> 0"
  shows "playerOnWall (updatePlayerContacts s cfg w) =
           cOnWall (accumulateContacts cfg w p (playerPtr s))"
    and "playerWallNormal (updatePlayerContacts s cfg w) =
           cWallNormal (renormalizeWallNormal (accumulateContacts cfg w p (playerPtr s)))"
    and "playerGrounded (updatePlayerContacts s cfg w) =
           cGrounded (accumulateContacts cfg w p (playerPtr s))"
  using assms
  by (simp_all add: updatePlayerContacts_def Let_def renormalizeWallNormal_def)

lemma upc_length:
  assumes "Player s = Some p" "dispatcher s" "playerPtr s \<noteq> 0"
  shows "vlength (playerWallNormal (updatePlayerContacts s cfg w)) =
           (if vlength (cWallNormal (accumulateContacts cfg w p (playerPtr s))) > 0.000001
            then 1 else vlength (cWallNormal (accumulateContacts cfg w p (playerPtr s))))"
proof -
  let ?acc = "accumulateContacts cfg w p (playerPtr s)"
  have inv: "accInv ?acc" by (rule accumulateContacts_accInv)
  show ?thesis
  proof (cases "cOnWall ?acc")
    case True
    then show ?thesis
      using inv renormalize_length[of ?acc]
      by (simp add: upc_fields[OF assms] accInv_def)
  next
    case False
    then have z: "cWallNormal ?acc = Vector3 0 0 0" using inv by (simp add: accInv_def)
    have "renormalizeWallNormal ?acc = ?acc"
      using False by (simp add: renormalizeWallNormal_def)
    then show ?thesis
      by (simp add: upc_fields[OF assms] z vlength_def)
  qed
qed

lemma upc_grounded:
  assumes "playerGrounded (updatePlayerContacts s cfg w)"
  shows "\<not> playerClimbing (updatePlayerContacts s cfg w)"
    and "climbAnimGrace (updatePlayerContacts s cfg w) = 0"
    and "Player (updatePlayerContacts s cfg w) = Player s"
    and "Player s \<noteq> None"
  using assms
  by (simp_all add: updatePlayerContacts_def Let_def split: option.splits if_splits)

lemma acc_corner:
  "accumulateContacts defaultConfig cornerWorld airBody (Suc 0) =
     \<lparr>cGrounded = False, cOnWall = True, cWallNormal = Vector3 0 0 (18 / 41)\<rparr>"
  by (simp add: accumulateContacts_def cornerWorld_def manifoldStep_def contactStep_def
        wallContact_def defaultConfig_fields airBody_def airTransform_def Let_def)


lemma upc_corner:
  "updatePlayerContacts airForwardState defaultConfig cornerWorld =
     airForwardState\<lparr>playerOnWall := True, playerWallNormal := Vector3 0 0 1\<rparr>"
  by (simp add: updatePlayerContacts_def Let_def airForwardState_def startState_def acc_corner
        renormalizeWallNormal_def setY_def vlength_def multiplyScalar_def sqrt_324_1681)


lemma climbing_corner:
  "map_option (playerClimbing \<circ> fst)
     (climbPhase (updatePlayerContacts airForwardState defaultConfig cornerWorld)
        defaultConfig cornerWorld (1 / 60)) = Some True"
proof -
  let ?s = "airForwardState\<lparr>playerOnWall := True, playerWallNormal := Vector3 0 0 1\<rparr>"
  have P: "Player ?s = Some airBody" by (simp add: airForwardState_def)
  have g: "isGrounded ?s defaultConfig cornerWorld = Some False"
    by (simp add: isGrounded_def isGroundedRay_def airForwardState_def startState_def
          airBody_def cornerWorld_def)
  obtain s5 where st: "steered (?s\<lparr>climbExitTimer := tickedExit ?s (1 / 60),
                                   climbAnimGrace := tickedGrace ?s (1 / 60),
                                   lastMoveAxis := moveAxisOf ?s\<rparr>) s5"
    and cp: "climbPhase ?s defaultConfig cornerWorld (1 / 60) =
               Some (climbGate s5 defaultConfig False (moveAxisOf ?s), False)"
    using climbPhase_Some[OF P g] by blast
  have f: "\<not> playerClimbing s5" "climbExitTimer s5 = 0"
      "playerOnWall s5" "playerWallNormal s5 = Vector3 0 0 1"
    using st by (auto simp: steered_def airForwardState_def startState_def tickedExit_def)
  have m: "moveAxisOf ?s = 1"
    by (simp add: moveAxisOf_def isDown_def airForwardState_def)
  have "playerClimbing (climbGate s5 defaultConfig False (moveAxisOf ?s))"
    using climbGate_enter[OF f(1), of defaultConfig False "moveAxisOf ?s"] f(2,3,4) m
    by (simp add: vlength_def defaultConfig_fields)
  then show ?thesis by (simp add: upc_corner cp)
qed

subsection \<open>The stages of the frame after the input handling\<close>

lemma sameControl_refl: "sameControl s s"
  by (simp add: sameControl_def)

lemma sameControl_trans: "sameControl s s1 \<Longrightarrow> sameControl s1 s2 \<Longrightarrow> sameControl s s2"
  by (simp add: sameControl_def)

lemma impulses_append: "impulses (xs @ ys) = impulses xs + impulses ys"
  by (simp add: impulses_def)

lemma impulses_simps:
  "impulses [] = 0" "impulses [JumpImpulse] = 1" "impulses [WallJumpImpulse] = 1"
  "impulses [StepSimulation dt] = 0" "impulses [SyncObject i] = 0" "impulses [SyncPlayer] = 0"
  "impulses [MixerUpdate dt] = 0" "impulses [Render] = 0" "impulses [PlayAction n b] = 0"
  by (simp_all add: impulses_def)

lemma syncObjects_sameControl:
  "syncObjects i objs s = Some s' \<Longrightarrow> sameControl s s'"
proof (induction i objs s rule: syncObjects.induct)
  case (1 i s)
  then show ?case by (simp add: sameControl_refl)
next
  case (2 i ms objs s)
  show ?case
  proof (cases ms)
    case False
    then show ?thesis using 2 by simp
  next
    case True
    then have t: "tmpTransform s" and r: "syncObjects (Suc i) objs (s\<lparr>calls := calls s @ [SyncObject i]\<rparr>) = Some s'"
      using 2(3) by (auto split: if_splits)
    have "sameControl (s\<lparr>calls := calls s @ [SyncObject i]\<rparr>) s'"
      using 2(2) True t r by simp
    moreover have "sameControl s (s\<lparr>calls := calls s @ [SyncObject i]\<rparr>)"
      by (simp add: sameControl_def impulses_append impulses_simps)
    ultimately show ?thesis by (rule sameControl_trans[rotated])
  qed
qed

lemma sync_sameControl:
  "syncVisualsFromPhysics s cfg = Some s' \<Longrightarrow> sameControl s s'"
proof -
  assume a: "syncVisualsFromPhysics s cfg = Some s'"
  then obtain s1 where s1: "syncObjects 0 (gameObjects s) s = Some s1"
    and r: "(case Player s1 of None \<Rightarrow> Some s1
             | Some p \<Rightarrow> (case motionState p of None \<Rightarrow> None
                 | Some tr \<Rightarrow> if \<not> tmpTransform s1 then None
                    else Some (s1\<lparr>calls := calls s1 @ [SyncPlayer]\<rparr>))) = Some s'"
    by (auto simp: syncVisualsFromPhysics_def split: Option.bind_splits)
  have "sameControl s1 s'"
    using r by (auto simp: sameControl_def impulses_append impulses_simps
        split: option.splits if_splits)
  with syncObjects_sameControl[OF s1] show ?thesis by (rule sameControl_trans)
qed

lemma playPlayerAction_sameControl: "sameControl s (playPlayerAction s cfg n b)"
  by (simp add: playPlayerAction_def sameControl_def impulses_append impulses_simps)

lemma applyMoveAnimDirection_sameControl: "sameControl s (applyMoveAnimDirection s d f)"
  by (simp add: applyMoveAnimDirection_def sameControl_def Let_def)

lemma updateAirLatch_sameControl: "sameControl s (updateAirLatch s cfg g dt)"
  by (simp add: updateAirLatch_def sameControl_def Let_def)

lemma switchAnimation_sameControl: "sameControl s (switchAnimation s cfg d)"
proof -
  let ?s2 = "(if d \<noteq> playerCurrentState s then playPlayerAction s cfg d False else s)"
  have a: "sameControl s ?s2"
    by (simp add: playPlayerAction_sameControl sameControl_refl)
  have "sameControl ?s2 (switchAnimation s cfg d)"
    unfolding switchAnimation_def Let_def
    by (simp add: applyMoveAnimDirection_sameControl sameControl_refl)
  with a show ?thesis by (rule sameControl_trans)
qed

lemma anim_sameControl:
  assumes "updatePlayerAnimationState s cfg w dt = Some s'"
  shows "sameControl s s'"
proof (cases "Player s")
  case None
  then show ?thesis using assms by (simp add: updatePlayerAnimationState_def sameControl_refl)
next
  case (Some p)
  show ?thesis
  proof (cases "playerMixer s")
    case False
    then show ?thesis
      using assms Some by (simp add: updatePlayerAnimationState_def sameControl_refl)
  next
    case True
    show ?thesis
    proof (cases "playerClimbing s \<or> climbAnimGrace s > 0")
      case c: True
      let ?s1 = "s\<lparr>animInAir := False, animAirTimer := 0\<rparr>"
      have e: "s' = (if playerCurrentState ?s1 \<noteq> climb
                     then playPlayerAction ?s1 cfg climb False else ?s1)"
        using assms Some True c by (simp add: updatePlayerAnimationState_def Let_def)
      have "sameControl s ?s1" by (simp add: sameControl_def)
      moreover have "sameControl ?s1 s'"
        unfolding e by (simp add: playPlayerAction_sameControl sameControl_refl)
      ultimately show ?thesis by (rule sameControl_trans)
    next
      case c: False
      then obtain g where g: "isGrounded s cfg w = Some g"
        and e: "s' = switchAnimation (updateAirLatch s cfg g dt) cfg
                       (desiredAnimation (updateAirLatch s cfg g dt) cfg p)"
        using assms Some True
        by (auto simp: updatePlayerAnimationState_def Let_def split: Option.bind_splits)
      show ?thesis
        unfolding e
        using updateAirLatch_sameControl switchAnimation_sameControl
        by (blast intro: sameControl_trans)
    qed
  qed
qed

lemma updateCamera_sameControl:
  "updateCamera s cfg = Some s' \<Longrightarrow> sameControl s s'"
  by (auto simp: updateCamera_def Let_def sameControl_def split: option.splits if_splits)

lemma stepCore_Some:
  assumes "physicsWorld s" "renderer s" "stepCore s cfg dt w = Some s'"
  shows "\<exists>s3 s4 s5 s7.
           handleInput (updatePlayerContacts (stepped s dt w) cfg w) cfg w dt = Some s3 \<and>
           syncVisualsFromPhysics s3 cfg = Some s4 \<and>
           updatePlayerAnimationState s4 cfg w dt = Some s5 \<and>
           updateCamera (if playerMixer s5 then s5\<lparr>calls := calls s5 @ [MixerUpdate dt]\<rparr> else s5) cfg
             = Some s7 \<and>
           s' = s7\<lparr>calls := calls s7 @ [Render]\<rparr>"
  using assms
  by (auto simp: stepCore_def stepped_def Let_def split: Option.bind_splits)

lemma stepCore_sameControl:
  assumes "physicsWorld s" "renderer s" "stepCore s cfg dt w = Some s'"
  shows "\<exists>s3. handleInput (updatePlayerContacts (stepped s dt w) cfg w) cfg w dt = Some s3 \<and>
           sameControl s3 s'"
proof -
  obtain s3 s4 s5 s7 where
    a: "handleInput (updatePlayerContacts (stepped s dt w) cfg w) cfg w dt = Some s3"
    and b: "syncVisualsFromPhysics s3 cfg = Some s4"
    and c: "updatePlayerAnimationState s4 cfg w dt = Some s5"
    and d: "updateCamera (if playerMixer s5 then s5\<lparr>calls := calls s5 @ [MixerUpdate dt]\<rparr> else s5) cfg
             = Some s7"
    and e: "s' = s7\<lparr>calls := calls s7 @ [Render]\<rparr>"
    using stepCore_Some[OF assms] by blast
  have m: "sameControl s5 (if playerMixer s5 then s5\<lparr>calls := calls s5 @ [MixerUpdate dt]\<rparr> else s5)"
    by (simp add: sameControl_def impulses_append impulses_simps)
  have r: "sameControl s7 s'"
    by (simp add: e sameControl_def impulses_append impulses_simps)
  have "sameControl s3 s'"
    using sync_sameControl[OF b] anim_sameControl[OF c] m updateCamera_sameControl[OF d] r
    by (blast intro: sameControl_trans)
  with a show ?thesis by blast
qed

subsection \<open>The movement integrator\<close>

lemma horizontalSpeed_le_vlength: "horizontalSpeed v \<le> vlength v"
  by (simp add: horizontalSpeed_def vlength_def)

lemma clampSpeed_le:
  assumes "0 \<le> m"
  shows "vlength (clampSpeed v m) \<le> m"
proof (cases "vlength v > m")
  case True
  then have pos: "vlength v > 0" using assms by linarith
  have "vlength (clampSpeed v m) = \<bar>m / vlength v\<bar> * vlength v"
    using True by (simp add: clampSpeed_def Let_def vlength_multiplyScalar)
  also have "\<dots> = m" using pos assms by (simp add: abs_mult)
  finally show ?thesis by simp
next
  case False
  then show ?thesis by (simp add: clampSpeed_def Let_def)
qed

lemma strip_algebra:
  fixes a b x z :: real
  assumes "a * a + b * b = 1"
  shows "(x - a * (x * a + z * b)) * (x - a * (x * a + z * b)) +
         (z - b * (x * a + z * b)) * (z - b * (x * a + z * b))
         = x * x + z * z - (x * a + z * b) * (x * a + z * b)"
proof -
  have "(x - a * (x * a + z * b)) * (x - a * (x * a + z * b)) +
         (z - b * (x * a + z * b)) * (z - b * (x * a + z * b))
        = x * x + z * z - 2 * (x * a + z * b) * (x * a + z * b)
          + (a * a + b * b) * ((x * a + z * b) * (x * a + z * b))"
    by (simp add: algebra_simps)
  then show ?thesis using assms by simp
qed

lemma stripIntoWall_horizontal:
  assumes "vecy n = 0" and "lengthSq n = 1"
  shows "horizontalSpeed (stripIntoWall v n) \<le> horizontalSpeed v"
proof (cases "dot v n > 0")
  case False
  then show ?thesis by (simp add: stripIntoWall_def Let_def)
next
  case True
  have u: "vecx n * vecx n + vecz n * vecz n = 1"
    using assms by (simp add: lengthSq_def)
  have d: "dot v n = vecx v * vecx n + vecz v * vecz n"
    using assms(1) by (simp add: dot_def)
  have "horizontalSpeed (stripIntoWall v n) =
          sqrt ((vecx v - vecx n * dot v n) * (vecx v - vecx n * dot v n) +
                (vecz v - vecz n * dot v n) * (vecz v - vecz n * dot v n))"
    using True by (simp add: stripIntoWall_def Let_def addScaledVector_def horizontalSpeed_def)
  also have "\<dots> = sqrt (vecx v * vecx v + vecz v * vecz v - dot v n * dot v n)"
    unfolding d using strip_algebra[OF u] by simp
  also have "\<dots> \<le> sqrt (vecx v * vecx v + vecz v * vecz v)"
    by (rule real_sqrt_le_mono) simp
  finally show ?thesis by (simp add: horizontalSpeed_def)
qed


lemma integrate_velocity:
  "linearVelocity (integrateMovement cfg g ow n f r a dt p) =
     (let sliding = (\<not> g \<and> ow \<and> a \<noteq> 0 \<and> lengthSq n > 0.000001);
          newVel1 = approachVelocity cfg g sliding n f a dt (linearVelocity p);
          newVel2 = (if PLAYER_USE_STRAFE_DAMP cfg
                     then strafeDamp f r newVel1
                            (if g then PLAYER_SIDE_DAMP_GROUND cfg else PLAYER_SIDE_DAMP_AIR cfg) dt
                     else newVel1);
          newVel3 = clampSpeed newVel2 (PLAYER_MAX_SPEED cfg);
          newVel = (if sliding then stripIntoWall newVel3 n else newVel3)
      in Vector3 (vecx newVel)
           (if sliding then max (vecy (linearVelocity p)) (WALL_SLIDE_MAX_FALL_SPEED cfg)
            else vecy (linearVelocity p))
           (vecz newVel))"
  by (simp add: integrateMovement_def Let_def max_def)


lemma upc_wallNormalClassified:
  "wallNormalClassified (playerWallNormal (updatePlayerContacts s cfg w))"
proof (cases "Player s")
  case None
  then show ?thesis
    by (simp add: updatePlayerContacts_def wallNormalClassified_def lengthSq_def)
next
  case (Some p)
  show ?thesis
  proof (cases "dispatcher s \<and> playerPtr s \<noteq> 0")
    case False
    then show ?thesis
      using Some by (auto simp: updatePlayerContacts_def wallNormalClassified_def lengthSq_def)
  next
    case True
    let ?acc = "accumulateContacts cfg w p (playerPtr s)"
    let ?n = "playerWallNormal (updatePlayerContacts s cfg w)"
    have inv: "accInv ?acc" by (rule accumulateContacts_accInv)
    have n: "?n = cWallNormal (renormalizeWallNormal ?acc)"
      using upc_fields(2)[OF Some, of cfg w] True by simp
    have y: "vecy ?n = 0"
      using inv unfolding n
      by (simp add: renormalizeWallNormal_def Let_def accInv_def setY_def multiplyScalar_def)
    have l: "vlength ?n = (if vlength (cWallNormal ?acc) > 0.000001 then 1
                           else vlength (cWallNormal ?acc))"
      using upc_length[OF Some, of cfg w] True by simp
    have "lengthSq ?n > 0.000001 \<longrightarrow> lengthSq ?n = 1"
    proof (cases "vlength (cWallNormal ?acc) > 0.000001")
      case True
      then show ?thesis using l by (simp add: lengthSq_vlength)
    next
      case False
      then have "vlength ?n \<le> 0.000001" using l by simp
      moreover have "0 \<le> vlength ?n" by (rule vlength_nonneg)
      ultimately have "(vlength ?n)\<^sup>2 \<le> (0.000001)\<^sup>2"
        by (intro power_mono) simp_all
      then have "lengthSq ?n \<le> 0.000001"
        by (simp add: lengthSq_vlength power2_eq_square)
      then show ?thesis by simp
    qed
    with y show ?thesis by (simp add: wallNormalClassified_def)
  qed
qed

lemma horizontalSpeed_xz: "horizontalSpeed (Vector3 (vecx u) y (vecz u)) = horizontalSpeed u"
  by (simp add: horizontalSpeed_def)

lemma integrate_shape:
  assumes "sl = (\<not> g \<and> ow \<and> a \<noteq> 0 \<and> lengthSq n > 0.000001)"
  shows "\<exists>v2. linearVelocity (integrateMovement cfg g ow n f r a dt p) =
      Vector3 (vecx (if sl then stripIntoWall (clampSpeed v2 (PLAYER_MAX_SPEED cfg)) n
                     else clampSpeed v2 (PLAYER_MAX_SPEED cfg)))
        (if sl then max (vecy (linearVelocity p)) (WALL_SLIDE_MAX_FALL_SPEED cfg)
         else vecy (linearVelocity p))
        (vecz (if sl then stripIntoWall (clampSpeed v2 (PLAYER_MAX_SPEED cfg)) n
               else clampSpeed v2 (PLAYER_MAX_SPEED cfg)))"
  unfolding integrate_velocity Let_def assms by blast

lemma integrate_speed:
  assumes M: "0 \<le> PLAYER_MAX_SPEED cfg" and N: "wallNormalClassified n"
  shows "horizontalSpeed (linearVelocity (integrateMovement cfg g ow n f r a dt p))
           \<le> PLAYER_MAX_SPEED cfg"
proof -
  define sl where "sl = (\<not> g \<and> ow \<and> a \<noteq> 0 \<and> lengthSq n > 0.000001)"
  obtain v2 where v: "linearVelocity (integrateMovement cfg g ow n f r a dt p) =
      Vector3 (vecx (if sl then stripIntoWall (clampSpeed v2 (PLAYER_MAX_SPEED cfg)) n
                     else clampSpeed v2 (PLAYER_MAX_SPEED cfg)))
        (if sl then max (vecy (linearVelocity p)) (WALL_SLIDE_MAX_FALL_SPEED cfg)
         else vecy (linearVelocity p))
        (vecz (if sl then stripIntoWall (clampSpeed v2 (PLAYER_MAX_SPEED cfg)) n
               else clampSpeed v2 (PLAYER_MAX_SPEED cfg)))"
    using integrate_shape[OF sl_def] by blast
  let ?v3 = "clampSpeed v2 (PLAYER_MAX_SPEED cfg)"
  have c: "horizontalSpeed ?v3 \<le> PLAYER_MAX_SPEED cfg"
    using horizontalSpeed_le_vlength[of ?v3] clampSpeed_le[OF M, of v2] by linarith
  show ?thesis
  proof (cases sl)
    case False
    then have "linearVelocity (integrateMovement cfg g ow n f r a dt p) =
                 Vector3 (vecx ?v3) (vecy (linearVelocity p)) (vecz ?v3)"
      unfolding v by simp
    then show ?thesis using c by (simp only: horizontalSpeed_xz)
  next
    case True
    then have "lengthSq n = 1" "vecy n = 0"
      using N by (simp_all add: wallNormalClassified_def sl_def)
    then have s: "horizontalSpeed (stripIntoWall ?v3 n) \<le> horizontalSpeed ?v3"
      using stripIntoWall_horizontal by blast
    have "linearVelocity (integrateMovement cfg g ow n f r a dt p) =
            Vector3 (vecx (stripIntoWall ?v3 n))
              (max (vecy (linearVelocity p)) (WALL_SLIDE_MAX_FALL_SPEED cfg))
              (vecz (stripIntoWall ?v3 n))"
      unfolding v using True by simp
    then show ?thesis using c s by (simp only: horizontalSpeed_xz)
  qed
qed

subsection \<open>The clamped step and the ramp from rest\<close>

lemma yaw_algebra:
  fixes b c :: real
  assumes "b * b + c * c = 1"
  shows "2 * b * c * (2 * b * c) + (1 - 2 * b * b) * (1 - 2 * b * b) = 1"
proof -
  have c2: "c * c = 1 - b * b" using assms by linarith
  have "2 * b * c * (2 * b * c) + (1 - 2 * b * b) * (1 - 2 * b * b)
        = 4 * (b * b) * (c * c) + (1 - 2 * b * b) * (1 - 2 * b * b)"
    by (simp add: algebra_simps)
  also have "\<dots> = 1" unfolding c2 by (simp add: algebra_simps)
  finally show ?thesis .
qed

lemma normalize3_unit: "vlength v = 1 \<Longrightarrow> normalize3 v = v"
  by (cases v) (simp add: normalize3_def multiplyScalar_def)

lemma bodyBasis_yaw:
  assumes "yawOnly (rotation (worldTransform p))"
  shows "orthoBasis (fst (bodyBasis p)) (snd (bodyBasis p))"
proof -
  obtain b c where q: "rotation (worldTransform p) = Quaternion 0 b 0 c" and u: "b * b + c * c = 1"
    using assms by (cases "rotation (worldTransform p)") (auto simp: yawOnly_def)
  let ?f = "Vector3 (2 * b * c) 0 (1 - 2 * b * b)"
  let ?r = "Vector3 (1 - 2 * b * b) 0 (- (2 * b * c))"
  have f0: "applyQuaternion (Vector3 0 0 1) (Quaternion 0 b 0 c) = ?f"
    by (simp add: applyQuaternion_def Let_def algebra_simps)
  have r0: "applyQuaternion (Vector3 1 0 0) (Quaternion 0 b 0 c) = ?r"
    by (simp add: applyQuaternion_def Let_def algebra_simps)
  have lf: "vlength ?f = 1"
    using yaw_algebra[OF u] by (simp add: vlength_def)
  have lr: "vlength ?r = 1"
    using yaw_algebra[OF u] by (simp add: vlength_def add.commute)
  have "bodyBasis p = (?f, ?r)"
    by (simp add: bodyBasis_def Let_def q f0 r0 normalize3_unit[OF lf] normalize3_unit[OF lr])
  then show ?thesis
    using yaw_algebra[OF u] by (simp add: orthoBasis_def algebra_simps)
qed

lemma approach_unfold:
  "approachVelocity cfg g sl n f a dt lv =
     addv (Vector3 (vecx lv) 0 (vecz lv))
       (limitedDelta (specTarget (desiredVelocity cfg sl n f a) a) (Vector3 (vecx lv) 0 (vecz lv))
          (specRate cfg g a * dt))"
  by (simp add: approachVelocity_def Let_def specTarget_def specRate_def)

lemma limited_eq_spec:
  "vlength (subv t c) > 0.000001 \<or> 0.000001 \<le> m \<Longrightarrow> limitedDelta t c m = specClampedStep t c m"
  by (auto simp: limitedDelta_def specClampedStep_def Let_def)

lemma subv_scaled: "subv d (multiplyScalar d k) = multiplyScalar d (1 - k)"
  by (cases d) (simp add: subv_def multiplyScalar_def algebra_simps)

lemma subv_self: "vlength (subv d d) = 0"
  by (simp add: subv_def vlength_def)

lemma limited_near_spec:
  assumes "0 \<le> m"
  shows "vlength (subv (limitedDelta t c m) (specClampedStep t c m)) \<le> 0.000001"
proof (cases "vlength (subv t c) > 0.000001 \<or> 0.000001 \<le> m")
  case True
  then show ?thesis using limited_eq_spec[OF True] by (simp add: subv_self)
next
  case False
  let ?d = "subv t c"
  have l: "vlength ?d \<le> 0.000001" "m < 0.000001" using False by auto
  show ?thesis
  proof (cases "vlength ?d > m")
    case False
    then have "limitedDelta t c m = specClampedStep t c m"
      by (simp add: limitedDelta_def specClampedStep_def Let_def)
    then show ?thesis by (simp add: subv_self)
  next
    case True
    then have pos: "vlength ?d > 0" using assms by linarith
    have a: "limitedDelta t c m = ?d"
      using l by (simp add: limitedDelta_def Let_def)
    have b: "specClampedStep t c m = multiplyScalar ?d (m / vlength ?d)"
      using True by (simp add: specClampedStep_def Let_def)
    have k: "0 \<le> 1 - m / vlength ?d" using True pos assms by (simp add: field_simps)
    have "vlength (subv (limitedDelta t c m) (specClampedStep t c m))
            = (1 - m / vlength ?d) * vlength ?d"
      unfolding a b subv_scaled vlength_multiplyScalar using k by simp
    also have "\<dots> = vlength ?d - m" using pos by (simp add: field_simps)
    also have "\<dots> \<le> 0.000001" using l assms by linarith
    finally show ?thesis .
  qed
qed

lemma spec_step_length:
  assumes "0 \<le> m"
  shows "vlength (specClampedStep t c m) = min (vlength (subv t c)) m"
proof (cases "vlength (subv t c) > m")
  case True
  then have pos: "vlength (subv t c) > 0" using assms by linarith
  have "vlength (specClampedStep t c m) = \<bar>m / vlength (subv t c)\<bar> * vlength (subv t c)"
    using True by (simp add: specClampedStep_def Let_def vlength_multiplyScalar)
  also have "\<dots> = m" using pos assms by simp
  finally show ?thesis using True by simp
next
  case False
  then show ?thesis by (simp add: specClampedStep_def Let_def)
qed

lemma vlength_along:
  assumes "vecx f * vecx f + vecz f * vecz f = 1"
  shows "vlength (along f k 0) = \<bar>k\<bar>"
proof -
  have "k * vecx f * (k * vecx f) + k * vecz f * (k * vecz f)
        = k\<^sup>2 * (vecx f * vecx f + vecz f * vecz f)"
    by (simp add: power2_eq_square algebra_simps)
  then show ?thesis using assms by (simp add: vlength_def along_def)
qed

lemma horizontalSpeed_along:
  assumes "vecx f * vecx f + vecz f * vecz f = 1"
  shows "horizontalSpeed (along f k y) = \<bar>k\<bar>"
proof -
  have "k * vecx f * (k * vecx f) + k * vecz f * (k * vecz f)
        = k\<^sup>2 * (vecx f * vecx f + vecz f * vecz f)"
    by (simp add: power2_eq_square algebra_simps)
  then show ?thesis using assms by (simp add: horizontalSpeed_def along_def)
qed

lemma approach_along:
  assumes B: "orthoBasis f r" and v: "0 \<le> v" "v \<le> PLAYER_MAX_SPEED cfg"
    and m: "0 \<le> PLAYER_ACCEL cfg * dt"
  shows "approachVelocity cfg True False n f 1 dt (along f v y) =
           along f (rampStep (PLAYER_MAX_SPEED cfg) (PLAYER_ACCEL cfg * dt) v) 0"
proof -
  let ?M = "PLAYER_MAX_SPEED cfg"
  let ?m = "PLAYER_ACCEL cfg * dt"
  have fy: "vecy f = 0" and u: "vecx f * vecx f + vecz f * vecz f = 1"
    using B by (simp_all add: orthoBasis_def)
  have cur: "Vector3 (vecx (along f v y)) 0 (vecz (along f v y)) = along f v 0"
    by (simp add: along_def)
  have tgt: "specTarget (desiredVelocity cfg False n f 1) 1 = along f ?M 0"
    using fy by (cases f) (simp add: specTarget_def desiredVelocity_def multiplyScalar_def
        along_def mult.commute)
  have d: "subv (along f ?M 0) (along f v 0) = along f (?M - v) 0"
    by (simp add: subv_def along_def algebra_simps)
  have l: "vlength (along f (?M - v) 0) = ?M - v"
    using vlength_along[OF u, of "?M - v"] v by simp
  have r: "specRate cfg True 1 = PLAYER_ACCEL cfg" by (simp add: specRate_def)
  define c where "c = (?M - v > ?m \<and> ?M - v > 0.000001)"
  have rs: "rampStep ?M ?m v = (if c then v + ?m else ?M)"
    by (simp add: rampStep_def c_def)
  have ld: "limitedDelta (along f ?M 0) (along f v 0) ?m =
              (if c then multiplyScalar (along f (?M - v) 0) (?m / (?M - v))
               else along f (?M - v) 0)"
    by (simp add: limitedDelta_def Let_def d l c_def)
  have ap: "approachVelocity cfg True False n f 1 dt (along f v y) =
              addv (along f v 0) (limitedDelta (along f ?M 0) (along f v 0) ?m)"
    by (simp add: approach_unfold cur tgt r)
  have add: "addv (along f v 0) (along f k 0) = along f (v + k) 0" for k
    by (simp add: addv_def along_def algebra_simps)
  show ?thesis
  proof (cases c)
    case True
    then have pos: "?M - v > 0" using m by (simp add: c_def)
    have "multiplyScalar (along f (?M - v) 0) (?m / (?M - v)) = along f ?m 0"
      using pos by (simp add: multiplyScalar_def along_def)
    then show ?thesis using True by (simp add: ap ld rs add)
  next
    case False
    then show ?thesis by (simp add: ap ld rs add)
  qed
qed

lemma strafeDamp_along:
  assumes B: "orthoBasis f r"
  shows "strafeDamp f r (along f k 0) sd dt = along f k 0"
proof -
  have fy: "vecy f = 0" and ry: "vecy r = 0"
    and uf: "vecx f * vecx f + vecz f * vecz f = 1"
    and ur: "vecx r * vecx r + vecz r * vecz r = 1"
    and o: "vecx f * vecx r + vecz f * vecz r = 0"
    using B by (simp_all add: orthoBasis_def)
  have sf: "setY f 0 = f" using fy by (cases f) (simp add: setY_def)
  have sr: "setY r 0 = r" using ry by (cases r) (simp add: setY_def)
  have lf: "vlength f = 1" using uf fy by (simp add: vlength_def)
  have lr: "vlength r = 1" using ur ry by (simp add: vlength_def)
  have df: "dot (along f k 0) f = k"
  proof -
    have "dot (along f k 0) f = k * (vecx f * vecx f + vecz f * vecz f)"
      by (simp add: dot_def along_def algebra_simps)
    then show ?thesis using uf by simp
  qed
  have dr: "dot (along f k 0) r = 0"
  proof -
    have "dot (along f k 0) r = k * (vecx f * vecx r + vecz f * vecz r)"
      by (simp add: dot_def along_def algebra_simps)
    then show ?thesis using o by simp
  qed
  have "strafeDamp f r (along f k 0) sd dt =
          addv (multiplyScalar f k) (multiplyScalar r 0)"
    by (simp add: strafeDamp_def Let_def sf sr normalize3_unit[OF lf] normalize3_unit[OF lr]
          df dr)
  also have "\<dots> = along f k 0"
    using fy by (simp add: addv_def multiplyScalar_def along_def mult.commute)
  finally show ?thesis .
qed

lemma clampSpeed_along:
  assumes "vecx f * vecx f + vecz f * vecz f = 1" and "0 \<le> k" and "k \<le> mx"
  shows "clampSpeed (along f k 0) mx = along f k 0"
  using assms vlength_along[OF assms(1), of k] by (simp add: clampSpeed_def Let_def)

lemma rampStep_bounds:
  assumes "0 \<le> v" "v \<le> mx" "0 \<le> m"
  shows "0 \<le> rampStep mx m v" and "rampStep mx m v \<le> mx"
  using assms by (auto simp: rampStep_def)

lemma integrate_along:
  assumes B: "orthoBasis f r" and v: "0 \<le> v" "v \<le> PLAYER_MAX_SPEED cfg"
    and m: "0 \<le> PLAYER_ACCEL cfg * dt"
    and lv: "linearVelocity p = along f v y"
  shows "linearVelocity (integrateMovement cfg True ow n f r 1 dt p) =
           along f (rampStep (PLAYER_MAX_SPEED cfg) (PLAYER_ACCEL cfg * dt) v) y"
proof -
  let ?v' = "rampStep (PLAYER_MAX_SPEED cfg) (PLAYER_ACCEL cfg * dt) v"
  have u: "vecx f * vecx f + vecz f * vecz f = 1"
    using B by (simp add: orthoBasis_def)
  have a: "approachVelocity cfg True False n f 1 dt (linearVelocity p) = along f ?v' 0"
    unfolding lv by (rule approach_along[OF B v m])
  have c: "clampSpeed (along f ?v' 0) (PLAYER_MAX_SPEED cfg) = along f ?v' 0"
    using clampSpeed_along[OF u] rampStep_bounds[OF v m] by blast
  have vy: "vecy (linearVelocity p) = y" by (simp add: lv along_def)
  show ?thesis
    unfolding integrate_velocity Let_def
    by (simp add: a strafeDamp_along[OF B] c vy) (simp add: along_def)
qed

lemma integrate_worldTransform:
  "worldTransform (integrateMovement cfg g ow n f r a dt p) = worldTransform p"
  by (simp add: integrateMovement_def Let_def)

lemma bodyBasis_cong: "worldTransform p' = worldTransform p \<Longrightarrow> bodyBasis p' = bodyBasis p"
  by (simp add: bodyBasis_def)

lemma moveFrames_ramp:
  assumes "playerGrounded s" and "Player s = Some p"
    and "orthoBasis (fst (bodyBasis p)) (snd (bodyBasis p))"
    and "linearVelocity p = along (fst (bodyBasis p)) v y"
    and "0 \<le> v" and "v \<le> PLAYER_MAX_SPEED cfg" and "0 \<le> PLAYER_ACCEL cfg * dt"
  shows "\<exists>p'. moveFrames k s cfg w 1 dt = Some (s\<lparr>Player := Some p'\<rparr>) \<and>
              linearVelocity p' =
                along (fst (bodyBasis p))
                  ((rampStep (PLAYER_MAX_SPEED cfg) (PLAYER_ACCEL cfg * dt) ^^ k) v) y"
  using assms
proof (induction k arbitrary: s p v)
  case 0
  have "s\<lparr>Player := Some p\<rparr> = s" using 0(2) by simp
  then show ?case using 0(4) by (intro exI[of _ p]) simp
next
  case (Suc k)
  let ?f = "fst (bodyBasis p)" and ?r = "snd (bodyBasis p)"
  let ?M = "PLAYER_MAX_SPEED cfg" and ?m = "PLAYER_ACCEL cfg * dt"
  let ?p1 = "integrateMovement cfg True (playerOnWall s) (playerWallNormal s) ?f ?r 1 dt p"
  let ?s1 = "s\<lparr>Player := Some ?p1\<rparr>"
  have g: "isGrounded s cfg w = Some True" using Suc.prems(1) by (simp add: isGrounded_def)
  have a: "applyCharacterMovement s cfg w 1 dt = Some ?s1"
    using acm_Some[OF Suc.prems(2) g, of 1 dt] by simp
  have v1: "linearVelocity ?p1 = along ?f (rampStep ?M ?m v) y"
    by (rule integrate_along[OF Suc.prems(3,5,6,7,4)])
  have b1: "bodyBasis ?p1 = bodyBasis p"
    by (rule bodyBasis_cong) (rule integrate_worldTransform)
  have "\<exists>p'. moveFrames k ?s1 cfg w 1 dt = Some (?s1\<lparr>Player := Some p'\<rparr>) \<and>
              linearVelocity p' =
                along (fst (bodyBasis ?p1)) ((rampStep ?M ?m ^^ k) (rampStep ?M ?m v)) y"
  proof (rule Suc.IH)
    show "playerGrounded ?s1" using Suc.prems(1) by simp
    show "Player ?s1 = Some ?p1" by simp
    show "orthoBasis (fst (bodyBasis ?p1)) (snd (bodyBasis ?p1))"
      unfolding b1 by (rule Suc.prems(3))
    show "linearVelocity ?p1 = along (fst (bodyBasis ?p1)) (rampStep ?M ?m v) y"
      unfolding b1 by (rule v1)
    show "0 \<le> rampStep ?M ?m v" "rampStep ?M ?m v \<le> ?M"
      using rampStep_bounds[OF Suc.prems(5,6,7)] by simp_all
    show "0 \<le> ?m" by (rule Suc.prems(7))
  qed
  then obtain p' where m: "moveFrames k ?s1 cfg w 1 dt = Some (?s1\<lparr>Player := Some p'\<rparr>)"
    and l: "linearVelocity p' = along ?f ((rampStep ?M ?m ^^ k) (rampStep ?M ?m v)) y"
    unfolding b1 by blast
  have "moveFrames (Suc k) s cfg w 1 dt = Some (s\<lparr>Player := Some p'\<rparr>)"
    using a m by simp
  moreover have "linearVelocity p' = along ?f ((rampStep ?M ?m ^^ Suc k) v) y"
    using l by (simp add: funpow_swap1)
  ultimately show ?case by blast
qed

lemma ramp_closed:
  assumes "0 \<le> mx" and "0.000001 \<le> m"
  shows "(rampStep mx m ^^ k) 0 = min (real k * m) mx"
proof (induction k)
  case 0
  then show ?case using assms by simp
next
  case (Suc k)
  have mpos: "0 < m"
  proof -
    have "(0::real) < 0.000001" by simp
    with assms(2) show ?thesis by linarith
  qed
  have s: "real (Suc k) * m = real k * m + m" by (simp add: algebra_simps)
  have "rampStep mx m (min (real k * m) mx) = min (real k * m + m) mx"
  proof (cases "real k * m < mx")
    case False
    then have "min (real k * m) mx = mx" by simp
    moreover have "rampStep mx m mx = mx" by (simp add: rampStep_def)
    moreover have "mx \<le> real k * m + m" using False mpos by linarith
    ultimately show ?thesis by simp
  next
    case True
    then have e: "min (real k * m) mx = real k * m" by simp
    show ?thesis
    proof (cases "mx - real k * m > m")
      case t: True
      then have "mx - real k * m > 0.000001" using assms(2) by linarith
      then have "rampStep mx m (real k * m) = real k * m + m"
        using t by (simp add: rampStep_def)
      moreover have "min (real k * m + m) mx = real k * m + m" using t by simp
      ultimately show ?thesis by (simp only: e)
    next
      case f: False
      then have "rampStep mx m (real k * m) = mx" by (simp add: rampStep_def)
      moreover have "min (real k * m + m) mx = mx" using f by simp
      ultimately show ?thesis by (simp only: e)
    qed
  qed
  then have "rampStep mx m ((rampStep mx m ^^ k) 0) = min (real (Suc k) * m) mx"
    unfolding Suc s .
  then show ?case by simp
qed

lemma subv_addv: "subv (addv c a) (addv c b) = subv a b"
  by (simp add: subv_def addv_def)

subsection \<open>What the stages of a frame leave alone\<close>

lemma sameScene_refl: "sameScene s s"
  by (simp add: sameScene_def)

lemma sameScene_trans: "sameScene s s1 \<Longrightarrow> sameScene s1 s2 \<Longrightarrow> sameScene s s2"
  by (simp add: sameScene_def)

lemma upc_sameScene: "sameScene s (updatePlayerContacts s cfg w)"
  by (simp add: sameScene_def updatePlayerContacts_def Let_def split: option.splits)

lemma upc_control:
  "spaceWasDown (updatePlayerContacts s cfg w) = spaceWasDown s"
  "calls (updatePlayerContacts s cfg w) = calls s"
  "Player (updatePlayerContacts s cfg w) = Player s"
  by (simp_all add: updatePlayerContacts_def Let_def split: option.splits)

lemma climbGate_sameScene: "sameScene s (climbGate s cfg g a)"
  by (simp add: sameScene_def climbGate_def Let_def)

lemma jumpPhase_sameScene: "jumpPhase s cfg g = Some s' \<Longrightarrow> sameScene s s'"
  by (auto simp: jumpPhase_def jump_def wallJumpOff_def Let_def sameScene_def
      split: if_splits option.splits)

lemma handleInput_sameScene:
  assumes H: "handleInput s cfg w dt = Some s'"
  shows "sameScene s s'"
proof (cases "Player s")
  case None
  then show ?thesis using H by (simp add: handleInput_def sameScene_refl)
next
  case (Some p)
  obtain g where g: "isGrounded s cfg w = Some g"
    using handleInput_isGrounded[OF Some H] by blast
  obtain s5 s7 where st: "steered (s\<lparr>climbExitTimer := tickedExit s dt,
                                   climbAnimGrace := tickedGrace s dt,
                                   lastMoveAxis := moveAxisOf s\<rparr>) s5"
    and rb: "rebodied (climbGate s5 cfg g (moveAxisOf s)) s7"
    and hi: "handleInput s cfg w dt = jumpPhase s7 cfg g"
    using handleInput_chain[OF Some g] by blast
  have a: "sameScene s s5" using st Some by (auto simp: steered_def sameScene_def)
  have b: "sameScene s5 (climbGate s5 cfg g (moveAxisOf s))" by (rule climbGate_sameScene)
  have c: "sameScene (climbGate s5 cfg g (moveAxisOf s)) s7"
    using rb by (auto simp: rebodied_def sameScene_def)
  have d: "sameScene s7 s'" using hi H by (simp add: jumpPhase_sameScene)
  from a b c d show ?thesis by (blast intro: sameScene_trans)
qed

lemma syncObjects_sameScene:
  "syncObjects i objs s = Some s' \<Longrightarrow> sameScene s s'"
proof (induction i objs s rule: syncObjects.induct)
  case (1 i s)
  then show ?case by (simp add: sameScene_refl)
next
  case (2 i ms objs s)
  show ?case
  proof (cases ms)
    case False
    then show ?thesis using 2 by simp
  next
    case True
    then have t: "tmpTransform s" and r: "syncObjects (Suc i) objs (s\<lparr>calls := calls s @ [SyncObject i]\<rparr>) = Some s'"
      using 2(3) by (auto split: if_splits)
    have "sameScene (s\<lparr>calls := calls s @ [SyncObject i]\<rparr>) s'"
      using 2(2) True t r by simp
    moreover have "sameScene s (s\<lparr>calls := calls s @ [SyncObject i]\<rparr>)"
      by (simp add: sameScene_def)
    ultimately show ?thesis by (rule sameScene_trans[rotated])
  qed
qed

lemma sync_sameScene:
  "syncVisualsFromPhysics s cfg = Some s' \<Longrightarrow> sameScene s s'"
proof -
  assume a: "syncVisualsFromPhysics s cfg = Some s'"
  then obtain s1 where s1: "syncObjects 0 (gameObjects s) s = Some s1"
    and r: "(case Player s1 of None \<Rightarrow> Some s1
             | Some p \<Rightarrow> (case motionState p of None \<Rightarrow> None
                 | Some tr \<Rightarrow> if \<not> tmpTransform s1 then None
                    else Some (s1\<lparr>calls := calls s1 @ [SyncPlayer]\<rparr>))) = Some s'"
    by (auto simp: syncVisualsFromPhysics_def split: Option.bind_splits)
  have "sameScene s1 s'"
    using r by (auto simp: sameScene_def split: option.splits if_splits)
  with syncObjects_sameScene[OF s1] show ?thesis by (rule sameScene_trans)
qed

lemma playPlayerAction_sameScene: "sameScene s (playPlayerAction s cfg n b)"
  by (simp add: playPlayerAction_def sameScene_def)

lemma applyMoveAnimDirection_sameScene: "sameScene s (applyMoveAnimDirection s d f)"
  by (simp add: applyMoveAnimDirection_def sameScene_def Let_def)

lemma updateAirLatch_sameScene: "sameScene s (updateAirLatch s cfg g dt)"
  by (simp add: updateAirLatch_def sameScene_def Let_def)

lemma switchAnimation_sameScene: "sameScene s (switchAnimation s cfg d)"
proof -
  let ?s2 = "(if d \<noteq> playerCurrentState s then playPlayerAction s cfg d False else s)"
  have a: "sameScene s ?s2"
    by (simp add: playPlayerAction_sameScene sameScene_refl)
  have "sameScene ?s2 (switchAnimation s cfg d)"
    unfolding switchAnimation_def Let_def
    by (simp add: applyMoveAnimDirection_sameScene sameScene_refl)
  with a show ?thesis by (rule sameScene_trans)
qed

lemma anim_sameScene:
  assumes "updatePlayerAnimationState s cfg w dt = Some s'"
  shows "sameScene s s'"
proof (cases "Player s")
  case None
  then show ?thesis using assms by (simp add: updatePlayerAnimationState_def sameScene_refl)
next
  case (Some p)
  show ?thesis
  proof (cases "playerMixer s")
    case False
    then show ?thesis
      using assms Some by (simp add: updatePlayerAnimationState_def sameScene_refl)
  next
    case True
    show ?thesis
    proof (cases "playerClimbing s \<or> climbAnimGrace s > 0")
      case c: True
      let ?s1 = "s\<lparr>animInAir := False, animAirTimer := 0\<rparr>"
      have e: "s' = (if playerCurrentState ?s1 \<noteq> climb
                     then playPlayerAction ?s1 cfg climb False else ?s1)"
        using assms Some True c by (simp add: updatePlayerAnimationState_def Let_def)
      have "sameScene s ?s1" by (simp add: sameScene_def)
      moreover have "sameScene ?s1 s'"
        unfolding e by (simp add: playPlayerAction_sameScene sameScene_refl)
      ultimately show ?thesis by (rule sameScene_trans)
    next
      case c: False
      then obtain g where g: "isGrounded s cfg w = Some g"
        and e: "s' = switchAnimation (updateAirLatch s cfg g dt) cfg
                       (desiredAnimation (updateAirLatch s cfg g dt) cfg p)"
        using assms Some True
        by (auto simp: updatePlayerAnimationState_def Let_def split: Option.bind_splits)
      show ?thesis
        unfolding e
        using updateAirLatch_sameScene switchAnimation_sameScene
        by (blast intro: sameScene_trans)
    qed
  qed
qed

text \<open>Up to the camera update, a frame leaves the scene fields alone.\<close>

lemma stepCore_sameScene:
  assumes "physicsWorld s" "renderer s" "stepCore s cfg dt w = Some s'"
  shows "\<exists>s6. sameScene (stepped s dt w) s6 \<and> updateCamera s6 cfg = Some (s'\<lparr>calls := calls s6\<rparr>) \<and>
               calls s' = calls s6 @ [Render]"
proof -
  obtain s3 s4 s5 s7 where
    a: "handleInput (updatePlayerContacts (stepped s dt w) cfg w) cfg w dt = Some s3"
    and b: "syncVisualsFromPhysics s3 cfg = Some s4"
    and c: "updatePlayerAnimationState s4 cfg w dt = Some s5"
    and d: "updateCamera (if playerMixer s5 then s5\<lparr>calls := calls s5 @ [MixerUpdate dt]\<rparr> else s5) cfg
             = Some s7"
    and e: "s' = s7\<lparr>calls := calls s7 @ [Render]\<rparr>"
    using stepCore_Some[OF assms] by blast
  let ?s6 = "(if playerMixer s5 then s5\<lparr>calls := calls s5 @ [MixerUpdate dt]\<rparr> else s5)"
  have m: "sameScene s5 ?s6" by (simp add: sameScene_def)
  have "sameScene (stepped s dt w) ?s6"
    using upc_sameScene[of "stepped s dt w" cfg w] handleInput_sameScene[OF a]
      sync_sameScene[OF b] anim_sameScene[OF c] m
    by (blast intro: sameScene_trans)
  moreover have "calls s7 = calls ?s6"
    using d by (auto simp: updateCamera_def Let_def split: option.splits if_splits)
  ultimately show ?thesis using d e by (intro exI[of _ ?s6]) simp
qed

subsection \<open>Frames that return, and the impulses of a run\<close>

lemma handleInput_Some:
  assumes P: "Player s = Some p" and M: "motionState p = Some tr" and W: "physicsWorld s"
  shows "\<exists>s'. handleInput s cfg w dt = Some s'"
proof -
  obtain g where g: "isGrounded s cfg w = Some g"
    using isGrounded_Some[OF P M W] by blast
  obtain s5 s7 where st: "steered (s\<lparr>climbExitTimer := tickedExit s dt,
                                   climbAnimGrace := tickedGrace s dt,
                                   lastMoveAxis := moveAxisOf s\<rparr>) s5"
    and rb: "rebodied (climbGate s5 cfg g (moveAxisOf s)) s7"
    and hi: "handleInput s cfg w dt = jumpPhase s7 cfg g"
    using handleInput_chain[OF P g] by blast
  obtain p7 where "Player s7 = Some p7" using rb by (auto simp: rebodied_def)
  then show ?thesis using jumpPhase_Some[of s7 p7 cfg g] hi by simp
qed

lemma syncObjects_Some:
  "tmpTransform s \<Longrightarrow> \<exists>s'. syncObjects i objs s = Some s'"
  by (induction i objs s rule: syncObjects.induct) simp_all

lemma sync_Some:
  assumes "tmpTransform s" and "Player s = Some p" and "motionState p = Some tr"
  shows "\<exists>s'. syncVisualsFromPhysics s cfg = Some s'"
proof -
  obtain s1 where s1: "syncObjects 0 (gameObjects s) s = Some s1"
    using syncObjects_Some[OF assms(1)] by blast
  have "sameScene s s1" "sameControl s s1"
    using syncObjects_sameScene[OF s1] syncObjects_sameControl[OF s1] by simp_all
  then have "tmpTransform s1" "Player s1 = Some p"
    using assms by (simp_all add: sameScene_def sameControl_def)
  then show ?thesis using s1 assms(3) by (simp add: syncVisualsFromPhysics_def)
qed

lemma anim_Some:
  assumes "Player s = Some p" and "motionState p = Some tr" and "physicsWorld s"
  shows "\<exists>s'. updatePlayerAnimationState s cfg w dt = Some s'"
proof -
  obtain g where g: "isGrounded s cfg w = Some g"
    using isGrounded_Some[OF assms] by blast
  then show ?thesis using assms(1) by (simp add: updatePlayerAnimationState_def Let_def)
qed

lemma updateCamera_Some:
  assumes "tmpTransform s" and "camera s = Some c"
  shows "\<exists>s'. updateCamera s cfg = Some s' \<and> camera s' \<noteq> None"
  using assms by (simp add: updateCamera_def Let_def split: option.splits)

text \<open>With the engine objects in place and a physics step that keeps the player's motion
  state, a frame returns, and the next frame finds the same.\<close>

lemma stepCore_ready:
  assumes R: "ready s" and P: "Player s = Some p"
    and K: "motionState (stepSimulation w dt p) = motionState p"
  shows "\<exists>s'. stepCore s cfg dt w = Some s' \<and> ready s'"
proof -
  obtain tr c where M: "motionState p = Some tr" and C: "camera s = Some c"
    and E: "physicsWorld s" "renderer s" "tmpTransform s"
    using R P by (auto simp: ready_def)
  let ?s1 = "stepped s dt w"
  let ?s2 = "updatePlayerContacts ?s1 cfg w"
  have P2: "Player ?s2 = Some (stepSimulation w dt p)"
    using P by (simp add: upc_control stepped_def)
  have W2: "physicsWorld ?s2"
    using upc_sameScene[of ?s1 cfg w] E by (simp add: sameScene_def stepped_def)
  have M2: "motionState (stepSimulation w dt p) = Some tr" using K M by simp
  obtain s3 where s3: "handleInput ?s2 cfg w dt = Some s3"
    using handleInput_Some[OF P2 M2 W2] by blast
  have sc3: "sameScene ?s1 s3"
    using upc_sameScene[of ?s1 cfg w] handleInput_sameScene[OF s3] by (rule sameScene_trans)
  then obtain p3 where P3: "Player s3 = Some p3" and M3: "motionState p3 = Some tr"
    and E3: "tmpTransform s3" "physicsWorld s3"
    using P K M E by (auto simp: sameScene_def stepped_def)
  obtain s4 where s4: "syncVisualsFromPhysics s3 cfg = Some s4"
    using sync_Some[OF E3(1) P3 M3] by blast
  have P4: "Player s4 = Some p3" and E4: "physicsWorld s4"
    using sync_sameControl[OF s4] P3 E3 by (simp_all add: sameControl_def)
  obtain s5 where s5: "updatePlayerAnimationState s4 cfg w dt = Some s5"
    using anim_Some[OF P4 M3 E4] by blast
  let ?s6 = "(if playerMixer s5 then s5\<lparr>calls := calls s5 @ [MixerUpdate dt]\<rparr> else s5)"
  have sc6: "sameScene ?s1 ?s6"
  proof -
    have "sameScene s5 ?s6" by (simp add: sameScene_def)
    with sc3 sync_sameScene[OF s4] anim_sameScene[OF s5] show ?thesis
      by (blast intro: sameScene_trans)
  qed
  have P6: "Player ?s6 = Some p3"
    using anim_sameControl[OF s5] P4 by (simp add: sameControl_def)
  have E6: "tmpTransform ?s6" "camera ?s6 = Some c" "physicsWorld ?s6" "renderer ?s6"
    using sc6 E C by (simp_all add: sameScene_def stepped_def)
  obtain s7 where s7: "updateCamera ?s6 cfg = Some s7" and C7: "camera s7 \<noteq> None"
    using updateCamera_Some[OF E6(1,2)] by blast
  have sc7: "sameControl ?s6 s7" by (rule updateCamera_sameControl[OF s7])
  have t7: "tmpTransform s7"
    using s7 E6(1) by (auto simp: updateCamera_def Let_def split: option.splits if_splits)
  have r: "stepCore s cfg dt w = Some (s7\<lparr>calls := calls s7 @ [Render]\<rparr>)"
    using E s3 s4 s5 s7 by (simp add: stepCore_def stepped_def Let_def)
  have "ready (s7\<lparr>calls := calls s7 @ [Render]\<rparr>)"
    using sc7 P6 M3 E6 C7 t7 by (simp add: ready_def sameControl_def)
  with r show ?thesis by blast
qed

text \<open>The impulses of one frame.\<close>

lemma handleInput_jump:
  assumes P: "Player s = Some p" and H: "handleInput s cfg w dt = Some s'"
  shows "\<exists>s6 g. climbPhase s cfg w dt = Some (s6, g) \<and>
           impulses (calls s') = impulses (calls s) +
              (if jumpEdge s \<and> (playerClimbing s6 \<or> g) then 1 else 0) \<and>
           spaceWasDown s' = isDown s ''Space''"
proof -
  obtain g where g: "isGrounded s cfg w = Some g"
    using handleInput_isGrounded[OF P H] by blast
  obtain s5 where st: "steered (s\<lparr>climbExitTimer := tickedExit s dt,
                                   climbAnimGrace := tickedGrace s dt,
                                   lastMoveAxis := moveAxisOf s\<rparr>) s5"
    and cp: "climbPhase s cfg w dt = Some (climbGate s5 cfg g (moveAxisOf s), g)"
    using climbPhase_Some[OF P g] by blast
  let ?s6 = "climbGate s5 cfg g (moveAxisOf s)"
  obtain s7 where s7: "(if \<not> playerClimbing ?s6
                        then applyCharacterMovement ?s6 cfg w (lastMoveAxis ?s6) dt
                        else applyWallClimb ?s6 cfg) = Some s7"
    and j: "jumpPhase s7 cfg g = Some s'"
    using H P cp by (auto simp: handleInput_def split: Option.bind_splits)
  obtain p5 where p5: "Player s5 = Some p5" "motionState p5 = motionState p"
    and f5: "playerGrounded s5 = playerGrounded s" "physicsWorld s5 = physicsWorld s"
      "keys s5 = keys s" "spaceWasDown s5 = spaceWasDown s" "calls s5 = calls s"
    using st P by (auto simp: steered_def)
  have P6: "Player ?s6 = Some p5" by (simp add: climbGate_others p5)
  have "isGrounded ?s6 cfg w = isGrounded s cfg w"
    by (rule isGrounded_cong[OF P6 P p5(2)]) (simp_all add: climbGate_others f5)
  then have G6: "isGrounded ?s6 cfg w = Some g" using g by simp
  have rb: "rebodied ?s6 s7"
  proof (cases "playerClimbing ?s6")
    case True
    then show ?thesis using applyWallClimb_rebodied[OF P6, of cfg] s7 by simp
  next
    case False
    then show ?thesis using acm_rebodied[OF P6 G6, of "lastMoveAxis ?s6" dt] s7 by simp
  qed
  have f7: "keys s7 = keys s" "spaceWasDown s7 = spaceWasDown s" "calls s7 = calls s"
    "playerClimbing s7 = playerClimbing ?s6"
    using rb by (auto simp: rebodied_def climbGate_others f5)
  have e7: "jumpEdge s7 = jumpEdge s" "isDown s7 ''Space'' = isDown s ''Space''"
    by (simp_all add: jumpEdge_def isDown_def f7)
  have "impulses (calls s') = impulses (calls s) +
              (if jumpEdge s \<and> (playerClimbing ?s6 \<or> g) then 1 else 0)"
    using jumpPhase_fields(6)[OF j]
    by (simp add: e7 f7 impulses_append impulses_simps)
  moreover have "spaceWasDown s' = isDown s ''Space''"
    using jumpPhase_fields(1)[OF j] by (simp add: e7)
  ultimately show ?thesis using cp by blast
qed

lemma stepCore_jump:
  assumes E: "physicsWorld s" "renderer s" and P: "Player s = Some p"
    and S: "stepCore s cfg dt w = Some s'"
  shows "\<exists>s6 g. climbPhase (updatePlayerContacts (stepped s dt w) cfg w) cfg w dt = Some (s6, g) \<and>
           impulses (calls s') = impulses (calls s) +
              (if jumpEdge s \<and> (playerClimbing s6 \<or> g) then 1 else 0) \<and>
           spaceWasDown s' = isDown s ''Space'' \<and> keys s' = keys s"
proof -
  let ?s2 = "updatePlayerContacts (stepped s dt w) cfg w"
  obtain s3 where h: "handleInput ?s2 cfg w dt = Some s3" and sc: "sameControl s3 s'"
    using stepCore_sameControl[OF E S] by blast
  have P2: "Player ?s2 = Some (stepSimulation w dt p)"
    using P by (simp add: upc_control stepped_def)
  have k2: "keys ?s2 = keys s" "spaceWasDown ?s2 = spaceWasDown s"
    "impulses (calls ?s2) = impulses (calls s)"
    using upc_sameScene[of "stepped s dt w" cfg w]
    by (simp_all add: sameScene_def upc_control stepped_def impulses_append impulses_simps)
  have e2: "jumpEdge ?s2 = jumpEdge s" "isDown ?s2 ''Space'' = isDown s ''Space''"
    by (simp_all add: jumpEdge_def isDown_def k2)
  obtain s6 g where cp: "climbPhase ?s2 cfg w dt = Some (s6, g)"
    and i: "impulses (calls s3) = impulses (calls ?s2) +
              (if jumpEdge ?s2 \<and> (playerClimbing s6 \<or> g) then 1 else 0)"
    and d: "spaceWasDown s3 = isDown ?s2 ''Space''"
    using handleInput_jump[OF P2 h] by blast
  have "keys s3 = keys ?s2" using handleInput_sameScene[OF h] by (simp add: sameScene_def)
  then show ?thesis
    using cp i d sc by (simp add: sameControl_def e2 k2)
qed

text \<open>While the key is held and was seen held, no event but its release changes that,
  and no frame gives an impulse.\<close>

lemma stepCore_held:
  assumes H: "held s" and S: "stepCore s cfg dt w = Some s'"
  shows "held s' \<and> impulses (calls s') = impulses (calls s)"
proof (cases "physicsWorld s \<and> renderer s")
  case False
  then show ?thesis using S H by (auto simp: stepCore_def)
next
  case E: True
  show ?thesis
  proof (cases "Player s")
    case (Some p)
    have "\<not> jumpEdge s" using H by (simp add: held_def jumpEdge_def)
    then show ?thesis
      using stepCore_jump[OF _ _ Some S] E H by (auto simp: held_def isDown_def)
  next
    case None
    let ?s2 = "updatePlayerContacts (stepped s dt w) cfg w"
    obtain s3 where h: "handleInput ?s2 cfg w dt = Some s3" and sc: "sameControl s3 s'"
      using stepCore_sameControl[OF _ _ S] E by blast
    have "Player ?s2 = None" using None by (simp add: upc_control stepped_def)
    then have "s3 = ?s2" using h by (simp add: handleInput_def)
    then have "keys s' = keys s" "spaceWasDown s' = spaceWasDown s"
      "impulses (calls s') = impulses (calls s)"
      using sc upc_sameScene[of "stepped s dt w" cfg w]
      by (simp_all add: sameControl_def sameScene_def upc_control stepped_def
            impulses_append impulses_simps)
    then show ?thesis using H by (simp add: held_def isDown_def)
  qed
qed

lemma dispatch_held:
  assumes H: "held s" and N: "e \<noteq> KeyUp ''Space''" and D: "dispatch cfg e s = Some s'"
  shows "held s' \<and> impulses (calls s') = impulses (calls s)"
proof (cases e)
  case (Frame dt w)
  then show ?thesis using stepCore_held[OF H] D by simp
next
  case (KeyDown c)
  then show ?thesis using H D by (auto simp: held_def isDown_def onKeyDown_def)
next
  case (KeyUp c)
  then show ?thesis using H D N by (auto simp: held_def isDown_def onKeyUp_def)
next
  case (MouseMove x y)
  then show ?thesis using H D by (auto simp: held_def isDown_def onMouseMove_def Let_def)
next
  case (Wheel y)
  then show ?thesis using H D by (auto simp: held_def isDown_def onWheel_def)
next
  case (PointerLockChange b)
  then show ?thesis using H D by (auto simp: held_def isDown_def)
qed

lemma run_held:
  "held s \<Longrightarrow> KeyUp ''Space'' \<notin> set es \<Longrightarrow> run cfg es s = Some s' \<Longrightarrow>
   held s' \<and> impulses (calls s') = impulses (calls s)"
proof (induction es arbitrary: s)
  case Nil
  then show ?case by simp
next
  case (Cons e es)
  from Cons.prems(3) obtain s1 where d: "dispatch cfg e s = Some s1"
    and r: "run cfg es s1 = Some s'"
    by (auto split: option.splits)
  have n: "e \<noteq> KeyUp ''Space''" "KeyUp ''Space'' \<notin> set es" using Cons.prems(2) by auto
  have h1: "held s1 \<and> impulses (calls s1) = impulses (calls s)"
    by (rule dispatch_held[OF Cons.prems(1) n(1) d])
  with Cons.IH[OF _ n(2) r] show ?case by simp
qed

text \<open>Frames in the example worlds.\<close>

lemma upc_emptyWorld:
  "updatePlayerContacts s cfg emptyWorld =
     s\<lparr>playerGrounded := False, playerOnWall := False, playerWallNormal := Vector3 0 0 0\<rparr>"
  by (simp add: updatePlayerContacts_def Let_def accumulateContacts_def emptyWorld_def
        renormalizeWallNormal_def split: option.splits)

lemma air_frame:
  assumes P: "Player s = Some p" and M: "motionState p = Some tr" and W: "physicsWorld s"
    and C: "\<not> playerClimbing s"
  shows "\<exists>s6. climbPhase (updatePlayerContacts (stepped s dt emptyWorld) cfg emptyWorld)
                 cfg emptyWorld dt = Some (s6, False) \<and> \<not> playerClimbing s6"
proof -
  let ?s = "(stepped s dt emptyWorld)\<lparr>playerGrounded := False, playerOnWall := False,
              playerWallNormal := Vector3 0 0 0\<rparr>"
  have P2: "Player ?s = Some p" using P by (simp add: stepped_def emptyWorld_def)
  have g: "isGrounded ?s cfg emptyWorld = Some False"
    using P M W by (simp add: isGrounded_def isGroundedRay_def stepped_def emptyWorld_def)
  obtain s5 where st: "steered (?s\<lparr>climbExitTimer := tickedExit ?s dt,
                                   climbAnimGrace := tickedGrace ?s dt,
                                   lastMoveAxis := moveAxisOf ?s\<rparr>) s5"
    and cp: "climbPhase ?s cfg emptyWorld dt = Some (climbGate s5 cfg False (moveAxisOf ?s), False)"
    using climbPhase_Some[OF P2 g] by blast
  have f: "\<not> playerClimbing s5" "\<not> playerOnWall s5"
    using st C by (auto simp: steered_def stepped_def)
  have "\<not> playerClimbing (climbGate s5 cfg False (moveAxisOf ?s))"
    using climbGate_enter[OF f(1), of cfg False "moveAxisOf ?s"] f(2) by simp
  then show ?thesis using cp by (simp add: upc_emptyWorld)
qed

lemma acc_ground:
  "accumulateContacts defaultConfig groundWorld startBody (Suc 0) =
          \<lparr>cGrounded = True, cOnWall = False, cWallNormal = Vector3 0 0 0\<rparr>"
  by (simp add: accumulateContacts_def groundWorld_def manifoldStep_def contactStep_def
          defaultConfig_fields startBody_def startTransform_def Let_def)

lemma ground_frame:
  assumes P: "Player s = Some startBody" and D: "dispatcher s" and N: "playerPtr s = Suc 0"
  shows "\<exists>s6. climbPhase (updatePlayerContacts (stepped s dt groundWorld) defaultConfig groundWorld)
                 defaultConfig groundWorld dt = Some (s6, True)"
proof -
  let ?s2 = "updatePlayerContacts (stepped s dt groundWorld) defaultConfig groundWorld"
  have P1: "Player (stepped s dt groundWorld) = Some startBody"
    using P by (simp add: stepped_def groundWorld_def)
  have "playerGrounded ?s2"
    using upc_fields(3)[OF P1, of defaultConfig groundWorld] D N
    by (simp add: stepped_def acc_ground)
  then have g: "isGrounded ?s2 defaultConfig groundWorld = Some True"
    by (simp add: isGrounded_def)
  have P2: "Player ?s2 = Some startBody" using P1 by (simp add: upc_control)
  show ?thesis using climbPhase_Some[OF P2 g] by blast
qed

lemma ready_startState: "ready (onKeyDown startState ''Space'')"
  by (simp add: ready_def onKeyDown_def startState_def startBody_def)

lemma run_ground3:
  assumes R: "ready s" and P: "Player s = Some p"
  shows "\<exists>s'. run cfg [Frame a groundWorld, Frame b groundWorld, Frame c groundWorld] s = Some s'"
proof -
  have K: "\<And>d q. motionState (stepSimulation groundWorld d q) = motionState q"
    by (simp add: groundWorld_def)
  obtain s1 where s1: "stepCore s cfg a groundWorld = Some s1" and r1: "ready s1"
    using stepCore_ready[OF R P K] by blast
  obtain p1 where p1: "Player s1 = Some p1" using r1 by (auto simp: ready_def split: option.splits)
  obtain s2 where s2: "stepCore s1 cfg b groundWorld = Some s2" and r2: "ready s2"
    using stepCore_ready[OF r1 p1 K] by blast
  obtain p2 where p2: "Player s2 = Some p2" using r2 by (auto simp: ready_def split: option.splits)
  obtain s3 where s3: "stepCore s2 cfg c groundWorld = Some s3"
    using stepCore_ready[OF r2 p2 K] by blast
  show ?thesis using s1 s2 s3 by simp
qed

lemma stepCore_playerGrounded:
  assumes "physicsWorld s" "renderer s" "stepCore s cfg dt w = Some s'"
  shows "playerGrounded s' = playerGrounded (updatePlayerContacts (stepped s dt w) cfg w)"
proof -
  obtain s3 where h: "handleInput (updatePlayerContacts (stepped s dt w) cfg w) cfg w dt = Some s3"
    and sc: "sameControl s3 s'"
    using stepCore_sameControl[OF assms] by blast
  show ?thesis using handleInput_playerGrounded[OF h] sc by (simp add: sameControl_def)
qed

lemma upc_ground:
  assumes P: "Player s = Some startBody" and D: "dispatcher s" and N: "playerPtr s = Suc 0"
  shows "playerGrounded (updatePlayerContacts (stepped s dt groundWorld) defaultConfig groundWorld)"
proof -
  have P1: "Player (stepped s dt groundWorld) = Some startBody"
    using P by (simp add: stepped_def groundWorld_def)
  show ?thesis
    using upc_fields(3)[OF P1, of defaultConfig groundWorld] D N
    by (simp add: stepped_def acc_ground)
qed

subsection \<open>The camera pitch\<close>

lemma clamp_bounds: "lo \<le> hi \<Longrightarrow> lo \<le> clamp v lo hi \<and> clamp v lo hi \<le> hi"
  by (simp add: clamp_def)

lemma dynMin_le_max: "pitchRangeOk cfg \<Longrightarrow> getDynamicMinPitch s cfg \<le> CAMERA_MAX_PITCH cfg"
  by (simp add: pitchRangeOk_def getDynamicMinPitch_def)

lemma dynMin_cong:
  "playerHeightAboveGround s' = playerHeightAboveGround s \<Longrightarrow>
   getDynamicMinPitch s' cfg = getDynamicMinPitch s cfg"
  by (simp add: getDynamicMinPitch_def)

lemma pitchClamped_cong:
  "playerHeightAboveGround s' = playerHeightAboveGround s \<Longrightarrow> cameraPitch s' = cameraPitch s \<Longrightarrow>
   pitchClamped cfg s' = pitchClamped cfg s"
  by (simp add: pitchClamped_def getDynamicMinPitch_def)

lemma pitchClamped_clamp:
  assumes "pitchRangeOk cfg"
  shows "pitchClamped cfg (s\<lparr>cameraPitch := clamp v (getDynamicMinPitch s cfg) (CAMERA_MAX_PITCH cfg)\<rparr>)"
proof -
  have "getDynamicMinPitch (s\<lparr>cameraPitch := clamp v (getDynamicMinPitch s cfg) (CAMERA_MAX_PITCH cfg)\<rparr>) cfg
          = getDynamicMinPitch s cfg"
    by (simp add: getDynamicMinPitch_def)
  then show ?thesis
    using clamp_bounds[OF dynMin_le_max[OF assms, of s]] by (simp add: pitchClamped_def getDynamicMinPitch_def)
qed

lemma onMouseMove_clamped:
  assumes "pitchRangeOk cfg" "pointerLocked s"
  shows "pitchClamped cfg (onMouseMove s cfg mx my)"
proof -
  let ?s2 = "s\<lparr>cameraYaw := cameraYaw s - mx * MOUSE_YAW_SENSITIVITY cfg,
               cameraPitch := cameraPitch s - my * MOUSE_PITCH_SENSITIVITY cfg\<rparr>"
  have "onMouseMove s cfg mx my =
          ?s2\<lparr>cameraPitch := clamp (cameraPitch ?s2) (getDynamicMinPitch ?s2 cfg) (CAMERA_MAX_PITCH cfg)\<rparr>"
    using assms(2) by (simp add: onMouseMove_def Let_def)
  then show ?thesis
    using pitchClamped_clamp[OF assms(1), where s = ?s2 and v = "cameraPitch ?s2"] by simp
qed

lemma clamped_update:
  assumes "pitchRangeOk cfg"
    and "cameraPitch s' = clamp v (getDynamicMinPitch s' cfg) (CAMERA_MAX_PITCH cfg)"
  shows "pitchClamped cfg s'"
  using clamp_bounds[OF dynMin_le_max[OF assms(1), of s'], of v] assms(2)
  by (simp add: pitchClamped_def getDynamicMinPitch_def)

lemma updateCamera_clamped:
  assumes R: "pitchRangeOk cfg" and P: "Player s = Some p" and M: "motionState p = Some tr"
    and U: "updateCamera s cfg = Some s'"
  shows "pitchClamped cfg s' \<and> playerHeightAboveGround s' = vecy (origin tr) - GROUND_PLANE_Y cfg"
proof -
  obtain c where c: "camera s = Some c" and t: "tmpTransform s"
    using U P M by (auto simp: updateCamera_def Let_def split: option.splits if_splits)
  have h: "playerHeightAboveGround s' = vecy (origin tr) - GROUND_PLANE_Y cfg"
    using U P M c t by (auto simp: updateCamera_def Let_def split: if_splits)
  have "\<exists>v. cameraPitch s' = clamp v (getDynamicMinPitch s' cfg) (CAMERA_MAX_PITCH cfg)"
    using U P M c t
    by (auto simp: updateCamera_def Let_def getDynamicMinPitch_def split: if_splits)
  then show ?thesis using clamped_update[OF R] h by blast
qed

lemma updateCamera_noop:
  assumes "updateCamera s cfg = Some s'"
    and "Player s = None \<or> (\<exists>p. Player s = Some p \<and> motionState p = None)"
  shows "s' = s"
  using assms by (auto simp: updateCamera_def)

lemma stepCore_clamped:
  assumes R: "pitchRangeOk cfg" and S: "stepCore s cfg dt w = Some s'"
    and I: "pitchClamped cfg s \<or>
            (physicsWorld s \<and> renderer s \<and> (\<exists>p tr. Player s = Some p \<and> motionState (stepSimulation w dt p) = Some tr))"
  shows "pitchClamped cfg s'"
proof (cases "physicsWorld s \<and> renderer s")
  case False
  then show ?thesis using S I by (auto simp: stepCore_def)
next
  case E: True
  obtain s6 where sc: "sameScene (stepped s dt w) s6"
    and u: "updateCamera s6 cfg = Some (s'\<lparr>calls := calls s6\<rparr>)"
    using stepCore_sameScene[OF _ _ S] E by blast
  have f: "cameraPitch s6 = cameraPitch s" "playerHeightAboveGround s6 = playerHeightAboveGround s"
    "map_option motionState (Player s6) = map_option (motionState \<circ> stepSimulation w dt) (Player s)"
    using sc by (simp_all add: sameScene_def stepped_def option.map_comp)
  have k: "pitchClamped cfg s' = pitchClamped cfg (s'\<lparr>calls := calls s6\<rparr>)"
    by (rule pitchClamped_cong[symmetric]) simp_all
  show ?thesis
  proof (cases "\<exists>p6 tr. Player s6 = Some p6 \<and> motionState p6 = Some tr")
    case True
    then show ?thesis using updateCamera_clamped[OF R _ _ u] k by blast
  next
    case False
    then have n: "Player s6 = None \<or> (\<exists>p. Player s6 = Some p \<and> motionState p = None)"
      by (cases "Player s6") auto
    have e: "s'\<lparr>calls := calls s6\<rparr> = s6" by (rule updateCamera_noop[OF u n])
    have "\<not> (\<exists>p tr. Player s = Some p \<and> motionState (stepSimulation w dt p) = Some tr)"
      using False f(3) by (cases "Player s"; cases "Player s6") auto
    then have "pitchClamped cfg s" using I by blast
    then have "pitchClamped cfg s6" using pitchClamped_cong[OF f(2,1)] by simp
    then show ?thesis using k e by simp
  qed
qed

lemma dispatch_clamped:
  assumes R: "pitchRangeOk cfg" and I: "pitchClamped cfg s" and D: "dispatch cfg e s = Some s'"
  shows "pitchClamped cfg s'"
proof (cases e)
  case (Frame dt w)
  then show ?thesis using stepCore_clamped[OF R _ disjI1[OF I]] D by simp
next
  case (KeyDown c)
  then show ?thesis using I D by (auto simp: pitchClamped_def getDynamicMinPitch_def onKeyDown_def)
next
  case (KeyUp c)
  then show ?thesis using I D by (auto simp: pitchClamped_def getDynamicMinPitch_def onKeyUp_def)
next
  case (MouseMove x y)
  show ?thesis
  proof (cases "pointerLocked s")
    case True
    then show ?thesis using onMouseMove_clamped[OF R True, of x y] D MouseMove by auto
  next
    case False
    then show ?thesis using I D MouseMove by (simp add: onMouseMove_def)
  qed
next
  case (Wheel y)
  then show ?thesis using I D by (auto simp: pitchClamped_def getDynamicMinPitch_def onWheel_def)
next
  case (PointerLockChange b)
  then show ?thesis using I D by (auto simp: pitchClamped_def getDynamicMinPitch_def)
qed

lemma run_clamped:
  "pitchRangeOk cfg \<Longrightarrow> pitchClamped cfg s \<Longrightarrow> run cfg es s = Some s' \<Longrightarrow> pitchClamped cfg s'"
proof (induction es arbitrary: s)
  case Nil
  then show ?case by simp
next
  case (Cons e es)
  from Cons.prems(3) obtain s1 where d: "dispatch cfg e s = Some s1"
    and r: "run cfg es s1 = Some s'"
    by (auto split: option.splits)
  have "pitchClamped cfg s1" by (rule dispatch_clamped[OF Cons.prems(1,2) d])
  then show ?case using Cons.IH[OF Cons.prems(1) _ r] by simp
qed

lemma stepCore_clamps:
  assumes R: "pitchRangeOk cfg" and E: "physicsWorld s" "renderer s" and P: "Player s = Some p"
    and M: "motionState (stepSimulation w dt p) = Some tr" and S: "stepCore s cfg dt w = Some s'"
  shows "pitchClamped cfg s' \<and> playerHeightAboveGround s' = vecy (origin tr) - GROUND_PLANE_Y cfg"
proof -
  obtain s6 where sc: "sameScene (stepped s dt w) s6"
    and u: "updateCamera s6 cfg = Some (s'\<lparr>calls := calls s6\<rparr>)"
    using stepCore_sameScene[OF E S] by blast
  have "map_option motionState (Player s6) = Some (Some tr)"
    using sc P M by (simp add: sameScene_def stepped_def)
  then obtain p6 where "Player s6 = Some p6" "motionState p6 = Some tr" by auto
  then have "pitchClamped cfg (s'\<lparr>calls := calls s6\<rparr>) \<and>
             playerHeightAboveGround (s'\<lparr>calls := calls s6\<rparr>) = vecy (origin tr) - GROUND_PLANE_Y cfg"
    using updateCamera_clamped[OF R _ _ u] by blast
  then show ?thesis by (auto simp: pitchClamped_def getDynamicMinPitch_def)
qed

lemma onMouseMove_ready:
  "ready (onMouseMove s cfg x y) = ready s" "Player (onMouseMove s cfg x y) = Player s"
  by (simp_all add: onMouseMove_def ready_def Let_def)

text \<open>The value that the two clamps leave, with the limits written out.\<close>

lemma getDynamicMinPitch_eq:
  "getDynamicMinPitch s cfg =
     (if playerHeightAboveGround s > CAMERA_BELOW_PLAYER_ENABLE_HEIGHT cfg
      then CAMERA_MIN_PITCH_BELOW cfg else CAMERA_MIN_PITCH cfg)"
  by (simp add: getDynamicMinPitch_def)

lemma onMouseMove_pitch:
  assumes "pointerLocked s"
  shows "cameraPitch (onMouseMove s cfg mx my) =
           max (if playerHeightAboveGround s > CAMERA_BELOW_PLAYER_ENABLE_HEIGHT cfg
                then CAMERA_MIN_PITCH_BELOW cfg else CAMERA_MIN_PITCH cfg)
               (min (CAMERA_MAX_PITCH cfg) (cameraPitch s - my * MOUSE_PITCH_SENSITIVITY cfg))"
    and "playerHeightAboveGround (onMouseMove s cfg mx my) = playerHeightAboveGround s"
  using assms by (simp_all add: onMouseMove_def Let_def clamp_def getDynamicMinPitch_def)

lemma updateCamera_pitch:
  assumes P: "Player s = Some p" and M: "motionState p = Some tr"
    and U: "updateCamera s cfg = Some s'"
  shows "\<exists>v. cameraPitch s' =
               max (if vecy (origin tr) - GROUND_PLANE_Y cfg > CAMERA_BELOW_PLAYER_ENABLE_HEIGHT cfg
                    then CAMERA_MIN_PITCH_BELOW cfg else CAMERA_MIN_PITCH cfg)
                   (min (CAMERA_MAX_PITCH cfg) v) \<and>
             (cameraYawInitialized s \<longrightarrow> v = cameraPitch s)"
proof -
  obtain c where c: "camera s = Some c" and t: "tmpTransform s"
    using U P M by (auto simp: updateCamera_def Let_def split: option.splits if_splits)
  have h: "playerHeightAboveGround s' = vecy (origin tr) - GROUND_PLANE_Y cfg"
    using U P M c t by (auto simp: updateCamera_def Let_def split: if_splits)
  have "\<exists>v. cameraPitch s' = clamp v (getDynamicMinPitch s' cfg) (CAMERA_MAX_PITCH cfg) \<and>
            (cameraYawInitialized s \<longrightarrow> v = cameraPitch s)"
    using U P M c t
    by (auto simp: updateCamera_def Let_def getDynamicMinPitch_def split: if_splits)
  then obtain v where v: "cameraPitch s' = clamp v (getDynamicMinPitch s' cfg) (CAMERA_MAX_PITCH cfg)"
    and i: "cameraYawInitialized s \<longrightarrow> v = cameraPitch s"
    by blast
  have "cameraPitch s' =
               max (if vecy (origin tr) - GROUND_PLANE_Y cfg > CAMERA_BELOW_PLAYER_ENABLE_HEIGHT cfg
                    then CAMERA_MIN_PITCH_BELOW cfg else CAMERA_MIN_PITCH cfg)
                   (min (CAMERA_MAX_PITCH cfg) v)"
    unfolding v clamp_def getDynamicMinPitch_eq h by (rule refl)
  with i show ?thesis by blast
qed

lemma stepCore_pitch:
  assumes E: "physicsWorld s" "renderer s" and P: "Player s = Some p"
    and M: "motionState (stepSimulation w dt p) = Some tr" and S: "stepCore s cfg dt w = Some s'"
  shows "\<exists>v. cameraPitch s' =
               max (if vecy (origin tr) - GROUND_PLANE_Y cfg > CAMERA_BELOW_PLAYER_ENABLE_HEIGHT cfg
                    then CAMERA_MIN_PITCH_BELOW cfg else CAMERA_MIN_PITCH cfg)
                   (min (CAMERA_MAX_PITCH cfg) v) \<and>
             (cameraYawInitialized s \<longrightarrow> v = cameraPitch s)"
proof -
  obtain s6 where sc: "sameScene (stepped s dt w) s6"
    and u: "updateCamera s6 cfg = Some (s'\<lparr>calls := calls s6\<rparr>)"
    using stepCore_sameScene[OF E S] by blast
  have "map_option motionState (Player s6) = Some (Some tr)"
    using sc P M by (simp add: sameScene_def stepped_def)
  then obtain p6 where p6: "Player s6 = Some p6" "motionState p6 = Some tr" by auto
  have f: "cameraPitch s6 = cameraPitch s" "cameraYawInitialized s6 = cameraYawInitialized s"
    using sc by (simp_all add: sameScene_def stepped_def)
  show ?thesis using updateCamera_pitch[OF p6 u] f by simp
qed

subsection \<open>The air latch of the animation\<close>

lemma playPlayerAction_state:
  "playerCurrentState (playPlayerAction s cfg n b) = n \<or>
   playerCurrentState (playPlayerAction s cfg n b) = playerCurrentState s"
  by (simp add: playPlayerAction_def)

lemma playPlayerAction_latch:
  "animInAir (playPlayerAction s cfg n b) = animInAir s"
  "animAirTimer (playPlayerAction s cfg n b) = animAirTimer s"
  by (simp_all add: playPlayerAction_def)

lemma applyMoveAnimDirection_latch:
  "animInAir (applyMoveAnimDirection s d f) = animInAir s"
  "animAirTimer (applyMoveAnimDirection s d f) = animAirTimer s"
  "playerCurrentState (applyMoveAnimDirection s d f) = playerCurrentState s"
  by (simp_all add: applyMoveAnimDirection_def Let_def)

lemma switchAnimation_latch:
  "animInAir (switchAnimation s cfg d) = animInAir s"
  "animAirTimer (switchAnimation s cfg d) = animAirTimer s"
  by (simp_all add: switchAnimation_def Let_def applyMoveAnimDirection_latch playPlayerAction_latch)

lemma switchAnimation_state:
  "playerCurrentState (switchAnimation s cfg d) = d \<or>
   playerCurrentState (switchAnimation s cfg d) = playerCurrentState s"
  using playPlayerAction_state[of s cfg d False]
  by (auto simp: switchAnimation_def Let_def applyMoveAnimDirection_latch)

lemma switchAnimation_same:
  "playerCurrentState s = d \<Longrightarrow> playerCurrentState (switchAnimation s cfg d) = d"
  by (simp add: switchAnimation_def Let_def applyMoveAnimDirection_latch)

lemma updateAirLatch_fields:
  "playerCurrentState (updateAirLatch s cfg g dt) = playerCurrentState s"
  "g \<Longrightarrow> \<not> animInAir (updateAirLatch s cfg g dt)"
  "g \<Longrightarrow> animAirTimer (updateAirLatch s cfg g dt) = 0"
  "\<not> g \<Longrightarrow> animAirTimer (updateAirLatch s cfg g dt) = animAirTimer s + dt"
  "\<not> g \<Longrightarrow> animInAir (updateAirLatch s cfg g dt) \<longleftrightarrow>
            animInAir s \<or> animAirTimer s + dt \<ge> ANIM_AIR_MIN_TIME cfg"
  by (auto simp: updateAirLatch_def Let_def)

lemma desiredAnimation_eq:
  "desiredAnimation s cfg p =
     (if animInAir s then in_air
      else if horizontalSpeed (linearVelocity p) > MOVE_SPEED_THRESHOLD cfg then move else idle)"
  by (simp add: desiredAnimation_def horizontalSpeed_def Let_def)

lemma anim_latch:
  assumes P: "Player s = Some p" and X: "playerMixer s" and C: "\<not> playerClimbing s"
    and Z: "climbAnimGrace s \<le> 0" and G: "isGrounded s cfg w = Some g"
  shows "updatePlayerAnimationState s cfg w dt =
           Some (switchAnimation (updateAirLatch s cfg g dt) cfg
                   (desiredAnimation (updateAirLatch s cfg g dt) cfg p))"
  using assms by (simp add: updatePlayerAnimationState_def Let_def)

subsection \<open>A frame without a player\<close>

lemma syncObjects_calls:
  "tmpTransform s \<Longrightarrow> syncObjects i objs s = Some (s\<lparr>calls := calls s @ syncCalls i objs\<rparr>)"
  by (induction i objs s rule: syncObjects.induct) simp_all

lemma upc_noPlayer:
  "Player s = None \<Longrightarrow>
   updatePlayerContacts s cfg w =
     s\<lparr>playerGrounded := False, playerOnWall := False, playerWallNormal := Vector3 0 0 0\<rparr>"
  by (simp add: updatePlayerContacts_def Let_def)

lemma stages_noPlayer:
  assumes "Player s = None"
  shows "handleInput s cfg w dt = Some s" "updatePlayerAnimationState s cfg w dt = Some s"
    "updateCamera s cfg = Some s"
  using assms by (simp_all add: handleInput_def updatePlayerAnimationState_def updateCamera_def)

lemma sync_noPlayer:
  assumes "Player s = None" "tmpTransform s"
  shows "syncVisualsFromPhysics s cfg = Some (s\<lparr>calls := calls s @ syncCalls 0 (gameObjects s)\<rparr>)"
  using assms by (simp add: syncVisualsFromPhysics_def syncObjects_calls)

lemma stepCore_noPlayer:
  assumes E: "physicsWorld s" "renderer s" and N: "Player s = None" and T: "tmpTransform s"
  shows "stepCore s cfg dt w =
           Some (s\<lparr>playerGrounded := False, playerOnWall := False,
                   playerWallNormal := Vector3 0 0 0,
                   calls := calls s @ [StepSimulation dt] @ syncCalls 0 (gameObjects s) @
                            (if playerMixer s then [MixerUpdate dt] else []) @ [Render]\<rparr>)"
proof -
  let ?s1 = "s\<lparr>Player := map_option (stepSimulation w dt) (Player s),
               calls := calls s @ [StepSimulation dt]\<rparr>"
  let ?s2 = "?s1\<lparr>playerGrounded := False, playerOnWall := False,
                 playerWallNormal := Vector3 0 0 0\<rparr>"
  let ?s4 = "?s2\<lparr>calls := calls ?s2 @ syncCalls 0 (gameObjects ?s2)\<rparr>"
  let ?s6 = "(if playerMixer ?s4 then ?s4\<lparr>calls := calls ?s4 @ [MixerUpdate dt]\<rparr> else ?s4)"
  have N1: "Player ?s1 = None" using N by simp
  have a: "updatePlayerContacts ?s1 cfg w = ?s2" by (rule upc_noPlayer[OF N1])
  have N2: "Player ?s2 = None" "tmpTransform ?s2" using N T by simp_all
  have b: "handleInput ?s2 cfg w dt = Some ?s2" by (rule stages_noPlayer(1)[OF N2(1)])
  have c: "syncVisualsFromPhysics ?s2 cfg = Some ?s4" by (rule sync_noPlayer[OF N2])
  have N4: "Player ?s4 = None" using N by simp
  have d: "updatePlayerAnimationState ?s4 cfg w dt = Some ?s4" by (rule stages_noPlayer(2)[OF N4])
  have N6: "Player ?s6 = None" using N by simp
  have e: "updateCamera ?s6 cfg = Some ?s6" by (rule stages_noPlayer(3)[OF N6])
  have "stepCore s cfg dt w = Some (?s6\<lparr>calls := calls ?s6 @ [Render]\<rparr>)"
    using E unfolding stepCore_def Let_def a by (simp only: b c d e bind.bind_lunit if_False simp_thms)
  then show ?thesis using N by simp
qed

section \<open>C1: entering the Climbing state\<close>

text \<open>
  Claim C1. On a frame that starts with the player not climbing, the climb gate of
  \<^verbatim>\<open>handleInput\<close> (the state after the \<^verbatim>\<open>if (state.playerClimbing) ... else ...\<close>
  block) has the player climbing if and only if all four conditions hold: the player is
  airborne (\<^verbatim>\<open>isGrounded\<close>, the contact flag or the downward ray, is false), the move
  axis is positive, the exit-cooldown timer, as ticked at the start of this call, is at
  most zero, and the player is on a wall whose stored normal has length at least
  \<^verbatim>\<open>WALL_CLIMB_MIN_NORMAL\<close>. Dropping any one of the four makes the right-hand side
  false, so the player does not enter. The first half of \<^verbatim>\<open>handleInput\<close> returns
  (it does not throw) when the player's body has its motion state and the world exists.
\<close>

theorem climb_entry_iff:
  assumes "Player s = Some p" and "motionState p = Some tr" and "physicsWorld s"
    and "\<not> playerClimbing s"
  shows "\<exists>s' grounded. climbPhase s cfg w dt = Some (s', grounded) \<and>
           isGrounded s cfg w = Some grounded \<and>
           climbExitTimer s' =
             (if climbExitTimer s > 0 then max 0 (climbExitTimer s - dt) else climbExitTimer s) \<and>
           (playerClimbing s' \<longleftrightarrow>
              \<not> grounded \<and> moveAxisOf s > 0 \<and> climbExitTimer s' \<le> 0 \<and>
              (playerOnWall s \<and> vlength (playerWallNormal s) \<ge> WALL_CLIMB_MIN_NORMAL cfg))"
proof -
  obtain g where g: "isGrounded s cfg w = Some g"
    using isGrounded_Some[OF assms(1,2,3)] by blast
  obtain s5 where st: "steered (s\<lparr>climbExitTimer := tickedExit s dt,
                                   climbAnimGrace := tickedGrace s dt,
                                   lastMoveAxis := moveAxisOf s\<rparr>) s5"
    and cp: "climbPhase s cfg w dt = Some (climbGate s5 cfg g (moveAxisOf s), g)"
    using climbPhase_Some[OF assms(1) g] by blast
  have f: "\<not> playerClimbing s5" "climbExitTimer s5 = tickedExit s dt"
      "playerOnWall s5 = playerOnWall s" "playerWallNormal s5 = playerWallNormal s"
    using st assms(4) by (auto simp: steered_def)
  show ?thesis
    using cp g climbGate_enter[OF f(1), of cfg g "moveAxisOf s"] f(2,3,4)
    by (simp add: climbGate_exitTimer tickedExit_def)
qed

text \<open>In the air at a wall with the forward key held, under the default configuration,
  the player enters Climbing.\<close>

theorem climb_entry_iff_witness:
  "map_option (playerClimbing \<circ> fst)
     (climbPhase atWallState defaultConfig emptyWorld (1 / 60)) = Some True"
proof -
  have h: "Player atWallState = Some startBody" "motionState startBody = Some startTransform"
    "physicsWorld atWallState" "\<not> playerClimbing atWallState"
    by (simp_all add: atWallState_def startState_def startBody_def)
  have g: "isGrounded atWallState defaultConfig emptyWorld = Some False"
    by (simp add: isGrounded_def isGroundedRay_def atWallState_def startState_def
          startBody_def emptyWorld_def)
  have c: "moveAxisOf atWallState > 0" "climbExitTimer atWallState = 0"
    "playerOnWall atWallState"
    "vlength (playerWallNormal atWallState) \<ge> WALL_CLIMB_MIN_NORMAL defaultConfig"
    by (simp_all add: atWallState_def startState_def moveAxisOf_def isDown_def vlength_def
          defaultConfig_def)
  from climb_entry_iff[OF h, of defaultConfig emptyWorld "1 / 60"] g c
  show ?thesis by auto
qed

section \<open>C2: the value compared with the climb threshold\<close>

text \<open>
  Claim C2. The claim has the climb gate compare \<^verbatim>\<open>WALL_CLIMB_MIN_NORMAL\<close> with the
  magnitude of the accumulated wall normal, as it is before the classifier's final
  renormalization, so that the threshold grades how many and how aligned the wall contacts
  were; the configuration guide describes the threshold the same way, as a minimum wall
  normal strength that makes climbing harder when raised. The code does not do that:
  \<^verbatim>\<open>handleInput\<close> compares the length of the stored \<^verbatim>\<open>state.playerWallNormal\<close>, which
  \<^verbatim>\<open>updatePlayerContacts\<close> has already renormalized. In the corner below the two unit
  normals add up to \<open>(0, 0, 18/41)\<close>, of magnitude \<open>18/41\<close>, below the default threshold
  \<open>0.5\<close>: the gate of the claim refuses the climb. The stored normal is \<open>(0, 0, 1)\<close>, its
  length passes the threshold, and the player climbs.
\<close>

theorem wall_confidence_corner:
  "vlength (cWallNormal (accumulateContacts defaultConfig cornerWorld airBody
      (playerPtr airForwardState))) < WALL_CLIMB_MIN_NORMAL defaultConfig \<and>
   playerOnWall (updatePlayerContacts airForwardState defaultConfig cornerWorld) \<and>
   WALL_CLIMB_MIN_NORMAL defaultConfig
     \<le> vlength (playerWallNormal (updatePlayerContacts airForwardState defaultConfig cornerWorld)) \<and>
   map_option (playerClimbing \<circ> fst)
     (climbPhase (updatePlayerContacts airForwardState defaultConfig cornerWorld)
        defaultConfig cornerWorld (1 / 60)) = Some True"
proof (intro conjI)
  have "playerPtr airForwardState = Suc 0"
    by (simp add: airForwardState_def startState_def)
  then show "vlength (cWallNormal (accumulateContacts defaultConfig cornerWorld airBody
      (playerPtr airForwardState))) < WALL_CLIMB_MIN_NORMAL defaultConfig"
    by (simp add: acc_corner vlength_def sqrt_324_1681 defaultConfig_fields)
next
  show "playerOnWall (updatePlayerContacts airForwardState defaultConfig cornerWorld)"
    unfolding upc_corner by simp
next
  show "WALL_CLIMB_MIN_NORMAL defaultConfig
     \<le> vlength (playerWallNormal (updatePlayerContacts airForwardState defaultConfig cornerWorld))"
    unfolding upc_corner by (simp add: vlength_def defaultConfig_fields)
next
  show "map_option (playerClimbing \<circ> fst)
     (climbPhase (updatePlayerContacts airForwardState defaultConfig cornerWorld)
        defaultConfig cornerWorld (1 / 60)) = Some True"
    by (rule climbing_corner)
qed

text \<open>In numbers: the accumulated length lies below one half, the stored length that the gate
  reads does not.\<close>

theorem wall_confidence_corner_witness:
  "vlength (cWallNormal (accumulateContacts defaultConfig cornerWorld airBody
      (playerPtr airForwardState))) < 1 / 2 \<and>
   1 / 2 \<le> vlength (playerWallNormal (updatePlayerContacts airForwardState defaultConfig cornerWorld))"
  using wall_confidence_corner by (simp add: defaultConfig_fields)

section \<open>C3: landing overrides climbing\<close>

text \<open>
  Claim C3. Whenever the contact classifier sets \<^verbatim>\<open>playerGrounded\<close>, it leaves
  \<^verbatim>\<open>playerClimbing\<close> false and the climb grace timer at zero, whatever the wall
  flags and whatever the state was before; \<^verbatim>\<open>handleInput\<close>, run on that state, returns
  and still has the player grounded, not climbing, with the grace timer at zero (the
  climb gate cannot re-enter Climbing while grounded). For a whole frame: when
  \<^verbatim>\<open>stepCore\<close> ran (world and renderer present) and the state it leaves is grounded,
  that state is not climbing and its grace timer is zero.
\<close>

theorem landing_overrides_climbing:
  "(playerGrounded (updatePlayerContacts s cfg w) \<longrightarrow>
      \<not> playerClimbing (updatePlayerContacts s cfg w) \<and>
      climbAnimGrace (updatePlayerContacts s cfg w) = 0 \<and>
      (\<exists>s3. handleInput (updatePlayerContacts s cfg w) cfg w dt = Some s3 \<and>
            playerGrounded s3 \<and> \<not> playerClimbing s3 \<and> climbAnimGrace s3 = 0)) \<and>
   (physicsWorld s \<and> renderer s \<and> stepCore s cfg dt w = Some s' \<and> playerGrounded s' \<longrightarrow>
      \<not> playerClimbing s' \<and> climbAnimGrace s' = 0)"
proof (rule conjI; rule impI)
  assume g: "playerGrounded (updatePlayerContacts s cfg w)"
  obtain p where "Player (updatePlayerContacts s cfg w) = Some p"
    using upc_grounded(3,4)[OF g] by auto
  then have "\<exists>s3. handleInput (updatePlayerContacts s cfg w) cfg w dt = Some s3 \<and>
            playerGrounded s3 \<and> \<not> playerClimbing s3 \<and> climbAnimGrace s3 = 0"
    using handleInput_grounded[OF _ g upc_grounded(1,2)[OF g]] by blast
  then show "\<not> playerClimbing (updatePlayerContacts s cfg w) \<and>
      climbAnimGrace (updatePlayerContacts s cfg w) = 0 \<and>
      (\<exists>s3. handleInput (updatePlayerContacts s cfg w) cfg w dt = Some s3 \<and>
            playerGrounded s3 \<and> \<not> playerClimbing s3 \<and> climbAnimGrace s3 = 0)"
    using upc_grounded(1,2)[OF g] by simp
next
  assume a: "physicsWorld s \<and> renderer s \<and> stepCore s cfg dt w = Some s' \<and> playerGrounded s'"
  let ?s2 = "updatePlayerContacts (stepped s dt w) cfg w"
  obtain s3 where h: "handleInput ?s2 cfg w dt = Some s3" and sc: "sameControl s3 s'"
    using stepCore_sameControl[of s cfg dt w s'] a by blast
  have "playerGrounded s3" using sc a by (simp add: sameControl_def)
  then have g: "playerGrounded ?s2" using handleInput_playerGrounded[OF h] by simp
  obtain p where "Player ?s2 = Some p"
    using upc_grounded(3,4)[OF g] by auto
  then obtain s3' where "handleInput ?s2 cfg w dt = Some s3'"
    and "\<not> playerClimbing s3'" and "climbAnimGrace s3' = 0"
    using handleInput_grounded[OF _ g upc_grounded(1,2)[OF g], of p cfg w dt] by blast
  then have "\<not> playerClimbing s3 \<and> climbAnimGrace s3 = 0" using h by simp
  then show "\<not> playerClimbing s' \<and> climbAnimGrace s' = 0"
    using sc by (simp add: sameControl_def)
qed

text \<open>On flat ground, from a state whose climbing flag and grace timer are still set, the
  classifier sets grounded, clears the flag and zeroes the timer; and a whole frame there
  returns with the player grounded and not climbing.\<close>

theorem landing_overrides_climbing_witness:
  "playerGrounded (updatePlayerContacts stillClimbingState defaultConfig groundWorld) \<and>
   \<not> playerClimbing (updatePlayerContacts stillClimbingState defaultConfig groundWorld) \<and>
   climbAnimGrace (updatePlayerContacts stillClimbingState defaultConfig groundWorld) = 0 \<and>
   map_option playerGrounded (stepCore stillClimbingState defaultConfig (1 / 60) groundWorld) = Some True \<and>
   map_option playerClimbing (stepCore stillClimbingState defaultConfig (1 / 60) groundWorld) = Some False"
proof -
  have f: "Player stillClimbingState = Some startBody" "dispatcher stillClimbingState"
    "playerPtr stillClimbingState = Suc 0" "physicsWorld stillClimbingState"
    "renderer stillClimbingState"
    by (simp_all add: stillClimbingState_def startState_def)
  have g: "playerGrounded (updatePlayerContacts stillClimbingState defaultConfig groundWorld)"
    using upc_fields(3)[OF f(1), of defaultConfig groundWorld] f(2,3) by (simp add: acc_ground)
  have a: "playerGrounded (updatePlayerContacts stillClimbingState defaultConfig groundWorld) \<and>
   \<not> playerClimbing (updatePlayerContacts stillClimbingState defaultConfig groundWorld) \<and>
   climbAnimGrace (updatePlayerContacts stillClimbingState defaultConfig groundWorld) = 0"
    using landing_overrides_climbing[of stillClimbingState defaultConfig groundWorld] g by blast
  have R: "ready stillClimbingState"
    by (simp add: ready_def stillClimbingState_def startState_def startBody_def)
  have K: "motionState (stepSimulation groundWorld (1 / 60) startBody) = motionState startBody"
    by (simp add: groundWorld_def)
  obtain s' where s': "stepCore stillClimbingState defaultConfig (1 / 60) groundWorld = Some s'"
    using stepCore_ready[OF R f(1) K] by blast
  have g': "playerGrounded s'"
    using stepCore_playerGrounded[OF f(4,5) s'] upc_ground[OF f(1,2,3)] by simp
  have "\<not> playerClimbing s'"
    using landing_overrides_climbing[where s = stillClimbingState and cfg = defaultConfig
            and w = groundWorld and dt = "1 / 60" and s' = s'] f(4,5) s' g'
    by blast
  then show ?thesis using a g' s' by simp
qed

section \<open>C4: the speed cap\<close>

text \<open>
  Claim C4. Let the maximum speed be non-negative and let the stored wall normal be one
  that \<^verbatim>\<open>updatePlayerContacts\<close> produced (for any state, configuration and world).
  Then for every current velocity, move axis, time step and contact flags, the velocity
  that \<^verbatim>\<open>applyCharacterMovement\<close> writes back to the body has horizontal speed at most
  \<^verbatim>\<open>PLAYER_MAX_SPEED\<close>, also after the re-strip of the into-wall component that
  follows the clamp; and the integrator returns (it does not throw) whenever the ground
  test does. Numbers are reals here, so the bound is exact.
\<close>

theorem speed_cap:
  assumes "0 \<le> PLAYER_MAX_SPEED cfg"
    and "playerWallNormal s = playerWallNormal (updatePlayerContacts s0 cfg0 w0)"
    and "Player s = Some p" and "isGrounded s cfg w = Some g"
  shows "\<exists>p'. applyCharacterMovement s cfg w moveAxis dt = Some (s\<lparr>Player := Some p'\<rparr>) \<and>
              horizontalSpeed (linearVelocity p') \<le> PLAYER_MAX_SPEED cfg"
proof -
  have N: "wallNormalClassified (playerWallNormal s)"
    unfolding assms(2) by (rule upc_wallNormalClassified)
  show ?thesis
    unfolding acm_Some[OF assms(3,4)]
    using integrate_speed[OF assms(1) N] by blast
qed

text \<open>In the corner, airborne with forward held: the hypotheses hold and the speed written
  back is at most 15.\<close>

theorem speed_cap_witness:
  "\<exists>p'. applyCharacterMovement (updatePlayerContacts airForwardState defaultConfig cornerWorld)
           defaultConfig cornerWorld 1 (1 / 60) =
           Some ((updatePlayerContacts airForwardState defaultConfig cornerWorld)\<lparr>Player := Some p'\<rparr>) \<and>
        horizontalSpeed (linearVelocity p') \<le> 15"
proof -
  let ?s = "updatePlayerContacts airForwardState defaultConfig cornerWorld"
  have P: "Player ?s = Some airBody"
    unfolding upc_corner by (simp add: airForwardState_def)
  have g: "isGrounded ?s defaultConfig cornerWorld = Some False"
    unfolding upc_corner
    by (simp add: isGrounded_def isGroundedRay_def airForwardState_def
          startState_def airBody_def cornerWorld_def)
  have m: "0 \<le> PLAYER_MAX_SPEED defaultConfig" by (simp add: defaultConfig_fields)
  from speed_cap[OF m refl P g, of 1 "1 / 60"]
  show ?thesis by (simp add: defaultConfig_fields)
qed

section \<open>C5: the vertical velocity\<close>



section \<open>C6: the clamped step toward the target\<close>

text \<open>
  Claim C6. (1) In \<^verbatim>\<open>applyCharacterMovement\<close> the velocity after the step toward the
  target (\<open>approachVelocity\<close>) is the current horizontal velocity plus
  \<open>delta = target - current\<close> with its length clamped to \<open>rate * dt\<close>, for the target and
  the rate of the claim (\<open>specApproach\<close>): the two are equal whenever \<open>rate * dt\<close> is at
  least \<open>10\<^sup>-\<^sup>6\<close>, and never more than \<open>10\<^sup>-\<^sup>6\<close> apart (line 1001 skips the clamp
  for a delta no longer than \<open>10\<^sup>-\<^sup>6\<close>). (2) The clamped step has length
  \<open>min |delta| maxDelta\<close>. (3) Starting at rest on the ground, the body turned about the
  vertical axis only, forward held for \<open>k\<close> frames of length \<open>dt\<close> (with
  \<open>accel * dt\<close> at least \<open>10\<^sup>-\<^sup>6\<close>): the integrator returns each time, and the horizontal
  speed after the \<open>k\<close> frames is \<open>min (k * accel * dt) maxSpeed\<close>: it grows linearly at
  the rate \<open>accel\<close> and never exceeds \<open>maxSpeed\<close>; the vertical velocity is untouched.
\<close>

theorem clamped_step_ramp:
  "(0 \<le> specRate cfg g a * dt \<longrightarrow>
      vlength (subv (approachVelocity cfg g sl n f a dt lv)
                 (specApproach cfg g (desiredVelocity cfg sl n f a) a dt
                    (Vector3 (vecx lv) 0 (vecz lv)))) \<le> 0.000001 \<and>
      (0.000001 \<le> specRate cfg g a * dt \<longrightarrow>
         approachVelocity cfg g sl n f a dt lv =
           specApproach cfg g (desiredVelocity cfg sl n f a) a dt
             (Vector3 (vecx lv) 0 (vecz lv)))) \<and>
   (0 \<le> maxDelta \<longrightarrow>
      vlength (specClampedStep target current maxDelta) =
        min (vlength (subv target current)) maxDelta) \<and>
   (playerGrounded s \<and> Player s = Some p \<and> yawOnly (rotation (worldTransform p)) \<and>
    vecx (linearVelocity p) = 0 \<and> vecz (linearVelocity p) = 0 \<and>
    0 \<le> PLAYER_MAX_SPEED cfg \<and> 0.000001 \<le> PLAYER_ACCEL cfg * dt \<longrightarrow>
      (\<exists>p'. moveFrames k s cfg w 1 dt = Some (s\<lparr>Player := Some p'\<rparr>) \<and>
            horizontalSpeed (linearVelocity p') =
              min (real k * (PLAYER_ACCEL cfg * dt)) (PLAYER_MAX_SPEED cfg) \<and>
            vecy (linearVelocity p') = vecy (linearVelocity p)))"
proof (intro conjI impI)
  assume r: "0 \<le> specRate cfg g a * dt"
  show "vlength (subv (approachVelocity cfg g sl n f a dt lv)
                 (specApproach cfg g (desiredVelocity cfg sl n f a) a dt
                    (Vector3 (vecx lv) 0 (vecz lv)))) \<le> 0.000001"
    unfolding approach_unfold specApproach_def subv_addv
    by (rule limited_near_spec[OF r])
next
  assume "0.000001 \<le> specRate cfg g a * dt"
  then show "approachVelocity cfg g sl n f a dt lv =
           specApproach cfg g (desiredVelocity cfg sl n f a) a dt
             (Vector3 (vecx lv) 0 (vecz lv))"
    unfolding approach_unfold specApproach_def
    using limited_eq_spec by simp
next
  assume "0 \<le> maxDelta"
  then show "vlength (specClampedStep target current maxDelta) =
        min (vlength (subv target current)) maxDelta"
    by (rule spec_step_length)
next
  assume h: "playerGrounded s \<and> Player s = Some p \<and> yawOnly (rotation (worldTransform p)) \<and>
    vecx (linearVelocity p) = 0 \<and> vecz (linearVelocity p) = 0 \<and>
    0 \<le> PLAYER_MAX_SPEED cfg \<and> 0.000001 \<le> PLAYER_ACCEL cfg * dt"
  let ?f = "fst (bodyBasis p)"
  let ?M = "PLAYER_MAX_SPEED cfg" and ?m = "PLAYER_ACCEL cfg * dt"
  have B: "orthoBasis ?f (snd (bodyBasis p))" using h bodyBasis_yaw by blast
  have u: "vecx ?f * vecx ?f + vecz ?f * vecz ?f = 1" using B by (simp add: orthoBasis_def)
  have lv: "linearVelocity p = along ?f 0 (vecy (linearVelocity p))"
    using h by (cases "linearVelocity p") (simp add: along_def)
  have m0: "0 \<le> ?m"
  proof -
    have "(0::real) \<le> 0.000001" by simp
    with h show ?thesis by linarith
  qed
  obtain p' where mf: "moveFrames k s cfg w 1 dt = Some (s\<lparr>Player := Some p'\<rparr>)"
    and l: "linearVelocity p' = along ?f ((rampStep ?M ?m ^^ k) 0) (vecy (linearVelocity p))"
    using moveFrames_ramp[of s p 0 "vecy (linearVelocity p)" cfg dt k w] h B lv m0 by auto
  have c: "(rampStep ?M ?m ^^ k) 0 = min (real k * ?m) ?M"
    using ramp_closed h by blast
  have nn: "0 \<le> min (real k * ?m) ?M" using h m0 by simp
  have "horizontalSpeed (linearVelocity p') = min (real k * ?m) ?M"
    unfolding l c using horizontalSpeed_along[OF u] nn by simp
  moreover have "vecy (linearVelocity p') = vecy (linearVelocity p)"
    by (simp add: l along_def)
  ultimately show "\<exists>p'. moveFrames k s cfg w 1 dt = Some (s\<lparr>Player := Some p'\<rparr>) \<and>
            horizontalSpeed (linearVelocity p') = min (real k * ?m) ?M \<and>
            vecy (linearVelocity p') = vecy (linearVelocity p)"
    using mf by blast
qed

text \<open>Under the default configuration at 60 frames per second, three frames from rest
  give the speed \<open>3 * 55 / 60 = 11/4\<close>.\<close>

theorem clamped_step_ramp_witness:
  "\<exists>p'. moveFrames 3 standingState defaultConfig groundWorld 1 (1 / 60) =
           Some (standingState\<lparr>Player := Some p'\<rparr>) \<and>
        horizontalSpeed (linearVelocity p') = 11 / 4"
proof -
  have h: "playerGrounded standingState \<and> Player standingState = Some startBody \<and>
    yawOnly (rotation (worldTransform startBody)) \<and>
    vecx (linearVelocity startBody) = 0 \<and> vecz (linearVelocity startBody) = 0 \<and>
    0 \<le> PLAYER_MAX_SPEED defaultConfig \<and> 0.000001 \<le> PLAYER_ACCEL defaultConfig * (1 / 60)"
    by (simp add: standingState_def startState_def startBody_def startTransform_def yawOnly_def
          defaultConfig_fields)
  have "min (real 3 * (PLAYER_ACCEL defaultConfig * (1 / 60))) (PLAYER_MAX_SPEED defaultConfig)
          = 11 / 4"
    by (simp add: defaultConfig_fields)
  with clamped_step_ramp[of defaultConfig True 1 "1 / 60" False "Vector3 0 0 0" "Vector3 0 0 1"
        "Vector3 0 0 0" 0 "Vector3 0 0 0" "Vector3 0 0 0" standingState startBody 3 groundWorld] h
  show ?thesis by auto
qed

section \<open>C7: the jump key is edge-triggered\<close>

text \<open>
  Claim C7. The jump key is edge-triggered. Take a hold of the key: it is down, the last
  \<^verbatim>\<open>handleInput\<close> did not see it down, and no release of it occurs among the
  events that follow the first frame. When world, renderer and player are present and the
  run returns, the first frame gives one impulse (a wall jump or a jump) exactly when, on
  that frame, the player is climbing after the climb gate or grounded, and none otherwise
  (the code jumps only \<^verbatim>\<open>if (state.playerClimbing) ... else if (grounded)\<close>); the frames
  and other events after it give no impulse. So a hold gives at most one impulse, and one
  only if the player could jump when the key went down. Likewise, from any state where the
  key is down and was seen down, a run without a release of the key gives no impulse and
  ends with the key still seen down.
\<close>

theorem jump_edge_trigger:
  "(physicsWorld s \<and> renderer s \<and> Player s = Some p \<and>
    isDown s ''Space'' \<and> \<not> spaceWasDown s \<and> KeyUp ''Space'' \<notin> set es \<and>
    run cfg (Frame dt w # es) s = Some s' \<longrightarrow>
      (\<exists>s1 s6 g. stepCore s cfg dt w = Some s1 \<and>
         climbPhase (updatePlayerContacts (stepped s dt w) cfg w) cfg w dt = Some (s6, g) \<and>
         impulses (calls s1) = impulses (calls s) + (if playerClimbing s6 \<or> g then 1 else 0) \<and>
         impulses (calls s') = impulses (calls s1))) \<and>
   (isDown s ''Space'' \<and> spaceWasDown s \<and> KeyUp ''Space'' \<notin> set es \<and> run cfg es s = Some s' \<longrightarrow>
      impulses (calls s') = impulses (calls s) \<and> isDown s' ''Space'' \<and> spaceWasDown s')"
proof (rule conjI; rule impI)
  assume a: "physicsWorld s \<and> renderer s \<and> Player s = Some p \<and>
    isDown s ''Space'' \<and> \<not> spaceWasDown s \<and> KeyUp ''Space'' \<notin> set es \<and>
    run cfg (Frame dt w # es) s = Some s'"
  then obtain s1 where s1: "stepCore s cfg dt w = Some s1" and r: "run cfg es s1 = Some s'"
    by (auto split: option.splits)
  have e: "jumpEdge s" using a by (simp add: jumpEdge_def)
  obtain s6 g where cp: "climbPhase (updatePlayerContacts (stepped s dt w) cfg w) cfg w dt = Some (s6, g)"
    and i: "impulses (calls s1) = impulses (calls s) +
              (if jumpEdge s \<and> (playerClimbing s6 \<or> g) then 1 else 0)"
    and d: "spaceWasDown s1 = isDown s ''Space''" and k: "keys s1 = keys s"
    using stepCore_jump[of s p cfg dt w s1] a s1 by blast
  have "held s1" using a d k by (simp add: held_def isDown_def)
  then have "impulses (calls s') = impulses (calls s1)"
    using run_held[of s1 es cfg s'] a r by simp
  then show "\<exists>s1 s6 g. stepCore s cfg dt w = Some s1 \<and>
         climbPhase (updatePlayerContacts (stepped s dt w) cfg w) cfg w dt = Some (s6, g) \<and>
         impulses (calls s1) = impulses (calls s) + (if playerClimbing s6 \<or> g then 1 else 0) \<and>
         impulses (calls s') = impulses (calls s1)"
    using s1 cp i e by auto
next
  assume a: "isDown s ''Space'' \<and> spaceWasDown s \<and> KeyUp ''Space'' \<notin> set es \<and> run cfg es s = Some s'"
  then have "held s" by (simp add: held_def)
  then show "impulses (calls s') = impulses (calls s) \<and> isDown s' ''Space'' \<and> spaceWasDown s'"
    using run_held[of s es cfg s'] a by (simp add: held_def)
qed

text \<open>The key goes down while the player stands on flat ground and stays down for four
  frames: one impulse. From a state where the key was already seen down, three more frames
  on the ground: no impulse.\<close>

theorem jump_edge_trigger_witness:
  "map_option (impulses \<circ> calls)
     (run defaultConfig [Frame (1 / 60) groundWorld, Frame (1 / 60) groundWorld,
                         Frame (1 / 60) groundWorld, Frame (1 / 60) groundWorld]
        (onKeyDown startState ''Space'')) = Some 1 \<and>
   map_option (impulses \<circ> calls)
     (run defaultConfig [Frame (1 / 60) groundWorld, Frame (1 / 60) groundWorld,
                         Frame (1 / 60) groundWorld] heldState) = Some 0"
proof -
  have a: "map_option (impulses \<circ> calls)
     (run defaultConfig [Frame (1 / 60) groundWorld, Frame (1 / 60) groundWorld,
                         Frame (1 / 60) groundWorld, Frame (1 / 60) groundWorld]
        (onKeyDown startState ''Space'')) = Some 1"
  proof -
    let ?s = "onKeyDown startState ''Space''"
    let ?es = "[Frame (1 / 60) groundWorld, Frame (1 / 60) groundWorld, Frame (1 / 60) groundWorld]"
    have P: "Player ?s = Some startBody" by (simp add: onKeyDown_def startState_def)
    have K: "motionState (stepSimulation groundWorld (1 / 60) startBody) = motionState startBody"
      by (simp add: groundWorld_def)
    obtain s1 where s1: "stepCore ?s defaultConfig (1 / 60) groundWorld = Some s1" and r1: "ready s1"
      using stepCore_ready[OF ready_startState P K] by blast
    obtain p1 where p1: "Player s1 = Some p1" using r1 by (auto simp: ready_def split: option.splits)
    obtain s' where s': "run defaultConfig ?es s1 = Some s'"
      using run_ground3[OF r1 p1] by blast
    have h: "physicsWorld ?s \<and> renderer ?s \<and> Player ?s = Some startBody \<and>
      isDown ?s ''Space'' \<and> \<not> spaceWasDown ?s \<and> KeyUp ''Space'' \<notin> set ?es \<and>
      run defaultConfig (Frame (1 / 60) groundWorld # ?es) ?s = Some s'"
      using s1 s' by (simp add: onKeyDown_def startState_def isDown_def)
    then have r: "run defaultConfig (Frame (1 / 60) groundWorld # ?es) ?s = Some s'" by blast
    have "\<exists>t1 s6 g. stepCore ?s defaultConfig (1 / 60) groundWorld = Some t1 \<and>
           climbPhase (updatePlayerContacts (stepped ?s (1 / 60) groundWorld) defaultConfig groundWorld)
             defaultConfig groundWorld (1 / 60) = Some (s6, g) \<and>
           impulses (calls t1) = impulses (calls ?s) + (if playerClimbing s6 \<or> g then 1 else 0) \<and>
           impulses (calls s') = impulses (calls t1)"
      by (rule jump_edge_trigger[of ?s startBody ?es defaultConfig "1 / 60" groundWorld s',
            THEN conjunct1, THEN mp, OF h])
    then obtain t1 :: GameState and s6 g where
      cp: "climbPhase (updatePlayerContacts (stepped ?s (1 / 60) groundWorld) defaultConfig groundWorld)
             defaultConfig groundWorld (1 / 60) = Some (s6, g)"
      and i: "impulses (calls t1) = impulses (calls ?s) + (if playerClimbing s6 \<or> g then 1 else 0)"
      and j: "impulses (calls s') = impulses (calls t1)"
      by blast
    have "g = True"
      using ground_frame[OF P, of "1 / 60"] cp by (auto simp: onKeyDown_def startState_def)
    then have "impulses (calls s') = 1"
      using i j by (simp add: onKeyDown_def startState_def impulses_simps)
    then show ?thesis using r by simp
  qed
  have b: "map_option (impulses \<circ> calls)
     (run defaultConfig [Frame (1 / 60) groundWorld, Frame (1 / 60) groundWorld,
                         Frame (1 / 60) groundWorld] heldState) = Some 0"
  proof -
    let ?es = "[Frame (1 / 60) groundWorld, Frame (1 / 60) groundWorld, Frame (1 / 60) groundWorld]"
    have R: "ready heldState" and P: "Player heldState = Some startBody"
      by (simp_all add: ready_def heldState_def startState_def startBody_def)
    obtain s' where s': "run defaultConfig ?es heldState = Some s'"
      using run_ground3[OF R P] by blast
    have h: "isDown heldState ''Space'' \<and> spaceWasDown heldState \<and> KeyUp ''Space'' \<notin> set ?es \<and>
             run defaultConfig ?es heldState = Some s'"
      using s' by (simp add: heldState_def isDown_def)
    have "impulses (calls s') = impulses (calls heldState) \<and> isDown s' ''Space'' \<and> spaceWasDown s'"
      by (rule jump_edge_trigger[where s = heldState and es = ?es and cfg = defaultConfig
            and s' = s', THEN conjunct2, THEN mp, OF h])
    then show ?thesis using s' by (simp add: heldState_def startState_def impulses_simps)
  qed
  from a b show ?thesis by - ((elim conjE)?, (intro conjI; assumption))
qed

text \<open>
  The claim as the specification words it (exactly one jump or wall jump per hold) fails in
  the air: the key goes down while the player is ten units above the plane, touching
  nothing, and stays down for three frames; no impulse is given.
\<close>

theorem jump_edge_counterexample:
  "map_option (impulses \<circ> calls)
     (run defaultConfig [KeyDown ''Space'', Frame (1 / 60) emptyWorld, Frame (1 / 60) emptyWorld,
                         Frame (1 / 60) emptyWorld]
        airState) = Some 0"
proof -
  let ?s = "onKeyDown airState ''Space''"
  have R: "ready ?s" by (simp add: ready_def onKeyDown_def airState_def startState_def airBody_def)
  have P: "Player ?s = Some airBody" by (simp add: onKeyDown_def airState_def)
  have K: "\<And>d q. motionState (stepSimulation emptyWorld d q) = motionState q"
    by (simp add: emptyWorld_def)
  have f: "physicsWorld ?s" "renderer ?s" "\<not> playerClimbing ?s" "isDown ?s ''Space''"
    "calls ?s = []"
    by (simp_all add: onKeyDown_def airState_def startState_def isDown_def)
  obtain s1 where s1: "stepCore ?s defaultConfig (1 / 60) emptyWorld = Some s1" and r1: "ready s1"
    using stepCore_ready[OF R P K] by blast
  obtain p1 where p1: "Player s1 = Some p1" using r1 by (auto simp: ready_def split: option.splits)
  obtain s2 where s2: "stepCore s1 defaultConfig (1 / 60) emptyWorld = Some s2" and r2: "ready s2"
    using stepCore_ready[OF r1 p1 K] by blast
  obtain p2 where p2: "Player s2 = Some p2" using r2 by (auto simp: ready_def split: option.splits)
  obtain s3 where s3: "stepCore s2 defaultConfig (1 / 60) emptyWorld = Some s3"
    using stepCore_ready[OF r2 p2 K] by blast
  obtain s6 g where
    cp: "climbPhase (updatePlayerContacts (stepped ?s (1 / 60) emptyWorld) defaultConfig emptyWorld)
           defaultConfig emptyWorld (1 / 60) = Some (s6, g)"
    and i: "impulses (calls s1) = impulses (calls ?s) +
              (if jumpEdge ?s \<and> (playerClimbing s6 \<or> g) then 1 else 0)"
    and d: "spaceWasDown s1 = isDown ?s ''Space''" and k: "keys s1 = keys ?s"
    using stepCore_jump[OF f(1,2) P s1] by blast
  have "\<not> g \<and> \<not> playerClimbing s6"
    using air_frame[OF P _ f(1,3), of airTransform "1 / 60" defaultConfig] cp
    by (auto simp: airBody_def)
  then have i1: "impulses (calls s1) = 0" using i f(5) by (simp add: impulses_simps)
  have h1: "held s1" using d k f(4) by (simp add: held_def isDown_def)
  have i2: "held s2 \<and> impulses (calls s2) = impulses (calls s1)" by (rule stepCore_held[OF h1 s2])
  then have "impulses (calls s3) = impulses (calls s2)" using stepCore_held[OF _ s3] by simp
  then show ?thesis using s1 s2 s3 i1 i2 by simp
qed

section \<open>C8: the camera pitch stays clamped\<close>

text \<open>
  Claim C8. The dynamic minimum pitch that the code computes is \<^verbatim>\<open>CAMERA_MIN_PITCH_BELOW\<close>
  when the stored height of the player above the ground plane exceeds
  \<^verbatim>\<open>CAMERA_BELOW_PLAYER_ENABLE_HEIGHT\<close>, and \<^verbatim>\<open>CAMERA_MIN_PITCH\<close> otherwise. Let the
  pitch limits of the configuration be in order (both minima at most
  \<^verbatim>\<open>CAMERA_MAX_PITCH\<close>). A pointer move while the pointer is locked leaves the pitch at
  the old pitch minus the scaled delta, clamped between that minimum (for the stored
  height, which the move does not change) and \<^verbatim>\<open>CAMERA_MAX_PITCH\<close>. An
  \<^verbatim>\<open>updateCamera\<close> that finds the player with a motion state stores the height of the
  player's origin above \<^verbatim>\<open>GROUND_PLANE_Y\<close> and leaves the pitch clamped between the
  minimum for that new height and \<^verbatim>\<open>CAMERA_MAX_PITCH\<close>: the clamp of the old pitch once
  the yaw is initialized, of the pitch towards the camera on the first update. The same
  holds of every frame that ran with the player present. So after each of them the pitch
  lies in the closed interval of the claim (\<open>pitchClamped\<close>, which spells the two
  minima out); and, once it does, it does so after any run of events (pointer moves,
  frames, keys, wheel, pointer lock changes) whatsoever.
\<close>

theorem camera_pitch_clamp:
  assumes "CAMERA_MIN_PITCH cfg \<le> CAMERA_MAX_PITCH cfg"
    and "CAMERA_MIN_PITCH_BELOW cfg \<le> CAMERA_MAX_PITCH cfg"
  shows "getDynamicMinPitch s cfg =
           (if playerHeightAboveGround s > CAMERA_BELOW_PLAYER_ENABLE_HEIGHT cfg
            then CAMERA_MIN_PITCH_BELOW cfg else CAMERA_MIN_PITCH cfg) \<and>
         (pointerLocked s \<longrightarrow>
            cameraPitch (onMouseMove s cfg movementX movementY) =
              max (if playerHeightAboveGround s > CAMERA_BELOW_PLAYER_ENABLE_HEIGHT cfg
                   then CAMERA_MIN_PITCH_BELOW cfg else CAMERA_MIN_PITCH cfg)
                  (min (CAMERA_MAX_PITCH cfg)
                     (cameraPitch s - movementY * MOUSE_PITCH_SENSITIVITY cfg)) \<and>
            playerHeightAboveGround (onMouseMove s cfg movementX movementY) =
              playerHeightAboveGround s \<and>
            pitchClamped cfg (onMouseMove s cfg movementX movementY)) \<and>
         (Player s = Some p \<and> motionState p = Some tr \<and> updateCamera s cfg = Some s1 \<longrightarrow>
            pitchClamped cfg s1 \<and>
            playerHeightAboveGround s1 = vecy (origin tr) - GROUND_PLANE_Y cfg \<and>
            (\<exists>v. cameraPitch s1 =
                   max (if vecy (origin tr) - GROUND_PLANE_Y cfg > CAMERA_BELOW_PLAYER_ENABLE_HEIGHT cfg
                        then CAMERA_MIN_PITCH_BELOW cfg else CAMERA_MIN_PITCH cfg)
                       (min (CAMERA_MAX_PITCH cfg) v) \<and>
                 (cameraYawInitialized s \<longrightarrow> v = cameraPitch s))) \<and>
         (physicsWorld s \<and> renderer s \<and> Player s = Some p \<and>
          motionState (stepSimulation w dt p) = Some tr \<and> stepCore s cfg dt w = Some s2 \<longrightarrow>
            pitchClamped cfg s2 \<and>
            playerHeightAboveGround s2 = vecy (origin tr) - GROUND_PLANE_Y cfg \<and>
            (\<exists>v. cameraPitch s2 =
                   max (if vecy (origin tr) - GROUND_PLANE_Y cfg > CAMERA_BELOW_PLAYER_ENABLE_HEIGHT cfg
                        then CAMERA_MIN_PITCH_BELOW cfg else CAMERA_MIN_PITCH cfg)
                       (min (CAMERA_MAX_PITCH cfg) v) \<and>
                 (cameraYawInitialized s \<longrightarrow> v = cameraPitch s))) \<and>
         (pitchClamped cfg s \<and> run cfg es s = Some s3 \<longrightarrow> pitchClamped cfg s3)"
proof -
  have R: "pitchRangeOk cfg" using assms by (simp add: pitchRangeOk_def)
  have z: "getDynamicMinPitch s cfg =
           (if playerHeightAboveGround s > CAMERA_BELOW_PLAYER_ENABLE_HEIGHT cfg
            then CAMERA_MIN_PITCH_BELOW cfg else CAMERA_MIN_PITCH cfg)"
    by (rule getDynamicMinPitch_eq)
  have a: "pointerLocked s \<longrightarrow>
            cameraPitch (onMouseMove s cfg movementX movementY) =
              max (if playerHeightAboveGround s > CAMERA_BELOW_PLAYER_ENABLE_HEIGHT cfg
                   then CAMERA_MIN_PITCH_BELOW cfg else CAMERA_MIN_PITCH cfg)
                  (min (CAMERA_MAX_PITCH cfg)
                     (cameraPitch s - movementY * MOUSE_PITCH_SENSITIVITY cfg)) \<and>
            playerHeightAboveGround (onMouseMove s cfg movementX movementY) =
              playerHeightAboveGround s \<and>
            pitchClamped cfg (onMouseMove s cfg movementX movementY)"
    using onMouseMove_clamped[OF R, of s movementX movementY]
      onMouseMove_pitch[of s cfg movementX movementY]
    by blast
  have b: "Player s = Some p \<and> motionState p = Some tr \<and> updateCamera s cfg = Some s1 \<longrightarrow>
            pitchClamped cfg s1 \<and>
            playerHeightAboveGround s1 = vecy (origin tr) - GROUND_PLANE_Y cfg \<and>
            (\<exists>v. cameraPitch s1 =
                   max (if vecy (origin tr) - GROUND_PLANE_Y cfg > CAMERA_BELOW_PLAYER_ENABLE_HEIGHT cfg
                        then CAMERA_MIN_PITCH_BELOW cfg else CAMERA_MIN_PITCH cfg)
                       (min (CAMERA_MAX_PITCH cfg) v) \<and>
                 (cameraYawInitialized s \<longrightarrow> v = cameraPitch s))"
    using updateCamera_clamped[OF R, of s p tr s1] updateCamera_pitch[of s p tr cfg s1] by blast
  have c: "physicsWorld s \<and> renderer s \<and> Player s = Some p \<and>
          motionState (stepSimulation w dt p) = Some tr \<and> stepCore s cfg dt w = Some s2 \<longrightarrow>
            pitchClamped cfg s2 \<and>
            playerHeightAboveGround s2 = vecy (origin tr) - GROUND_PLANE_Y cfg \<and>
            (\<exists>v. cameraPitch s2 =
                   max (if vecy (origin tr) - GROUND_PLANE_Y cfg > CAMERA_BELOW_PLAYER_ENABLE_HEIGHT cfg
                        then CAMERA_MIN_PITCH_BELOW cfg else CAMERA_MIN_PITCH cfg)
                       (min (CAMERA_MAX_PITCH cfg) v) \<and>
                 (cameraYawInitialized s \<longrightarrow> v = cameraPitch s))"
    using stepCore_clamps[OF R, of s p w dt tr s2] stepCore_pitch[of s p w dt tr cfg s2] by blast
  have d: "pitchClamped cfg s \<and> run cfg es s = Some s3 \<longrightarrow> pitchClamped cfg s3"
    using run_clamped[OF R] by blast
  from z a b c d show ?thesis by (intro conjI)
qed

text \<open>With the default configuration: a pointer move of a thousand pixels upwards from the
  start state, a run of pointer moves around a frame, a camera update of the start state,
  and a frame from the start state, which stores the height 4. Then both minima at work:
  a pointer move of a thousand pixels downwards stops at \<open>-0.65\<close> when the stored height
  is 30 and at \<open>0.15\<close> when it is 0, one upwards stops at \<open>1.2\<close>; back on the ground
  after a fall, the camera update lifts the pitch from \<open>-0.65\<close> to \<open>0.15\<close>; and a frame up
  there stores the height 30 and keeps the pitch \<open>0.55\<close>.\<close>

theorem camera_pitch_clamp_witness:
  "pitchClamped defaultConfig (onMouseMove lockedState defaultConfig 0 (- 1000)) \<and>
   map_option (pitchClamped defaultConfig)
     (run defaultConfig [PointerLockChange True, MouseMove 0 (- 1000), Frame (1 / 60) groundWorld,
                         MouseMove 40 900] startState) = Some True \<and>
   map_option (pitchClamped defaultConfig) (updateCamera startState defaultConfig) = Some True \<and>
   map_option playerHeightAboveGround (stepCore startState defaultConfig (1 / 60) groundWorld) = Some 4 \<and>
   map_option (pitchClamped defaultConfig) (stepCore startState defaultConfig (1 / 60) groundWorld) = Some True \<and>
   cameraPitch (onMouseMove highState defaultConfig 0 1000) = - 0.65 \<and>
   cameraPitch (onMouseMove lockedState defaultConfig 0 1000) = 0.15 \<and>
   cameraPitch (onMouseMove lockedState defaultConfig 0 (- 1000)) = 1.2 \<and>
   map_option cameraPitch (updateCamera droppedState defaultConfig) = Some 0.15 \<and>
   map_option playerHeightAboveGround (stepCore highState defaultConfig (1 / 60) emptyWorld) = Some 30 \<and>
   map_option cameraPitch (stepCore highState defaultConfig (1 / 60) emptyWorld) = Some 0.55"
proof -
  have a: "pitchClamped defaultConfig (onMouseMove lockedState defaultConfig 0 (- 1000)) \<and>
   map_option (pitchClamped defaultConfig)
     (run defaultConfig [PointerLockChange True, MouseMove 0 (- 1000), Frame (1 / 60) groundWorld,
                         MouseMove 40 900] startState) = Some True"
  proof -
    have c: "CAMERA_MIN_PITCH defaultConfig \<le> CAMERA_MAX_PITCH defaultConfig"
      "CAMERA_MIN_PITCH_BELOW defaultConfig \<le> CAMERA_MAX_PITCH defaultConfig"
      by (simp_all add: defaultConfig_fields)
    let ?s2 = "onMouseMove lockedState defaultConfig 0 (- 1000)"
    have l: "pointerLocked lockedState" by (simp add: lockedState_def)
    have r0: "ready lockedState"
      by (simp add: ready_def lockedState_def startState_def startBody_def)
    have r2: "ready ?s2" and p2: "Player ?s2 = Some startBody"
      using r0 by (simp_all add: onMouseMove_ready lockedState_def startState_def)
    have K: "motionState (stepSimulation groundWorld (1 / 60) startBody) = motionState startBody"
      by (simp add: groundWorld_def)
    obtain s3 where s3: "stepCore ?s2 defaultConfig (1 / 60) groundWorld = Some s3"
      using stepCore_ready[OF r2 p2 K] by blast
    have r: "run defaultConfig [PointerLockChange True, MouseMove 0 (- 1000),
               Frame (1 / 60) groundWorld, MouseMove 40 900] startState
             = Some (onMouseMove s3 defaultConfig 40 900)"
      using s3 by (simp add: lockedState_def)
    have i: "pitchClamped defaultConfig startState"
      by (simp add: pitchClamped_def getDynamicMinPitch_def startState_def defaultConfig_fields)
    have "pitchClamped defaultConfig ?s2"
      using camera_pitch_clamp[OF c, where s = lockedState and movementX = 0
              and movementY = "- 1000"] l by blast
    moreover have "pitchClamped defaultConfig (onMouseMove s3 defaultConfig 40 900)"
      using camera_pitch_clamp[OF c, where s = startState
              and ?s3.0 = "onMouseMove s3 defaultConfig 40 900"] i r
      by blast
    ultimately show ?thesis using r by simp
  qed
  have b: "map_option (pitchClamped defaultConfig) (updateCamera startState defaultConfig) = Some True \<and>
   map_option playerHeightAboveGround (stepCore startState defaultConfig (1 / 60) groundWorld) = Some 4 \<and>
   map_option (pitchClamped defaultConfig) (stepCore startState defaultConfig (1 / 60) groundWorld) = Some True"
  proof -
    have c: "CAMERA_MIN_PITCH defaultConfig \<le> CAMERA_MAX_PITCH defaultConfig"
      "CAMERA_MIN_PITCH_BELOW defaultConfig \<le> CAMERA_MAX_PITCH defaultConfig"
      by (simp_all add: defaultConfig_fields)
    have f: "Player startState = Some startBody" "motionState startBody = Some startTransform"
      "tmpTransform startState" "camera startState = Some (Vector3 0 55 100)"
      "physicsWorld startState" "renderer startState"
      by (simp_all add: startState_def startBody_def)
    have R: "ready startState" by (simp add: ready_def startState_def startBody_def)
    have K: "motionState (stepSimulation groundWorld (1 / 60) startBody) = motionState startBody"
      by (simp add: groundWorld_def)
    then have M: "motionState (stepSimulation groundWorld (1 / 60) startBody) = Some startTransform"
      using f(2) by simp
    obtain s1 where s1: "updateCamera startState defaultConfig = Some s1"
      using updateCamera_Some[OF f(3,4)] by blast
    obtain s2 where s2: "stepCore startState defaultConfig (1 / 60) groundWorld = Some s2"
      using stepCore_ready[OF R f(1) K] by blast
    have "pitchClamped defaultConfig s1"
      using camera_pitch_clamp[OF c, where s = startState and p = startBody
              and tr = startTransform and ?s1.0 = s1] f(1,2) s1
      by blast
    moreover have "pitchClamped defaultConfig s2 \<and>
        playerHeightAboveGround s2 = vecy (origin startTransform) - GROUND_PLANE_Y defaultConfig"
      using camera_pitch_clamp[OF c, where s = startState and p = startBody
              and tr = startTransform and w = groundWorld and dt = "1 / 60" and ?s2.0 = s2]
        f(1,5,6) M s2
      by blast
    ultimately show ?thesis using s1 s2 by (simp add: startTransform_def defaultConfig_fields)
  qed
  have d: "cameraPitch (onMouseMove highState defaultConfig 0 1000) = - 0.65 \<and>
   cameraPitch (onMouseMove lockedState defaultConfig 0 1000) = 0.15 \<and>
   cameraPitch (onMouseMove lockedState defaultConfig 0 (- 1000)) = 1.2 \<and>
   map_option cameraPitch (updateCamera droppedState defaultConfig) = Some 0.15 \<and>
   map_option playerHeightAboveGround (stepCore highState defaultConfig (1 / 60) emptyWorld) = Some 30 \<and>
   map_option cameraPitch (stepCore highState defaultConfig (1 / 60) emptyWorld) = Some 0.55"
  proof -
    have c: "CAMERA_MIN_PITCH defaultConfig \<le> CAMERA_MAX_PITCH defaultConfig"
      "CAMERA_MIN_PITCH_BELOW defaultConfig \<le> CAMERA_MAX_PITCH defaultConfig"
      by (simp_all add: defaultConfig_fields)
    have h: "pointerLocked highState" "playerHeightAboveGround highState = 30"
      "cameraPitch highState = 11 / 20" "cameraYawInitialized highState"
      "Player highState = Some highBody" "physicsWorld highState" "renderer highState"
      by (simp_all add: highState_def startState_def)
    have l: "pointerLocked lockedState" "playerHeightAboveGround lockedState = 0"
      "cameraPitch lockedState = 11 / 20"
      by (simp_all add: lockedState_def startState_def)
    have g: "Player droppedState = Some startBody" "motionState startBody = Some startTransform"
      "tmpTransform droppedState" "camera droppedState = Some (Vector3 0 55 100)"
      "cameraYawInitialized droppedState" "cameraPitch droppedState = - (13 / 20)"
      by (simp_all add: droppedState_def startState_def startBody_def)
    have w1: "cameraPitch (onMouseMove highState defaultConfig 0 1000) = - 0.65"
      using camera_pitch_clamp[OF c, where s = highState and movementX = 0
              and movementY = 1000] h(1)
      by (simp add: h(2,3) defaultConfig_fields)
    have w2: "cameraPitch (onMouseMove lockedState defaultConfig 0 1000) = 0.15"
      using camera_pitch_clamp[OF c, where s = lockedState and movementX = 0
              and movementY = 1000] l(1)
      by (simp add: l(2,3) defaultConfig_fields)
    have w3: "cameraPitch (onMouseMove lockedState defaultConfig 0 (- 1000)) = 1.2"
      using camera_pitch_clamp[OF c, where s = lockedState and movementX = 0
              and movementY = "- 1000"] l(1)
      by (simp add: l(2,3) defaultConfig_fields)
    obtain s1 where s1: "updateCamera droppedState defaultConfig = Some s1"
      using updateCamera_Some[OF g(3,4)] by blast
    have "\<exists>v. cameraPitch s1 =
             max (if vecy (origin startTransform) - GROUND_PLANE_Y defaultConfig
                       > CAMERA_BELOW_PLAYER_ENABLE_HEIGHT defaultConfig
                  then CAMERA_MIN_PITCH_BELOW defaultConfig else CAMERA_MIN_PITCH defaultConfig)
                 (min (CAMERA_MAX_PITCH defaultConfig) v) \<and>
             (cameraYawInitialized droppedState \<longrightarrow> v = cameraPitch droppedState)"
      using camera_pitch_clamp[OF c, where s = droppedState and p = startBody
              and tr = startTransform and ?s1.0 = s1] g(1,2) s1
      by blast
    then have w4: "cameraPitch s1 = 0.15"
      using g(5,6) by (auto simp: startTransform_def defaultConfig_fields)
    have R: "ready highState"
      by (simp add: ready_def highState_def startState_def highBody_def)
    have K: "motionState (stepSimulation emptyWorld (1 / 60) highBody) = motionState highBody"
      by (simp add: emptyWorld_def)
    then have M: "motionState (stepSimulation emptyWorld (1 / 60) highBody) = Some highTransform"
      by (simp add: highBody_def)
    obtain s2 where s2: "stepCore highState defaultConfig (1 / 60) emptyWorld = Some s2"
      using stepCore_ready[OF R h(5) K] by blast
    have "playerHeightAboveGround s2 = vecy (origin highTransform) - GROUND_PLANE_Y defaultConfig \<and>
          (\<exists>v. cameraPitch s2 =
             max (if vecy (origin highTransform) - GROUND_PLANE_Y defaultConfig
                       > CAMERA_BELOW_PLAYER_ENABLE_HEIGHT defaultConfig
                  then CAMERA_MIN_PITCH_BELOW defaultConfig else CAMERA_MIN_PITCH defaultConfig)
                 (min (CAMERA_MAX_PITCH defaultConfig) v) \<and>
             (cameraYawInitialized highState \<longrightarrow> v = cameraPitch highState))"
      using camera_pitch_clamp[OF c, where s = highState and p = highBody
              and tr = highTransform and w = emptyWorld and dt = "1 / 60" and ?s2.0 = s2]
        h(5,6,7) M s2
      by blast
    then have w5: "playerHeightAboveGround s2 = 30" and w6: "cameraPitch s2 = 0.55"
      using h(3,4) by (auto simp: highTransform_def defaultConfig_fields)
    from w1 w2 w3 w4 w5 w6 s1 s2 show ?thesis by simp
  qed
  from a b d show ?thesis by - ((elim conjE)?, (intro conjI; assumption))
qed

section \<open>C9: the in-air animation latch is debounced\<close>

text \<open>
  Claim C9. Take a call of \<^verbatim>\<open>updatePlayerAnimationState\<close> with the player and the mixer
  present, not climbing and with no climb grace left, and let \<open>grounded\<close> be the value
  of \<^verbatim>\<open>isGrounded\<close>. The call returns. If grounded, the latch is off and the air timer
  zero afterwards. If airborne, the timer has grown by \<open>dt\<close>, and the latch is on
  afterwards exactly when it was on before or the new timer has reached
  \<^verbatim>\<open>ANIM_AIR_MIN_TIME\<close>. In particular one airborne frame at 60 fps after a grounded
  one (latch off, timer zero), with \<^verbatim>\<open>ANIM_AIR_MIN_TIME\<close> at 0.1, leaves the latch off;
  the animation state does not become \<^verbatim>\<open>in_air\<close>, and it is unchanged when it was
  the one that fits the player's horizontal speed.
\<close>

theorem air_latch_debounce:
  assumes "Player s = Some p" and "playerMixer s" and "\<not> playerClimbing s"
    and "climbAnimGrace s \<le> 0" and "isGrounded s cfg w = Some grounded"
  shows "\<exists>s'. updatePlayerAnimationState s cfg w dt = Some s' \<and>
           (grounded \<longrightarrow> \<not> animInAir s' \<and> animAirTimer s' = 0) \<and>
           (\<not> grounded \<longrightarrow>
              animAirTimer s' = animAirTimer s + dt \<and>
              (animInAir s' \<longleftrightarrow> animInAir s \<or> animAirTimer s + dt \<ge> ANIM_AIR_MIN_TIME cfg)) \<and>
           (\<not> grounded \<and> \<not> animInAir s \<and> animAirTimer s = 0 \<and> dt = 1 / 60 \<and>
            ANIM_AIR_MIN_TIME cfg = 0.1 \<longrightarrow>
              \<not> animInAir s' \<and>
              (playerCurrentState s \<noteq> in_air \<longrightarrow> playerCurrentState s' \<noteq> in_air) \<and>
              (playerCurrentState s =
                 (if horizontalSpeed (linearVelocity p) > MOVE_SPEED_THRESHOLD cfg then move else idle)
               \<longrightarrow> playerCurrentState s' = playerCurrentState s))"
proof -
  let ?s1 = "updateAirLatch s cfg grounded dt"
  let ?d = "desiredAnimation ?s1 cfg p"
  let ?s' = "switchAnimation ?s1 cfg ?d"
  have e: "updatePlayerAnimationState s cfg w dt = Some ?s'" by (rule anim_latch[OF assms])
  have a: "grounded \<longrightarrow> \<not> animInAir ?s' \<and> animAirTimer ?s' = 0"
    by (simp add: switchAnimation_latch updateAirLatch_fields)
  have b: "\<not> grounded \<longrightarrow>
              animAirTimer ?s' = animAirTimer s + dt \<and>
              (animInAir ?s' \<longleftrightarrow> animInAir s \<or> animAirTimer s + dt \<ge> ANIM_AIR_MIN_TIME cfg)"
    by (simp add: switchAnimation_latch updateAirLatch_fields)
  have c: "\<not> animInAir ?s' \<and>
              (playerCurrentState s \<noteq> in_air \<longrightarrow> playerCurrentState ?s' \<noteq> in_air) \<and>
              (playerCurrentState s =
                 (if horizontalSpeed (linearVelocity p) > MOVE_SPEED_THRESHOLD cfg then move else idle)
               \<longrightarrow> playerCurrentState ?s' = playerCurrentState s)"
    if h: "\<not> grounded \<and> \<not> animInAir s \<and> animAirTimer s = 0 \<and> dt = 1 / 60 \<and>
            ANIM_AIR_MIN_TIME cfg = 0.1"
  proof -
    have off: "\<not> animInAir ?s1" using h by (simp add: updateAirLatch_fields)
    then have d: "?d = (if horizontalSpeed (linearVelocity p) > MOVE_SPEED_THRESHOLD cfg
                        then move else idle)"
      by (simp add: desiredAnimation_eq)
    have c1: "\<not> animInAir ?s'" using off by (simp add: switchAnimation_latch)
    have c2: "playerCurrentState s \<noteq> in_air \<longrightarrow> playerCurrentState ?s' \<noteq> in_air"
      using switchAnimation_state[of ?s1 cfg ?d] d
      by (auto simp: updateAirLatch_fields split: if_splits)
    have c3: "playerCurrentState s =
                 (if horizontalSpeed (linearVelocity p) > MOVE_SPEED_THRESHOLD cfg then move else idle)
               \<longrightarrow> playerCurrentState ?s' = playerCurrentState s"
      using switchAnimation_same[of ?s1 ?d cfg] d by (simp add: updateAirLatch_fields)
    from c1 c2 c3 show ?thesis by blast
  qed
  from e a b c show ?thesis by blast
qed

text \<open>The player at rest ten units above the plane, idle, in an empty world: after one
  call at 60 fps the latch is off, the timer is 1/60, and the state is still idle. Just
  landed with the latch on: one call resets the latch and the timer.\<close>

theorem air_latch_debounce_witness:
  "map_option animInAir (updatePlayerAnimationState airState defaultConfig emptyWorld (1 / 60)) = Some False \<and>
   map_option animAirTimer (updatePlayerAnimationState airState defaultConfig emptyWorld (1 / 60)) = Some (1 / 60) \<and>
   map_option playerCurrentState (updatePlayerAnimationState airState defaultConfig emptyWorld (1 / 60)) = Some idle \<and>
   map_option animInAir (updatePlayerAnimationState landingState defaultConfig groundWorld (1 / 60)) = Some False \<and>
   map_option animAirTimer (updatePlayerAnimationState landingState defaultConfig groundWorld (1 / 60)) = Some 0"
proof -
  have a: "map_option animInAir (updatePlayerAnimationState airState defaultConfig emptyWorld (1 / 60)) = Some False \<and>
   map_option animAirTimer (updatePlayerAnimationState airState defaultConfig emptyWorld (1 / 60)) = Some (1 / 60) \<and>
   map_option playerCurrentState (updatePlayerAnimationState airState defaultConfig emptyWorld (1 / 60)) = Some idle"
  proof -
    have f: "Player airState = Some airBody" "playerMixer airState" "\<not> playerClimbing airState"
      "climbAnimGrace airState \<le> 0" "\<not> animInAir airState" "animAirTimer airState = 0"
      "playerCurrentState airState = idle"
      by (simp_all add: airState_def startState_def)
    have g: "isGrounded airState defaultConfig emptyWorld = Some False"
      by (simp add: isGrounded_def isGroundedRay_def airState_def startState_def airBody_def
            emptyWorld_def)
    have v: "horizontalSpeed (linearVelocity airBody) = 0"
      by (simp add: horizontalSpeed_def airBody_def)
    obtain s' where s': "updatePlayerAnimationState airState defaultConfig emptyWorld (1 / 60) = Some s'"
      and t: "animAirTimer s' = animAirTimer airState + 1 / 60"
      and l: "\<not> animInAir s'" and c: "playerCurrentState s' = playerCurrentState airState"
      using air_latch_debounce[OF f(1,2,3,4) g, of "1 / 60"] f(5,6,7) v
      by (auto simp: defaultConfig_fields)
    then show ?thesis by (simp add: f)
  qed
  have b: "map_option animInAir (updatePlayerAnimationState landingState defaultConfig groundWorld (1 / 60)) = Some False \<and>
   map_option animAirTimer (updatePlayerAnimationState landingState defaultConfig groundWorld (1 / 60)) = Some 0"
  proof -
    have f: "Player landingState = Some startBody" "playerMixer landingState"
      "\<not> playerClimbing landingState" "climbAnimGrace landingState \<le> 0"
      by (simp_all add: landingState_def startState_def)
    have g: "isGrounded landingState defaultConfig groundWorld = Some True"
      by (simp add: isGrounded_def landingState_def)
    obtain s' where "updatePlayerAnimationState landingState defaultConfig groundWorld (1 / 60) = Some s'"
      and "\<not> animInAir s'" and "animAirTimer s' = 0"
      using air_latch_debounce[OF f g, of "1 / 60"] by auto
    then show ?thesis by simp
  qed
  from a b show ?thesis by - ((elim conjE)?, (intro conjI; assumption))
qed

section \<open>C10: frames without world or player\<close>

text \<open>
  Claim C10. When the physics world (or the renderer) is missing, \<^verbatim>\<open>stepCore\<close> returns at
  once: the state, trace included, is unchanged. When the player's body is absent, the
  stages that are about the player do nothing and do not throw: \<^verbatim>\<open>handleInput\<close>,
  \<^verbatim>\<open>updatePlayerAnimationState\<close> and \<^verbatim>\<open>updateCamera\<close> return the state as it is, and
  \<^verbatim>\<open>updatePlayerContacts\<close> only resets the three contact fields. The frame as a whole
  is not skipped, though: with world, renderer and the scratch transform present it
  returns, having stepped the physics, synced the game objects, updated the mixer if there
  is one, and rendered.
\<close>

theorem frame_guards:
  "(\<not> physicsWorld s \<or> \<not> renderer s \<longrightarrow> stepCore s cfg dt w = Some s) \<and>
   (Player s = None \<longrightarrow>
      updatePlayerContacts s cfg w =
        s\<lparr>playerGrounded := False, playerOnWall := False, playerWallNormal := Vector3 0 0 0\<rparr> \<and>
      handleInput s cfg w dt = Some s \<and>
      updatePlayerAnimationState s cfg w dt = Some s \<and>
      updateCamera s cfg = Some s) \<and>
   (physicsWorld s \<and> renderer s \<and> Player s = None \<and> tmpTransform s \<longrightarrow>
      stepCore s cfg dt w =
        Some (s\<lparr>playerGrounded := False, playerOnWall := False,
                playerWallNormal := Vector3 0 0 0,
                calls := calls s @ [StepSimulation dt] @ syncCalls 0 (gameObjects s) @
                         (if playerMixer s then [MixerUpdate dt] else []) @ [Render]\<rparr>))"
proof (intro conjI impI)
  assume "\<not> physicsWorld s \<or> \<not> renderer s"
  then show "stepCore s cfg dt w = Some s" by (auto simp: stepCore_def)
next
  assume "Player s = None"
  then show "updatePlayerContacts s cfg w =
        s\<lparr>playerGrounded := False, playerOnWall := False, playerWallNormal := Vector3 0 0 0\<rparr>"
    by (rule upc_noPlayer)
next
  assume "Player s = None"
  then show "handleInput s cfg w dt = Some s" by (rule stages_noPlayer)
next
  assume "Player s = None"
  then show "updatePlayerAnimationState s cfg w dt = Some s" by (rule stages_noPlayer)
next
  assume "Player s = None"
  then show "updateCamera s cfg = Some s" by (rule stages_noPlayer)
next
  assume "physicsWorld s \<and> renderer s \<and> Player s = None \<and> tmpTransform s"
  then show "stepCore s cfg dt w =
        Some (s\<lparr>playerGrounded := False, playerOnWall := False,
                playerWallNormal := Vector3 0 0 0,
                calls := calls s @ [StepSimulation dt] @ syncCalls 0 (gameObjects s) @
                         (if playerMixer s then [MixerUpdate dt] else []) @ [Render]\<rparr>)"
    using stepCore_noPlayer by blast
qed

text \<open>Before the player is created: a frame without the physics world changes nothing; the
  player stages return the state; a frame with the world returns and leaves the grounded
  flag off.\<close>

theorem frame_guards_witness:
  "stepCore (noPlayerState\<lparr>physicsWorld := False\<rparr>) defaultConfig (1 / 60) emptyWorld
     = Some (noPlayerState\<lparr>physicsWorld := False\<rparr>) \<and>
   handleInput noPlayerState defaultConfig emptyWorld (1 / 60) = Some noPlayerState \<and>
   updateCamera noPlayerState defaultConfig = Some noPlayerState \<and>
   map_option playerGrounded (stepCore noPlayerState defaultConfig (1 / 60) emptyWorld) = Some False"
proof -
  have a: "\<not> physicsWorld (noPlayerState\<lparr>physicsWorld := False\<rparr>)" by simp
  have b: "Player noPlayerState = None" by (simp add: noPlayerState_def)
  have c: "physicsWorld noPlayerState \<and> renderer noPlayerState \<and> Player noPlayerState = None \<and>
           tmpTransform noPlayerState"
    by (simp add: noPlayerState_def startState_def)
  have "stepCore (noPlayerState\<lparr>physicsWorld := False\<rparr>) defaultConfig (1 / 60) emptyWorld
     = Some (noPlayerState\<lparr>physicsWorld := False\<rparr>)"
    using frame_guards[of "noPlayerState\<lparr>physicsWorld := False\<rparr>" defaultConfig "1 / 60" emptyWorld] a
    by blast
  moreover have "handleInput noPlayerState defaultConfig emptyWorld (1 / 60) = Some noPlayerState"
    "updateCamera noPlayerState defaultConfig = Some noPlayerState"
    using frame_guards[of noPlayerState defaultConfig "1 / 60" emptyWorld] b by blast+
  moreover have "map_option playerGrounded (stepCore noPlayerState defaultConfig (1 / 60) emptyWorld) = Some False"
    using frame_guards[of noPlayerState defaultConfig "1 / 60" emptyWorld] c by simp
  ultimately show ?thesis by simp
qed

text \<open>
  The claim as the specification words it (with the player's body absent the whole
  pipeline does no work) fails: before the player is created, with world and renderer
  present, a frame steps the physics, syncs the ground object and renders.
\<close>

theorem frame_noop_counterexample:
  "calls noPlayerState = [] \<and>
   map_option calls (stepCore noPlayerState defaultConfig (1 / 60) emptyWorld)
     = Some [StepSimulation (1 / 60), SyncObject 0, Render]"
proof -
  have c: "physicsWorld noPlayerState" "renderer noPlayerState" "Player noPlayerState = None"
    "tmpTransform noPlayerState"
    by (simp_all add: noPlayerState_def startState_def)
  have d: "calls noPlayerState = []" "gameObjects noPlayerState = [True]"
    "\<not> playerMixer noPlayerState"
    by (simp_all add: noPlayerState_def startState_def)
  show ?thesis
    unfolding stepCore_noPlayer[OF c] by (simp add: d)
qed

end
